(* ===== verification/Go_Prelude.thy ===== *)
theory Go_Prelude
  imports Main "HOL-Library.Word" "HOL-Library.Signed_Division"
begin

text \<open>
  Prelude of the development: what the components use of the Go language and of its standard
  library, written once.
  \<^item> error values and run-time panics; a computation that may panic is a value of
    \<open>'a go\<close>, with \<open>Inl\<close> for the panic, and \<open>go_bind\<close>, \<open>go_for\<close> sequence such computations;
  \<^item> \<open>int\<close> and \<open>time.Duration\<close> as 64-bit words (the binaries are built for amd64 and arm64),
    \<open>time.Time\<close> as nanoseconds since the epoch, with the saturating \<open>Sub\<close> of the library;
  \<^item> Go strings as lists of bytes, with the functions of \<open>strings\<close> and \<open>fmt\<close> that are used;
  \<^item> buffered channels, as an interface (a locale) and as the list-based implementation that
    the concurrent part of the model uses.
  The collections \<open>go_simps\<close> and \<open>chan_simps\<close> carry the routine rewriting of the components.
\<close>

named_theorems go_simps "evaluation of computations that may panic"
named_theorems chan_simps "evaluation of channel operations"

section \<open>Errors and panics\<close>

text \<open>What an iteration of a goroutine's \<open>for\<close> loop does at its end: go round again, or return.\<close>

datatype loop_control = Continue | Return


datatype go_error =
    ErrorString string
  | ErrEOF
  | ErrDeadlineExceeded
  | ErrNotExist
  | ErrServerClosed

datatype go_panic =
    NilDereference
  | IndexOutOfRange
  | ExplicitPanic go_error
  | MustRegisterFailed go_error
  | MultipleRegistrations string
  | InvalidPattern string
  | NegativeWaitGroup

type_synonym 'a go = "go_panic + 'a"

definition go_bind :: "'a go \<Rightarrow> ('a \<Rightarrow> 'b go) \<Rightarrow> 'b go" where
  "go_bind m f = (case m of Inl p \<Rightarrow> Inl p | Inr x \<Rightarrow> f x)"

text \<open>A \<open>for ... range\<close> loop whose body updates a state and may panic.\<close>

fun go_for :: "('x \<Rightarrow> 's \<Rightarrow> 's go) \<Rightarrow> 'x list \<Rightarrow> 's \<Rightarrow> 's go" where
  "go_for body [] s = Inr s"
| "go_for body (x # xs) s = go_bind (body x s) (go_for body xs)"

text \<open>Dereferencing a pointer: \<open>None\<close> is \<open>nil\<close>.\<close>

definition deref :: "'a option \<Rightarrow> 'a go" where
  "deref p = (case p of None \<Rightarrow> Inl NilDereference | Some x \<Rightarrow> Inr x)"

lemma go_bind_Inl [simp, go_simps]: "go_bind (Inl p) f = Inl p"
  by (simp add: go_bind_def)

lemma go_bind_Inr [simp, go_simps]: "go_bind (Inr x) f = f x"
  by (simp add: go_bind_def)

lemma go_bind_eq_Inr: "go_bind m f = Inr y \<longleftrightarrow> (\<exists>x. m = Inr x \<and> f x = Inr y)"
  by (cases m) auto

lemma go_bind_eq_Inl: "go_bind m f = Inl p \<longleftrightarrow> m = Inl p \<or> (\<exists>x. m = Inr x \<and> f x = Inl p)"
  by (cases m) auto

lemma deref_simps [simp, go_simps]: "deref None = Inl NilDereference" "deref (Some x) = Inr x"
  by (simp_all add: deref_def)

lemma go_for_append: "go_for body (xs @ ys) s = go_bind (go_for body xs s) (go_for body ys)"
proof (induction xs arbitrary: s)
  case (Cons x xs)
  then show ?case by (cases "body x s") auto
qed simp

text \<open>A loop whose body never panics is a fold; a property kept by every iteration is kept by
  the loop.\<close>

lemma go_for_fold:
  assumes "\<And>x s. x \<in> set xs \<Longrightarrow> body x s = Inr (g x s)"
  shows "go_for body xs s = Inr (fold g xs s)"
  using assms by (induction xs arbitrary: s) auto

lemma go_for_collect [simp]: "go_for (\<lambda>x ys. Inr (ys @ [f x])) xs ys = Inr (ys @ map f xs)"
  by (induction xs arbitrary: ys) simp_all

lemma go_for_invariant:
  assumes "go_for body xs s = Inr t" and "P s"
    and "\<And>x s t. x \<in> set xs \<Longrightarrow> P s \<Longrightarrow> body x s = Inr t \<Longrightarrow> P t"
  shows "P t"
  using assms
proof (induction xs arbitrary: s)
  case (Cons x xs)
  from Cons.prems(1) obtain s' where "body x s = Inr s'" and "go_for body xs s' = Inr t"
    by (auto simp: go_bind_eq_Inr)
  with Cons.prems show ?case by (intro Cons.IH [of s']) auto
qed simp

section \<open>Integers, durations and times\<close>

type_synonym go_int = "64 word"
type_synonym duration = "64 word"
type_synonym go_time = int

text \<open>\<open>time.Duration(n) * time.Millisecond\<close>: a 64-bit product, which wraps around.\<close>

definition milliseconds :: "go_int \<Rightarrow> duration" where
  "milliseconds n = n * 1000000"

text \<open>\<open>Duration.Milliseconds\<close> divides by the number of nanoseconds in a millisecond and
  truncates towards zero.\<close>

definition Duration_Milliseconds :: "duration \<Rightarrow> int" where
  "Duration_Milliseconds d = sint d sdiv 1000000"

definition time_Add :: "go_time \<Rightarrow> duration \<Rightarrow> go_time" where
  "time_Add t d = t + sint d"

definition time_Before :: "go_time \<Rightarrow> go_time \<Rightarrow> bool" where
  "time_Before t u \<longleftrightarrow> t < u"

definition maxDuration :: int where
  "maxDuration = 9223372036854775807"

definition minDuration :: int where
  "minDuration = - 9223372036854775808"

definition time_Sub :: "go_time \<Rightarrow> go_time \<Rightarrow> duration" where
  "time_Sub t u = word_of_int (max minDuration (min maxDuration (t - u)))"

lemma sint64_range: "minDuration \<le> sint (d :: 64 word)" "sint (d :: 64 word) \<le> maxDuration"
  using sint_range_size [of d] by (simp_all add: minDuration_def maxDuration_def word_size)

lemma sint_word_of_int64:
  "minDuration \<le> k \<Longrightarrow> k \<le> maxDuration \<Longrightarrow> sint (word_of_int k :: 64 word) = k"
  by (simp add: minDuration_def maxDuration_def sint_sbintrunc' signed_take_bit_int_eq_self)

lemma sint_time_Sub: "sint (time_Sub t u) = max minDuration (min maxDuration (t - u))"
  unfolding time_Sub_def
  by (rule sint_word_of_int64) (simp_all add: minDuration_def maxDuration_def)

lemma milliseconds_exact:
  assumes "minDuration \<le> sint n * 1000000" and "sint n * 1000000 \<le> maxDuration"
  shows "sint (milliseconds n) = sint n * 1000000"
proof -
  have "milliseconds n = word_of_int (sint n * 1000000)"
    by (simp add: milliseconds_def)
  then show ?thesis by (simp only: sint_word_of_int64 [OF assms])
qed

section \<open>Strings\<close>

text \<open>Decimal rendering of integers, as the verbs \<open>%d\<close> and \<open>%v\<close> of \<open>fmt\<close> do it.\<close>

definition digit_char :: "nat \<Rightarrow> char" where
  "digit_char n = char_of (48 + n)"

fun show_nat :: "nat \<Rightarrow> string" where
  "show_nat n = (if n < 10 then [digit_char n] else show_nat (n div 10) @ [digit_char (n mod 10)])"

declare show_nat.simps [simp del]

definition show_int :: "int \<Rightarrow> string" where
  "show_int i = (if i < 0 then CHR ''-'' # show_nat (nat (- i)) else show_nat (nat i))"

definition digit_val :: "char \<Rightarrow> nat" where
  "digit_val c = of_char c - 48"

definition read_nat :: "string \<Rightarrow> nat" where
  "read_nat s = fold (\<lambda>c n. 10 * n + digit_val c) s 0"

lemma digit_val_char: "n < 10 \<Longrightarrow> digit_val (digit_char n) = n"
  by (simp add: digit_val_def digit_char_def)

lemma read_show_nat: "read_nat (show_nat n) = n"
proof (induction n rule: show_nat.induct)
  case (1 n)
  then show ?case
    by (subst show_nat.simps) (auto simp: read_nat_def digit_val_char)
qed

lemma show_nat_inject: "show_nat m = show_nat n \<longleftrightarrow> m = n"
  by (metis read_show_nat)

text \<open>\<open>strings.Index(s, "/") == 0\<close>: the string starts with a slash.\<close>

definition starts_with :: "string \<Rightarrow> string \<Rightarrow> bool" where
  "starts_with p s \<longleftrightarrow> take (length p) s = p"

definition TrimSuffix :: "string \<Rightarrow> string \<Rightarrow> string" where
  "TrimSuffix s suf =
     (if length suf \<le> length s \<and> drop (length s - length suf) s = suf
      then take (length s - length suf) s else s)"

lemma TrimSuffix_append [simp]: "TrimSuffix (s @ suf) suf = s"
  by (simp add: TrimSuffix_def)

text \<open>\<open>strings.ToLower\<close> and \<open>strings.ToUpper\<close> on the ASCII letters. The callers compare the
  result with ASCII words or apply it to ASCII package names; no other letter is mapped onto
  one of the letters of those words.\<close>

definition lower_char :: "char \<Rightarrow> char" where
  "lower_char c = (if 65 \<le> (of_char c :: nat) \<and> (of_char c :: nat) \<le> 90
     then char_of (of_char c + 32 :: nat) else c)"

definition upper_char :: "char \<Rightarrow> char" where
  "upper_char c = (if 97 \<le> (of_char c :: nat) \<and> (of_char c :: nat) \<le> 122
     then char_of (of_char c - 32 :: nat) else c)"

definition ToLower :: "string \<Rightarrow> string" where
  "ToLower = map lower_char"

definition ToUpper :: "string \<Rightarrow> string" where
  "ToUpper = map upper_char"

text \<open>\<open>strings.Split\<close> with a separator of one byte: always at least one part.\<close>

fun split_on :: "char \<Rightarrow> string \<Rightarrow> string list" where
  "split_on sep [] = [[]]"
| "split_on sep (c # cs) =
     (if c = sep then [] # split_on sep cs
      else (case split_on sep cs of [] \<Rightarrow> [[c]] | p # ps \<Rightarrow> (c # p) # ps))"

lemma split_on_nonempty [simp]: "split_on sep s \<noteq> []"
  by (induction sep s rule: split_on.induct) (auto split: list.splits)

lemma hd_split_on: "hd (split_on sep s) = takeWhile (\<lambda>c. c \<noteq> sep) s"
  by (induction sep s rule: split_on.induct) (auto split: list.splits)

fun join_with :: "char \<Rightarrow> string list \<Rightarrow> string" where
  "join_with sep [] = []"
| "join_with sep [p] = p"
| "join_with sep (p # q # ps) = p @ sep # join_with sep (q # ps)"

lemma join_split: "join_with sep (split_on sep s) = s"
proof (induction sep s rule: split_on.induct)
  case (2 sep c cs)
  then show ?case by (cases "split_on sep cs"; cases "tl (split_on sep cs)") auto
qed simp

text \<open>\<open>path.Clean\<close> and \<open>path.Dir\<close>: the elements of the path are processed from the left on a
  stack; empty elements and dots go, a double dot removes the element before it.\<close>

fun clean_elems :: "bool \<Rightarrow> string list \<Rightarrow> string list \<Rightarrow> string list" where
  "clean_elems rooted stack [] = rev stack"
| "clean_elems rooted stack (e # es) =
     (if e = [] \<or> e = ''.'' then clean_elems rooted stack es
      else if e = ''..'' then
        (case stack of
           [] \<Rightarrow> clean_elems rooted (if rooted then [] else [e]) es
         | t # ts \<Rightarrow> clean_elems rooted (if t = ''..'' then e # stack else ts) es)
      else clean_elems rooted (e # stack) es)"

definition path_Clean :: "string \<Rightarrow> string" where
  "path_Clean p = (let rooted = starts_with ''/'' p;
       body = join_with (CHR ''/'') (clean_elems rooted [] (split_on (CHR ''/'') p))
     in if rooted then CHR ''/'' # body else if body = [] then ''.'' else body)"

definition path_Dir :: "string \<Rightarrow> string" where
  "path_Dir p = path_Clean (rev (dropWhile (\<lambda>c. c \<noteq> CHR ''/'') (rev p)))"

text \<open>The conversion \<open>string(b)\<close> of a byte gives the UTF-8 encoding of the code point \<open>b\<close>: one
  byte below 128, two bytes from there on.\<close>

definition string_of_byte :: "char \<Rightarrow> string" where
  "string_of_byte c = (let n = of_char c :: nat in
     if n < 128 then [c] else [char_of (192 + n div 64), char_of (128 + n mod 64)])"

definition ascii :: "char \<Rightarrow> bool" where
  "ascii c \<longleftrightarrow> (of_char c :: nat) < 128"

lemma string_of_byte_ascii [simp]: "ascii c \<Longrightarrow> string_of_byte c = [c]"
  by (simp add: string_of_byte_def ascii_def)

text \<open>The regular expression engine: which expressions compile, and which strings they match. An
  expression is known by its source text. The second definition is an engine for examples.\<close>

record regexp_api =
  re_Compile :: "string \<Rightarrow> go_error option"
  re_MatchString :: "string \<Rightarrow> string \<Rightarrow> bool"

definition equality_regexp :: regexp_api where
  "equality_regexp = \<lparr>re_Compile = (\<lambda>r. if r = ''('' then Some (ErrorString ''missing closing )'') else None),
     re_MatchString = (=)\<rparr>"

section \<open>Buffered channels\<close>

text \<open>
  The interface of a buffered channel: \<open>send\<close> gives \<open>None\<close> where the sending goroutine blocks,
  \<open>recv\<close> gives \<open>None\<close> where the receiving one does. The laws are those of the language: first
  in, first out, and a capacity that bounds what is buffered.
\<close>

locale buffered_channel =
  fixes send :: "'v \<Rightarrow> 'ch \<Rightarrow> 'ch option"
    and recv :: "'ch \<Rightarrow> ('v \<times> 'ch) option"
    and pending :: "'ch \<Rightarrow> 'v list"
    and capacity :: nat
  assumes send_room: "length (pending c) < capacity \<Longrightarrow>
      \<exists>c'. send v c = Some c' \<and> pending c' = pending c @ [v]"
    and send_full: "capacity \<le> length (pending c) \<Longrightarrow> send v c = None"
    and recv_empty: "pending c = [] \<Longrightarrow> recv c = None"
    and recv_first: "pending c = v # vs \<Longrightarrow> \<exists>c'. recv c = Some (v, c') \<and> pending c' = vs"
begin

lemma send_SomeD:
  assumes "send v c = Some c'"
  shows "pending c' = pending c @ [v]" and "length (pending c) < capacity"
proof -
  show len: "length (pending c) < capacity"
    using assms send_full [of c v] by (cases "length (pending c) < capacity") auto
  from send_room [OF len, of v] assms show "pending c' = pending c @ [v]" by auto
qed

lemma recv_SomeD:
  assumes "recv c = Some (v, c')"
  shows "pending c = v # pending c'"
proof (cases "pending c")
  case Nil
  with recv_empty assms show ?thesis by simp
next
  case (Cons w ws)
  with recv_first assms show ?thesis by fastforce
qed

lemma bounded_send: "length (pending c) \<le> capacity \<Longrightarrow> send v c = Some c' \<Longrightarrow>
    length (pending c') \<le> capacity"
  using send_SomeD [of v c c'] by simp

lemma bounded_recv: "length (pending c) \<le> capacity \<Longrightarrow> recv c = Some (v, c') \<Longrightarrow>
    length (pending c') \<le> capacity"
  using recv_SomeD [of c v c'] by simp

text \<open>What was received, followed by what is still buffered, is what was sent: both operations
  keep this, so no message is lost, duplicated or reordered.\<close>

lemma fifo_send: "received @ pending c = sent \<Longrightarrow> send v c = Some c' \<Longrightarrow>
    received @ pending c' = sent @ [v]"
  using send_SomeD [of v c c'] by simp

lemma fifo_recv: "received @ pending c = sent \<Longrightarrow> recv c = Some (v, c') \<Longrightarrow>
    (received @ [v]) @ pending c' = sent"
  using recv_SomeD [of c v c'] by simp

end

text \<open>The implementation: a channel of capacity one (every channel of the program is made with
  \<open>make(chan T, 1)\<close>) is the list of its buffered values.\<close>

type_synonym 'v chan = "'v list"

definition chan_capacity :: nat where
  "chan_capacity = 1"

definition chan_send :: "'v \<Rightarrow> 'v chan \<Rightarrow> 'v chan option" where
  "chan_send v c = (if length c < chan_capacity then Some (c @ [v]) else None)"

definition chan_recv :: "'v chan \<Rightarrow> ('v \<times> 'v chan) option" where
  "chan_recv c = (case c of [] \<Rightarrow> None | v # vs \<Rightarrow> Some (v, vs))"

interpretation gochan: buffered_channel chan_send chan_recv "\<lambda>c. c" chan_capacity
  by unfold_locales (auto simp: chan_send_def chan_recv_def)

lemma chan_send_Nil [simp, chan_simps]: "chan_send v [] = Some [v]"
  by (simp add: chan_send_def chan_capacity_def)

lemma chan_send_Cons [simp, chan_simps]: "chan_send v (w # ws) = None"
  by (simp add: chan_send_def chan_capacity_def)

lemma chan_recv_simps [simp, chan_simps]: "chan_recv [] = None" "chan_recv (v # vs) = Some (v, vs)"
  by (simp_all add: chan_recv_def)

lemma chan_send_eq_Some [chan_simps]: "chan_send v c = Some c' \<longleftrightarrow> c = [] \<and> c' = [v]"
  by (cases c) auto

lemma chan_recv_eq_Some [chan_simps]: "chan_recv c = Some (v, c') \<longleftrightarrow> c = v # c'"
  by (cases c) auto

end
