(* ===== verification/Go_IO.thy ===== *)
theory Go_IO
  imports Go_Prelude
begin

text \<open>
  Network connections and the buffered readers and writers of the standard library that the
  expect steps of \<open>bunny\<close> and the TCP server of \<open>bee\<close> use.

  A connection is described by what happens on it: the bytes the peer delivers and the error that
  reading gives once they are used up (end of file, a passed deadline), the bytes written so far,
  and how many more bytes can be written before a write fails (\<open>None\<close>: any number). The writer
  is \<open>bufio.Writer\<close> with its buffer of 4096 bytes and its sticky error.
\<close>

record conn =
  conn_in :: string
  conn_in_err :: go_error
  conn_out :: string
  conn_room :: "nat option"
  conn_out_err :: go_error

text \<open>\<open>Write\<close> of a connection: everything, or the part that still goes and an error.\<close>

definition conn_Write :: "string \<Rightarrow> conn \<Rightarrow> nat \<times> go_error option \<times> conn" where
  "conn_Write p c = (case conn_room c of
     None \<Rightarrow> (length p, None, c\<lparr>conn_out := conn_out c @ p\<rparr>)
   | Some k \<Rightarrow> if length p \<le> k
       then (length p, None, c\<lparr>conn_out := conn_out c @ p, conn_room := Some (k - length p)\<rparr>)
       else (k, Some (conn_out_err c), c\<lparr>conn_out := conn_out c @ take k p, conn_room := Some 0\<rparr>))"

record buffered_conn =
  bc_conn :: conn
  bc_buf :: string
  bc_err :: "go_error option"

definition buffer_size :: nat where
  "buffer_size = 4096"

text \<open>\<open>Writer.Flush\<close>.\<close>

definition bufio_Flush :: "buffered_conn \<Rightarrow> go_error option \<times> buffered_conn" where
  "bufio_Flush b = (case bc_err b of
     Some e \<Rightarrow> (Some e, b)
   | None \<Rightarrow> if bc_buf b = [] then (None, b)
       else (case conn_Write (bc_buf b) (bc_conn b) of
         (n, None, c) \<Rightarrow> (None, b\<lparr>bc_conn := c, bc_buf := []\<rparr>)
       | (n, Some e, c) \<Rightarrow>
           (Some e, b\<lparr>bc_conn := c, bc_buf := drop n (bc_buf b), bc_err := Some e\<rparr>)))"

text \<open>\<open>Writer.Write\<close>: while the data does not fit and there is no error, a full buffer is flushed
  and an empty one is bypassed. The count of bytes taken is the first result.\<close>

function bufio_Write_loop :: "string \<Rightarrow> nat \<Rightarrow> buffered_conn \<Rightarrow> nat \<times> go_error option \<times> buffered_conn"
where
  "bufio_Write_loop p nn b =
     (if length p > buffer_size - length (bc_buf b) \<and> bc_err b = None
      then (if bc_buf b = []
            then (case conn_Write p (bc_conn b) of (n, err, c) \<Rightarrow>
                    (let b = b\<lparr>bc_conn := c, bc_err := err\<rparr> in
                     if err = None then bufio_Write_loop (drop n p) (nn + n) b
                     else (nn + n, bc_err b, b)))
            else (let n = buffer_size - length (bc_buf b);
                      b = snd (bufio_Flush (b\<lparr>bc_buf := bc_buf b @ take n p\<rparr>))
                  in if bc_err b = None then bufio_Write_loop (drop n p) (nn + n) b
                     else (nn + n, bc_err b, b)))
      else if bc_err b \<noteq> None then (nn, bc_err b, b)
      else (nn + length p, None, b\<lparr>bc_buf := bc_buf b @ p\<rparr>))"
  by pat_completeness auto
termination
  by (relation "measure (\<lambda>(p, nn, b). 2 * length p + (if bc_buf b = [] then 0 else 1))")
    (auto simp: conn_Write_def bufio_Flush_def Let_def split: option.splits if_splits prod.splits)

declare bufio_Write_loop.simps [simp del]

definition bufio_Write :: "string \<Rightarrow> buffered_conn \<Rightarrow> nat \<times> go_error option \<times> buffered_conn" where
  "bufio_Write p b = bufio_Write_loop p 0 b"

text \<open>\<open>Reader.ReadString\<close>: up to and including the first delimiter, or everything with the error.\<close>

definition bufio_ReadString :: "char \<Rightarrow> buffered_conn \<Rightarrow> string \<times> go_error option \<times> buffered_conn" where
  "bufio_ReadString delim b =
     (let s = conn_in (bc_conn b); line = takeWhile (\<lambda>c. c \<noteq> delim) s; rest = dropWhile (\<lambda>c. c \<noteq> delim) s
      in case rest of
           [] \<Rightarrow> (s, Some (conn_in_err (bc_conn b)), b\<lparr>bc_conn := (bc_conn b)\<lparr>conn_in := []\<rparr>\<rparr>)
         | d # rest' \<Rightarrow> (line @ [delim], None, b\<lparr>bc_conn := (bc_conn b)\<lparr>conn_in := rest'\<rparr>\<rparr>))"

definition new_buffered_conn :: "conn \<Rightarrow> buffered_conn" where
  "new_buffered_conn c = \<lparr>bc_conn = c, bc_buf = [], bc_err = None\<rparr>"

text \<open>A connection on which the given bytes arrive and everything can be written.\<close>

definition wire :: "string \<Rightarrow> conn" where
  "wire i = \<lparr>conn_in = i, conn_in_err = ErrEOF, conn_out = [], conn_room = None, conn_out_err = ErrEOF\<rparr>"

section \<open>What reaches the wire\<close>

text \<open>Seen from the start of the connection there is a limit on the number of bytes that can ever
  be written: writing never changes it, and what is written beyond it is cut off.\<close>

definition limit :: "conn \<Rightarrow> nat option" where
  "limit c = map_option (\<lambda>k. length (conn_out c) + k) (conn_room c)"

definition fits :: "nat option \<Rightarrow> string \<Rightarrow> bool" where
  "fits l s = (case l of None \<Rightarrow> True | Some k \<Rightarrow> length s \<le> k)"

definition cut_at :: "nat option \<Rightarrow> string \<Rightarrow> string" where
  "cut_at l s = (case l of None \<Rightarrow> s | Some k \<Rightarrow> take k s)"

lemma cut_at_fits [simp]: "fits l s \<Longrightarrow> cut_at l s = s"
  by (auto simp: fits_def cut_at_def split: option.splits)

lemma cut_at_append: "\<not> fits l s \<Longrightarrow> cut_at l (s @ t) = cut_at l s"
  by (auto simp: fits_def cut_at_def split: option.splits)

lemma not_fits_append: "\<not> fits l s \<Longrightarrow> \<not> fits l (s @ t)"
  by (auto simp: fits_def split: option.splits)

lemma fits_prefix: "fits l (s @ t) \<Longrightarrow> fits l s"
  using not_fits_append by blast

lemma fits_cut [simp]: "fits l (cut_at l s)"
  by (auto simp: fits_def cut_at_def split: option.splits)

text \<open>The parts of a connection that writing leaves alone.\<close>

definition same_peer :: "conn \<Rightarrow> conn \<Rightarrow> bool" where
  "same_peer c c' \<longleftrightarrow> conn_in c' = conn_in c \<and> conn_in_err c' = conn_in_err c
     \<and> conn_out_err c' = conn_out_err c \<and> limit c' = limit c"

lemma same_peer_refl [simp]: "same_peer c c"
  by (simp add: same_peer_def)

lemma same_peer_trans: "same_peer c d \<Longrightarrow> same_peer d e \<Longrightarrow> same_peer c e"
  by (simp add: same_peer_def)

lemma conn_Write_spec:
  assumes "conn_Write p c = (n, err, c')"
  shows "same_peer c c' \<and> conn_out c' = cut_at (limit c) (conn_out c @ p)
    \<and> (if fits (limit c) (conn_out c @ p) then err = None \<and> n = length p
       else err = Some (conn_out_err c) \<and> n < length p)"
  using assms
  by (auto simp: conn_Write_def same_peer_def limit_def fits_def cut_at_def split: option.splits if_splits)

lemma bufio_Flush_spec:
  assumes "bufio_Flush b = (err, b')" and "bc_err b = None"
    and "fits (limit (bc_conn b)) (conn_out (bc_conn b))"
  shows "same_peer (bc_conn b) (bc_conn b') \<and> err = bc_err b'
    \<and> conn_out (bc_conn b') = cut_at (limit (bc_conn b)) (conn_out (bc_conn b) @ bc_buf b)
    \<and> (if fits (limit (bc_conn b)) (conn_out (bc_conn b) @ bc_buf b) then err = None \<and> bc_buf b' = []
       else err = Some (conn_out_err (bc_conn b)))"
proof (cases "bc_buf b = []")
  case False
  obtain n e c where w: "conn_Write (bc_buf b) (bc_conn b) = (n, e, c)" by (metis prod_cases3)
  from conn_Write_spec [OF w] assms(1,2) False w show ?thesis
    by (cases e) (auto simp: bufio_Flush_def split: if_splits)
qed (use assms in \<open>auto simp: bufio_Flush_def\<close>)

text \<open>What a write of \<open>p\<close> promises: all of it is taken and, with what was buffered, is on the wire
  or in the buffer; or there is an error, and the wire holds exactly what fits the limit.\<close>

definition write_post :: "string \<Rightarrow> nat \<Rightarrow> buffered_conn \<Rightarrow> nat \<times> go_error option \<times> buffered_conn
    \<Rightarrow> bool" where
  "write_post p nn b r = (case r of (n, err, b') \<Rightarrow>
     same_peer (bc_conn b) (bc_conn b') \<and> err = bc_err b'
     \<and> (case err of
          None \<Rightarrow> n = nn + length p \<and> conn_out (bc_conn b') @ bc_buf b' = conn_out (bc_conn b) @ bc_buf b @ p
            \<and> fits (limit (bc_conn b)) (conn_out (bc_conn b'))
        | Some e \<Rightarrow> e = conn_out_err (bc_conn b) \<and> n < nn + length p
            \<and> \<not> fits (limit (bc_conn b)) (conn_out (bc_conn b) @ bc_buf b @ p)
            \<and> conn_out (bc_conn b') = cut_at (limit (bc_conn b)) (conn_out (bc_conn b) @ bc_buf b @ p)))"

lemma write_post_bypass:
  assumes w: "conn_Write p (bc_conn b) = (m, e, c)" and "bc_buf b = []" and "bc_err b = None"
  shows "write_post p nn b (nn + m, e, b\<lparr>bc_conn := c, bc_err := e\<rparr>)"
  using conn_Write_spec [OF w] assms(2,3)
  by (auto simp: write_post_def split: if_splits)

lemma bypass_taken: "conn_Write p c = (m, None, c') \<Longrightarrow> m = length p"
  by (auto dest!: conn_Write_spec split: if_splits)

text \<open>Filling the buffer with the first \<open>k\<close> bytes and flushing it, then writing the rest.\<close>

lemma write_post_flush:
  assumes fl: "bufio_Flush (b\<lparr>bc_buf := bc_buf b @ take k p\<rparr>) = (e, b1)"
    and "bc_err b = None" and "fits (limit (bc_conn b)) (conn_out (bc_conn b))" and "k < length p"
  shows "bc_err b1 \<noteq> None \<Longrightarrow> write_post p nn b (nn + k, bc_err b1, b1)"
    and "bc_err b1 = None \<Longrightarrow> fits (limit (bc_conn b1)) (conn_out (bc_conn b1))"
    and "bc_err b1 = None \<Longrightarrow> write_post (drop k p) (nn + k) b1 r \<Longrightarrow> write_post p nn b r"
proof -
  let ?s = "conn_out (bc_conn b) @ bc_buf b @ take k p"
  have spec: "same_peer (bc_conn b) (bc_conn b1)" "conn_out (bc_conn b1) = cut_at (limit (bc_conn b)) ?s"
    and fit: "if fits (limit (bc_conn b)) ?s then bc_err b1 = None \<and> bc_buf b1 = []
      else bc_err b1 = Some (conn_out_err (bc_conn b))"
    using bufio_Flush_spec [OF fl] assms(2,3) by auto
  have p: "?s @ drop k p = conn_out (bc_conn b) @ bc_buf b @ p" by simp
  show "write_post p nn b (nn + k, bc_err b1, b1)" if "bc_err b1 \<noteq> None"
  proof -
    from that fit have no: "\<not> fits (limit (bc_conn b)) ?s" by (auto split: if_splits)
    with spec fit assms(4) not_fits_append [OF no, of "drop k p"] cut_at_append [OF no, of "drop k p"]
    show ?thesis unfolding p by (simp add: write_post_def)
  qed
  assume ok: "bc_err b1 = None"
  with fit have fits: "fits (limit (bc_conn b)) ?s" and buf: "bc_buf b1 = []" by (auto split: if_splits)
  show "fits (limit (bc_conn b1)) (conn_out (bc_conn b1))"
    using spec by (simp add: same_peer_def)
  have lim: "limit (bc_conn b1) = limit (bc_conn b)" "conn_out_err (bc_conn b1) = conn_out_err (bc_conn b)"
    and out: "conn_out (bc_conn b1) = ?s"
    using spec fits by (simp_all add: same_peer_def)
  show "write_post (drop k p) (nn + k) b1 r \<Longrightarrow> write_post p nn b r"
    using assms(4) same_peer_trans [OF spec(1)] lim out buf
    by (auto simp: write_post_def split: option.splits prod.splits)
qed

lemma bufio_Write_loop_spec:
  assumes "bc_err b = None" and "fits (limit (bc_conn b)) (conn_out (bc_conn b))"
  shows "write_post p nn b (bufio_Write_loop p nn b)"
  using assms
proof (induction p nn b rule: bufio_Write_loop.induct)
  case (1 p nn b)
  let ?k = "buffer_size - length (bc_buf b)"
  show ?case
  proof (cases "length p > ?k")
    case False
    with "1.prems" show ?thesis
      by (simp add: bufio_Write_loop.simps [of p nn b] write_post_def)
  next
    case fill: True
    show ?thesis
    proof (cases "bc_buf b = []")
      case True
      obtain m e c where w: "conn_Write p (bc_conn b) = (m, e, c)" by (metis prod_cases3)
      let ?b = "b\<lparr>bc_conn := c, bc_err := e\<rparr>"
      have "bufio_Write_loop p nn b = (nn + m, e, ?b)"
      proof (cases e)
        case None
        with w have "m = length p" by (simp add: bypass_taken)
        moreover have "bufio_Write_loop [] (nn + length p) ?b = (nn + length p, None, ?b)"
          using True None by (simp add: bufio_Write_loop.simps [of "[]"])
        ultimately show ?thesis
          using fill True "1.prems" w None by (simp add: bufio_Write_loop.simps [of p nn b])
      qed (use fill True "1.prems" w in \<open>simp add: bufio_Write_loop.simps [of p nn b]\<close>)
      then show ?thesis using write_post_bypass [OF w True] "1.prems"(1) by simp
    next
      case False
      obtain e b1 where fl: "bufio_Flush (b\<lparr>bc_buf := bc_buf b @ take ?k p\<rparr>) = (e, b1)" by fastforce
      have eq: "bufio_Write_loop p nn b = (if bc_err b1 = None then bufio_Write_loop (drop ?k p) (nn + ?k) b1
          else (nn + ?k, bc_err b1, b1))"
        using fill False "1.prems"(1) fl by (simp add: bufio_Write_loop.simps [of p nn b] Let_def)
      note flush = write_post_flush [OF fl "1.prems" fill]
      have "write_post (drop ?k p) (nn + ?k) b1 (bufio_Write_loop (drop ?k p) (nn + ?k) b1)"
        if "bc_err b1 = None"
        using "1.IH"(2) [OF _ False refl] fill "1.prems"(1) fl flush(2) that by simp
      with flush show ?thesis by (simp add: eq)
    qed
  qed
qed

text \<open>An error of the writer is sticky: nothing more is taken.\<close>

lemma bufio_Write_sticky: "bc_err b = Some e \<Longrightarrow> bufio_Write p b = (0, Some e, b)"
  by (simp add: bufio_Write_def bufio_Write_loop.simps [of p 0 b])

section \<open>Writing a whole text\<close>

text \<open>The loop of \<open>SendStep.do\<close> and \<open>tcpWrite\<close>: \<open>fmt.Fprint\<close> hands the rest of the text to the writer
  until all of it is taken; taking nothing ends the loop. The loops differ in what they do with
  an error after part of the text was taken (the flag \<open>strict\<close>: return it at once).\<close>

function write_all :: "bool \<Rightarrow> string \<Rightarrow> buffered_conn \<Rightarrow> bool \<times> go_error option \<times> buffered_conn" where
  "write_all strict rest b =
     (if rest = [] then (True, None, b)
      else (case bufio_Write rest b of (n, err, b') \<Rightarrow>
        if n = 0 then (False, err, b')
        else if strict \<and> err \<noteq> None then (False, err, b')
        else write_all strict (drop n rest) b'))"
  by pat_completeness auto
termination
  by (relation "measure (\<lambda>(strict, rest, b). length rest)") auto

declare write_all.simps [simp del]

text \<open>Writing the text and flushing the writer.\<close>

definition write_and_flush :: "bool \<Rightarrow> string \<Rightarrow> buffered_conn
    \<Rightarrow> bool \<times> go_error option \<times> buffered_conn" where
  "write_and_flush strict text b =
     (case write_all strict text b of
        (False, err, b) \<Rightarrow> (False, err, b)
      | (True, _, b) \<Rightarrow> (case bufio_Flush b of
          (Some err, b) \<Rightarrow> (False, Some err, b)
        | (None, b) \<Rightarrow> (True, None, b)))"

text \<open>Between two operations nothing is buffered, there is no error, and the wire is within its
  limit.\<close>

definition quiet :: "buffered_conn \<Rightarrow> bool" where
  "quiet b \<longleftrightarrow> bc_buf b = [] \<and> bc_err b = None \<and> fits (limit (bc_conn b)) (conn_out (bc_conn b))"

lemma write_all_Nil [simp]: "write_all strict [] b = (True, None, b)"
  by (simp add: write_all.simps)

lemma write_all_spec:
  assumes "bc_err b = None" and "fits (limit (bc_conn b)) (conn_out (bc_conn b))"
  shows "\<exists>ok err b'. write_all strict msg b = (ok, err, b')
    \<and> write_post msg 0 b (if ok then length msg else 0, err, b')
    \<and> (ok \<longleftrightarrow> err = None)"
proof (cases "msg = []")
  case False
  obtain n err b' where w: "bufio_Write msg b = (n, err, b')" by (metis prod_cases3)
  have post: "write_post msg 0 b (n, err, b')"
    using bufio_Write_loop_spec [OF assms, of msg 0] w by (simp add: bufio_Write_def)
  show ?thesis
  proof (cases err)
    case None
    with post have "n = length msg" by (simp add: write_post_def)
    with None False w post show ?thesis by (auto simp: write_all.simps [of strict msg b])
  next
    case (Some e)
    with post have sticky: "bc_err b' = Some e" and "n < length msg" by (auto simp: write_post_def)
    then have "write_all strict (drop n msg) b' = (False, Some e, b')"
      by (simp add: write_all.simps [of strict "drop n msg" b'] bufio_Write_sticky [OF sticky])
    with Some False w have "write_all strict msg b = (False, Some e, b')"
      by (cases strict) (simp_all add: write_all.simps [where rest = msg])
    moreover have "write_post msg 0 b (0, Some e, b')"
      using post Some False by (auto simp: write_post_def)
    ultimately show ?thesis by auto
  qed
qed (use assms in \<open>auto simp: write_post_def\<close>)

lemma write_and_flush_spec:
  fixes msg :: string
  assumes "quiet b"
  defines "l \<equiv> limit (bc_conn b)" and "s \<equiv> conn_out (bc_conn b) @ msg"
  shows "\<exists>b'. write_and_flush strict msg b =
      (if fits l s then (True, None, b') else (False, Some (conn_out_err (bc_conn b)), b'))
    \<and> same_peer (bc_conn b) (bc_conn b') \<and> conn_out (bc_conn b') = cut_at l s \<and> (fits l s \<longrightarrow> quiet b')"
proof -
  from assms(1) have q: "bc_buf b = []" "bc_err b = None" "fits l (conn_out (bc_conn b))"
    by (simp_all add: quiet_def l_def)
  obtain ok err b1 where w: "write_all strict msg b = (ok, err, b1)"
    and post: "write_post msg 0 b (if ok then length msg else 0, err, b1)" and ok: "ok \<longleftrightarrow> err = None"
    using write_all_spec [of b strict msg] q by (auto simp: l_def)
  show ?thesis
  proof (cases ok)
    case False
    with w ok post q show ?thesis
      by (auto simp: write_and_flush_def write_post_def l_def s_def)
  next
    case True
    with ok post q have b1: "bc_err b1 = None" "same_peer (bc_conn b) (bc_conn b1)"
      "conn_out (bc_conn b1) @ bc_buf b1 = s" "fits l (conn_out (bc_conn b1))"
      by (auto simp: write_post_def l_def s_def)
    then have lim: "limit (bc_conn b1) = l" "conn_out_err (bc_conn b1) = conn_out_err (bc_conn b)"
      by (simp_all add: same_peer_def l_def)
    obtain e b2 where fl: "bufio_Flush b1 = (e, b2)" by fastforce
    from bufio_Flush_spec [OF fl b1(1)] b1 lim have b2: "same_peer (bc_conn b1) (bc_conn b2)"
      "e = bc_err b2" "conn_out (bc_conn b2) = cut_at l s"
      "if fits l s then e = None \<and> bc_buf b2 = [] else e = Some (conn_out_err (bc_conn b))"
      by auto
    moreover have "same_peer (bc_conn b) (bc_conn b2)" using same_peer_trans b1(2) b2(1) by blast
    ultimately show ?thesis using True w fl
      by (cases "bc_err b2")
        (auto simp: write_and_flush_def quiet_def same_peer_def l_def split: if_splits)
  qed
qed

text \<open>Reading a line keeps everything on the writing side.\<close>

lemma bufio_ReadString_eq:
  "bufio_ReadString delim b =
     (let s = conn_in (bc_conn b); line = takeWhile (\<lambda>c. c \<noteq> delim) s;
          after = (\<lambda>s'. b\<lparr>bc_conn := (bc_conn b)\<lparr>conn_in := s'\<rparr>\<rparr>)
      in if delim \<in> set s then (line @ [delim], None, after (drop (Suc (length line)) s))
         else (s, Some (conn_in_err (bc_conn b)), after []))"
proof -
  have "dropWhile (\<lambda>c. c \<noteq> delim) s = delim # drop (Suc (length (takeWhile (\<lambda>c. c \<noteq> delim) s))) s"
    if "delim \<in> set s" for s
    using that by (induction s) auto
  moreover have "dropWhile (\<lambda>c. c \<noteq> delim) s = []" if "delim \<notin> set s" for s
    using that by (induction s) auto
  ultimately show ?thesis
    by (cases "delim \<in> set (conn_in (bc_conn b))") (simp_all add: bufio_ReadString_def Let_def del: dropWhile_eq_Nil_conv)
qed

lemma quiet_conn_in [simp]: "quiet (b\<lparr>bc_conn := (bc_conn b)\<lparr>conn_in := s\<rparr>\<rparr>) = quiet b"
  by (simp add: quiet_def limit_def)

end
