(* ===== verification/Go_Duration.thy ===== *)
theory Go_Duration
  imports Go_Prelude
begin

text \<open>
  \<open>time.ParseDuration\<close> of the standard library, which reads the times of the health queries
  (\<open>5s\<close>, \<open>-5s\<close>, \<open>1m30s\<close>).

  The function computes with unsigned 64-bit integers and checks for overflow as it goes; the model
  uses natural numbers and reduces modulo \<open>2 ^ 64\<close> where a sum can exceed the width. The value of a
  decimal fraction is computed in floating point: it is the argument \<open>fr\<close> (of the digits after
  the point, the unit and the number of digits). Error texts are given without the quoted input.
\<close>

definition is_digit :: "char \<Rightarrow> bool" where
  "is_digit c \<longleftrightarrow> 48 \<le> (of_char c :: nat) \<and> (of_char c :: nat) \<le> 57"

definition number_char :: "char \<Rightarrow> bool" where
  "number_char c \<longleftrightarrow> c = CHR ''.'' \<or> is_digit c"

definition two63 :: nat where
  "two63 = 9223372036854775808"

fun leadingInt :: "nat \<Rightarrow> string \<Rightarrow> (nat \<times> string) option" where
  "leadingInt x [] = Some (x, [])"
| "leadingInt x (c # s) =
     (if \<not> is_digit c then Some (x, c # s)
      else if x > two63 div 10 then None
      else let y = x * 10 + digit_val c in if y > two63 then None else leadingInt y s)"

fun leadingFraction :: "nat \<Rightarrow> nat \<Rightarrow> bool \<Rightarrow> string \<Rightarrow> nat \<times> nat \<times> string" where
  "leadingFraction x k overflow [] = (x, k, [])"
| "leadingFraction x k overflow (c # s) =
     (if \<not> is_digit c then (x, k, c # s)
      else if overflow then leadingFraction x k True s
      else if x > (two63 - 1) div 10 then leadingFraction x k True s
      else let y = x * 10 + digit_val c in
        if y > two63 then leadingFraction x k True s else leadingFraction y (k + 1) False s)"

definition unitMap :: "string \<Rightarrow> nat option" where
  "unitMap = map_of [(''ns'', 1), (''us'', 1000), ([CHR 0xC2, CHR 0xB5, CHR ''s''], 1000),
     ([CHR 0xCE, CHR 0xBC, CHR ''s''], 1000), (''ms'', 1000000), (''s'', 1000000000),
     (''m'', 60000000000), (''h'', 3600000000000)]"

definition invalid_duration :: go_error where
  "invalid_duration = ErrorString ''time: invalid duration ''"

type_synonym fraction_fn = "nat \<Rightarrow> nat \<Rightarrow> nat \<Rightarrow> nat"

text \<open>The part after a decimal point, if there is one, and whether it has digits.\<close>

definition fraction_part :: "string \<Rightarrow> nat \<times> nat \<times> string \<times> bool" where
  "fraction_part s1 =
     (if s1 \<noteq> [] \<and> hd s1 = CHR ''.''
      then (case leadingFraction 0 0 False (tl s1) of (f, k, s2) \<Rightarrow>
              (f, k, s2, length s2 \<noteq> length (tl s1)))
      else (0, 0, s1, False))"

text \<open>One round of the loop: a number and its unit. The result is the value and the rest.\<close>

definition parse_term :: "fraction_fn \<Rightarrow> string \<Rightarrow> go_error + nat \<times> string" where
  "parse_term fr s =
     (if \<not> number_char (hd s) then Inl invalid_duration
      else case leadingInt 0 s of
        None \<Rightarrow> Inl invalid_duration
      | Some (v, s1) \<Rightarrow>
          (let pre = (length s1 \<noteq> length s);
               (f, k, s2, post) = fraction_part s1
           in if \<not> pre \<and> \<not> post then Inl invalid_duration
              else let u = takeWhile (\<lambda>c. \<not> number_char c) s2; s3 = drop (length u) s2 in
                if u = [] then Inl (ErrorString ''time: missing unit in duration '')
                else case unitMap u of
                  None \<Rightarrow> Inl (ErrorString ''time: unknown unit '')
                | Some unit \<Rightarrow>
                    if v > two63 div unit then Inl invalid_duration
                    else if f > 0
                      then (let w = (v * unit + fr f unit k) mod 2 ^ 64
                            in if w > two63 then Inl invalid_duration else Inr (w, s3))
                      else Inr (v * unit, s3)))"

lemma leadingInt_length: "leadingInt x s = Some (v, s1) \<Longrightarrow> length s1 \<le> length s"
proof (induction x s rule: leadingInt.induct)
  case (2 x c s)
  then show ?case by (auto simp: Let_def split: if_splits)
qed simp

lemma leadingFraction_length: "leadingFraction x k overflow s = (f, k', s1) \<Longrightarrow> length s1 \<le> length s"
proof (induction x k overflow s rule: leadingFraction.induct)
  case (2 x k overflow c s)
  then show ?case by (auto simp: Let_def split: if_splits)
qed simp

lemma fraction_part_length:
  assumes "fraction_part s1 = (f, k, s2, post)"
  shows "length s2 \<le> length s1"
proof -
  obtain f' k' s' where lf: "leadingFraction 0 0 False (tl s1) = (f', k', s')" by (metis prod_cases3)
  from leadingFraction_length [OF lf] assms lf show ?thesis
    by (auto simp: fraction_part_def split: if_splits)
qed

lemma parse_term_length:
  assumes "parse_term fr s = Inr (v, rest)" and "s \<noteq> []"
  shows "length rest < length s"
proof -
  obtain v0 s1 where li: "leadingInt 0 s = Some (v0, s1)"
    using assms(1) by (auto simp: parse_term_def split: if_splits option.splits)
  obtain f k s2 post where fp: "fraction_part s1 = (f, k, s2, post)" by (metis prod_cases4)
  have "length s2 \<le> length s"
    using leadingInt_length [OF li] fraction_part_length [OF fp] by simp
  moreover have "rest = drop (length (takeWhile (\<lambda>c. \<not> number_char c) s2)) s2"
    and "takeWhile (\<lambda>c. \<not> number_char c) s2 \<noteq> []"
    using assms(1) li fp by (auto simp: parse_term_def Let_def split: if_splits option.splits)
  ultimately show ?thesis using assms(2) by (cases s2) auto
qed

function parse_terms :: "fraction_fn \<Rightarrow> string \<Rightarrow> nat \<Rightarrow> go_error + nat" where
  "parse_terms fr s d =
     (if s = [] then Inr d
      else case parse_term fr s of
        Inl err \<Rightarrow> Inl err
      | Inr (v, rest) \<Rightarrow>
          (let d' = (d + v) mod 2 ^ 64
           in if d' > two63 then Inl invalid_duration else parse_terms fr rest d'))"
  by pat_completeness auto
termination
  by (relation "measure (\<lambda>(fr, s, d). length s)") (auto dest: parse_term_length)

declare parse_terms.simps [simp del]

definition ParseDuration :: "fraction_fn \<Rightarrow> string \<Rightarrow> go_error + duration" where
  "ParseDuration fr orig =
     (let (neg, s) = (if orig \<noteq> [] \<and> (hd orig = CHR ''-'' \<or> hd orig = CHR ''+'')
                      then (hd orig = CHR ''-'', tl orig) else (False, orig))
      in if s = ''0'' then Inr 0
         else if s = [] then Inl invalid_duration
         else case parse_terms fr s 0 of
           Inl err \<Rightarrow> Inl err
         | Inr d \<Rightarrow> if neg then Inr (- of_nat d)
             else if d > two63 - 1 then Inl invalid_duration else Inr (of_nat d))"

section \<open>Reading a number and a unit\<close>

lemma digit_char_is_digit: "n < 10 \<Longrightarrow> is_digit (digit_char n)"
  by (simp add: is_digit_def digit_char_def)

lemma show_nat_digits: "\<forall>c \<in> set (show_nat n). is_digit c"
proof (induction n rule: show_nat.induct)
  case (1 n)
  then show ?case by (subst show_nat.simps) (auto simp: digit_char_is_digit)
qed

lemma show_nat_nonempty: "show_nat n \<noteq> []"
  by (subst show_nat.simps) simp

lemma fold_digits_mono: "x \<le> fold (\<lambda>c n. 10 * n + digit_val c) ds (x :: nat)"
proof (induction ds arbitrary: x)
  case (Cons d ds)
  have "x \<le> 10 * x + digit_val d" by simp
  also have "\<dots> \<le> fold (\<lambda>c n. 10 * n + digit_val c) ds (10 * x + digit_val d)" by (rule Cons.IH)
  finally show ?case by simp
qed simp

lemma leadingInt_digits:
  assumes "\<forall>c \<in> set ds. is_digit c" and "rest = [] \<or> \<not> is_digit (hd rest)"
    and "fold (\<lambda>c n. 10 * n + digit_val c) ds x \<le> two63"
  shows "leadingInt x (ds @ rest) = Some (fold (\<lambda>c n. 10 * n + digit_val c) ds x, rest)"
  using assms(1,3)
proof (induction ds arbitrary: x)
  case Nil
  with assms(2) show ?case by (cases rest) auto
next
  case (Cons d ds)
  then have le: "10 * x + digit_val d \<le> two63"
    using fold_digits_mono [of "10 * x + digit_val d" ds] by simp
  then have "x \<le> two63 div 10" by (simp add: two63_def)
  with Cons le show ?case by (simp add: mult.commute)
qed

lemma unitMap_cases:
  assumes "unitMap u = Some unit"
  shows "u \<noteq> [] \<and> (\<forall>c \<in> set u. \<not> number_char c) \<and> 0 < unit"
  using assms by (auto simp: unitMap_def number_char_def is_digit_def split: if_splits)

lemma parse_number_unit:
  assumes "unitMap u = Some unit" and "n * unit \<le> two63"
  shows "parse_terms fr (show_nat n @ u) 0 = Inr (n * unit)"
proof -
  from unitMap_cases [OF assms(1)] have u: "u \<noteq> []" "\<forall>c \<in> set u. \<not> number_char c" "0 < unit"
    by auto
  note tw = takeWhile_eq_all_conv [THEN iffD2, OF u(2)]
  from u have "n \<le> two63 div unit" using assms(2) by (simp add: less_eq_div_iff_mult_less_eq)
  moreover have "n \<le> two63" using assms(2) u(3) by (metis One_nat_def Suc_leI le_trans mult.right_neutral mult_le_mono2)
  moreover have hd: "number_char (hd (show_nat n @ u))"
    using show_nat_digits [of n] show_nat_nonempty [of n] by (cases "show_nat n") (auto simp: number_char_def)
  moreover have "\<not> is_digit (hd u)" "hd u \<noteq> CHR ''.''"
    using u(1,2) by (cases u; simp add: number_char_def)+
  ultimately have "parse_term fr (show_nat n @ u) = Inr (n * unit, [])"
    using leadingInt_digits [OF show_nat_digits, of u n 0] read_show_nat [of n] assms(1) u(1) show_nat_nonempty [of n]
    by (auto simp: parse_term_def fraction_part_def read_nat_def Let_def tw simp del: takeWhile_eq_all_conv)
  with assms(2) show_nat_nonempty [of n] show ?thesis
    by (simp add: parse_terms.simps [of fr "show_nat n @ u"] parse_terms.simps [of fr "[]"] two63_def)
qed

lemma ParseDuration_number:
  assumes "unitMap u = Some unit" and "n * unit < two63"
  shows "ParseDuration fr (show_nat n @ u) = Inr (of_nat (n * unit))"
    and "ParseDuration fr (CHR ''-'' # show_nat n @ u) = Inr (- of_nat (n * unit))"
proof -
  obtain d ds where ds: "show_nat n = d # ds" using show_nat_nonempty [of n] by (cases "show_nat n") auto
  then have "is_digit d" using show_nat_digits [of n] by simp
  then have "d \<noteq> CHR ''-''" "d \<noteq> CHR ''+''" by (auto simp: is_digit_def)
  moreover have "show_nat n @ u \<noteq> ''0''" using ds unitMap_cases [OF assms(1)] by auto
  moreover have "parse_terms fr (show_nat n @ u) 0 = Inr (n * unit)"
    using assms by (intro parse_number_unit) auto
  ultimately show "ParseDuration fr (show_nat n @ u) = Inr (of_nat (n * unit))"
    and "ParseDuration fr (CHR ''-'' # show_nat n @ u) = Inr (- of_nat (n * unit))"
    using assms(2) ds by (auto simp: ParseDuration_def)
qed

end
