(* ===== verification/Go_HTTP.thy ===== *)
theory Go_HTTP
  imports Go_Prelude
begin

text \<open>
  The part of \<open>net/http\<close> that the HTTP servers of \<open>bunny\<close> and \<open>bee\<close> rely on: the request router
  \<open>ServeMux\<close> of Go 1.22 and the response writer.

  The router is modelled for patterns that start with a slash and have neither wildcards nor escapes
  (no opening brace, no percent sign), and for request paths without escapes; a pattern that ends in a
  slash stands for the whole subtree below it. In a pattern with a space or a tab the part before it is read
  as a method, and one that starts with a slash is not a method.
\<close>

section \<open>Responses\<close>

record http_response =
  rsp_code :: "go_int option"
  rsp_body :: string

definition empty_response :: http_response where
  "empty_response = \<lparr>rsp_code = None, rsp_body = []\<rparr>"

definition WriteHeader :: "go_int \<Rightarrow> http_response \<Rightarrow> http_response" where
  "WriteHeader code w = (case rsp_code w of None \<Rightarrow> w\<lparr>rsp_code := Some code\<rparr> | Some _ \<Rightarrow> w)"

text \<open>\<open>fmt.Fprintln(w, s)\<close>.\<close>

definition Fprintln :: "string \<Rightarrow> http_response \<Rightarrow> http_response" where
  "Fprintln s w = (WriteHeader 200 w)\<lparr>rsp_body := rsp_body w @ s @ [CHR 0x0A]\<rparr>"

text \<open>What is sent when the handler returns: a handler that wrote nothing has answered 200.\<close>

definition finish_response :: "http_response \<Rightarrow> go_int \<times> string" where
  "finish_response w = (case rsp_code w of None \<Rightarrow> 200 | Some c \<Rightarrow> c, rsp_body w)"

section \<open>The router\<close>

datatype 'h routed = Handler 'h | RedirectTo string | NotFound

text \<open>
  The interface of the router. Registering a pattern that cannot be parsed, or one that is registered,
  panics; a request for a clean path that is registered reaches its handler, whatever else is registered.
\<close>

locale router =
  fixes handle :: "string \<Rightarrow> 'h \<Rightarrow> 'm \<Rightarrow> 'm go"
    and route :: "'m \<Rightarrow> string \<Rightarrow> 'h routed"
    and patterns :: "'m \<Rightarrow> string list"
    and valid :: "string \<Rightarrow> bool"
    and clean :: "string \<Rightarrow> bool"
    and wf :: "'m \<Rightarrow> bool"
  assumes handle_new: "valid p \<Longrightarrow> p \<notin> set (patterns m)
      \<Longrightarrow> \<exists>m'. handle p h m = Inr m' \<and> patterns m' = patterns m @ [p]"
    and handle_dup: "valid p \<Longrightarrow> p \<in> set (patterns m) \<Longrightarrow> handle p h m = Inl (MultipleRegistrations p)"
    and handle_invalid: "\<not> valid p \<Longrightarrow> handle p h m = Inl (InvalidPattern p)"
    and handle_wf: "wf m \<Longrightarrow> handle p h m = Inr m' \<Longrightarrow> wf m'"
    and route_exact: "wf m \<Longrightarrow> handle p h m = Inr m' \<Longrightarrow> clean p \<Longrightarrow> route m' p = Handler h"
    and route_keep: "wf m \<Longrightarrow> handle p h m = Inr m' \<Longrightarrow> q \<in> set (patterns m) \<Longrightarrow> clean q
      \<Longrightarrow> route m' q = route m q"
begin

definition handle_all :: "(string \<times> 'h) list \<Rightarrow> 'm \<Rightarrow> 'm go" where
  "handle_all phs m = go_for (\<lambda>(p, h). handle p h) phs m"

lemma handle_all_simps [simp]:
  "handle_all [] m = Inr m"
  "handle_all ((p, h) # phs) m = go_bind (handle p h m) (handle_all phs)"
  by (simp_all add: handle_all_def [abs_def])

lemma handle_all_total:
  assumes "distinct (patterns m)"
  shows "if distinct (patterns m @ map fst phs) \<and> (\<forall>p \<in> set (map fst phs). valid p)
    then \<exists>m'. handle_all phs m = Inr m' \<and> patterns m' = patterns m @ map fst phs
    else \<exists>p \<in> set (map fst phs). handle_all phs m = Inl (MultipleRegistrations p) \<and> \<not> distinct (patterns m @ map fst phs)
      \<or> handle_all phs m = Inl (InvalidPattern p) \<and> \<not> valid p"
  using assms
proof (induction phs arbitrary: m)
  case (Cons ph phs)
  obtain p h where ph: "ph = (p, h)" by fastforce
  show ?case
  proof (cases "valid p \<and> p \<notin> set (patterns m)")
    case True
    with handle_new [of p m h] obtain m1 where
      m1: "handle p h m = Inr m1" "patterns m1 = patterns m @ [p]" by blast
    with Cons.IH [of m1] Cons.prems True ph show ?thesis by (auto split: if_splits)
  next
    case False
    with handle_dup [of p m h] handle_invalid [of p h m] ph show ?thesis by (cases "valid p") auto
  qed
qed (use assms in simp)

lemma handle_InrD: "handle p h m = Inr m' \<Longrightarrow> p \<notin> set (patterns m) \<and> patterns m' = patterns m @ [p]"
  using handle_dup [of p m h] handle_new [of p m h] handle_invalid [of p h m]
  by (cases "valid p"; cases "p \<in> set (patterns m)") auto

lemma handle_all_keep:
  assumes "handle_all phs m = Inr m'" and "wf m" and "q \<in> set (patterns m)" and "clean q"
  shows "route m' q = route m q"
  using assms
proof (induction phs arbitrary: m)
  case (Cons ph phs)
  obtain p h where ph: "ph = (p, h)" by fastforce
  with Cons.prems(1) obtain m1 where 1: "handle p h m = Inr m1" and 2: "handle_all phs m1 = Inr m'"
    by (auto simp: go_bind_eq_Inr)
  have "route m' q = route m1 q"
    using Cons.IH [OF 2 handle_wf [OF Cons.prems(2) 1]] handle_InrD [OF 1] Cons.prems(3,4) by simp
  also have "\<dots> = route m q" using route_keep [OF Cons.prems(2) 1 Cons.prems(3,4)] .
  finally show ?case .
qed simp

lemma route_registered:
  assumes "handle_all phs m = Inr m'" and "wf m" and "(q, h) \<in> set phs" and "clean q"
  shows "route m' q = Handler h"
  using assms
proof (induction phs arbitrary: m)
  case (Cons ph phs)
  obtain p k where ph: "ph = (p, k)" by fastforce
  with Cons.prems(1) obtain m1 where 1: "handle p k m = Inr m1" and 2: "handle_all phs m1 = Inr m'"
    by (auto simp: go_bind_eq_Inr)
  note wf1 = handle_wf [OF Cons.prems(2) 1]
  show ?case
  proof (cases "(q, h) = (p, k)")
    case True
    with route_exact [OF Cons.prems(2) 1] handle_all_keep [OF 2 wf1] handle_InrD [OF 1] Cons.prems(4)
    show ?thesis by simp
  next
    case False
    with Cons.IH [OF 2 wf1] Cons.prems(3,4) ph show ?thesis by auto
  qed
qed simp

end

section \<open>The model of ServeMux\<close>

type_synonym 'h mux = "(string \<times> 'h) list"

definition valid_pattern :: "string \<Rightarrow> bool" where
  "valid_pattern p \<longleftrightarrow> CHR '' '' \<notin> set p \<and> CHR 0x09 \<notin> set p"

definition mux_Handle :: "string \<Rightarrow> 'h \<Rightarrow> 'h mux \<Rightarrow> 'h mux go" where
  "mux_Handle p h m = (if \<not> valid_pattern p then Inl (InvalidPattern p)
     else if p \<in> fst ` set m then Inl (MultipleRegistrations p) else Inr (m @ [(p, h)]))"

text \<open>The patterns to which the model is limited.\<close>

definition plain_pattern :: "string \<Rightarrow> bool" where
  "plain_pattern p \<longleftrightarrow> starts_with ''/'' p \<and> CHR ''{'' \<notin> set p \<and> CHR 0x25 \<notin> set p"

definition ends_slash :: "string \<Rightarrow> bool" where
  "ends_slash p \<longleftrightarrow> p \<noteq> [] \<and> last p = CHR ''/''"

definition pattern_matches :: "string \<Rightarrow> string \<Rightarrow> bool" where
  "pattern_matches p path \<longleftrightarrow> p = path \<or> ends_slash p \<and> starts_with p path"

text \<open>The most specific pattern that matches: the longest one.\<close>

definition mux_match :: "'h mux \<Rightarrow> string \<Rightarrow> (string \<times> 'h) option" where
  "mux_match m path = fold (\<lambda>(p, h) best.
     if pattern_matches p path \<and> (case best of None \<Rightarrow> True | Some (q, _) \<Rightarrow> length q < length p)
     then Some (p, h) else best) m None"

definition exact_match :: "(string \<times> 'h) option \<Rightarrow> string \<Rightarrow> bool" where
  "exact_match n path = (case n of None \<Rightarrow> False | Some (p, h) \<Rightarrow> p = path)"

definition cleanPath :: "string \<Rightarrow> string" where
  "cleanPath p =
     (if p = [] then ''/''
      else let p = (if starts_with ''/'' p then p else CHR ''/'' # p); np = path_Clean p
        in if ends_slash p \<and> np \<noteq> ''/'' then np @ ''/'' else np)"

definition mux_route :: "'h mux \<Rightarrow> string \<Rightarrow> 'h routed" where
  "mux_route m escapedPath =
     (let path = cleanPath escapedPath; n = mux_match m path
      in if \<not> exact_match n path \<and> \<not> ends_slash path \<and> exact_match (mux_match m (path @ ''/'')) (path @ ''/'')
         then RedirectTo (path @ ''/'')
         else if path \<noteq> escapedPath then RedirectTo path
         else case n of None \<Rightarrow> NotFound | Some (p, h) \<Rightarrow> Handler h)"

definition mux_patterns :: "'h mux \<Rightarrow> string list" where
  "mux_patterns m = map fst m"

definition clean_path :: "string \<Rightarrow> bool" where
  "clean_path p \<longleftrightarrow> cleanPath p = p"

lemma mux_match_Nil [simp]: "mux_match [] path = None"
  by (simp add: mux_match_def)

lemma mux_match_snoc:
  "mux_match (m @ [(p, h)]) path =
     (if pattern_matches p path \<and> (case mux_match m path of None \<Rightarrow> True | Some (q, _) \<Rightarrow> length q < length p)
      then Some (p, h) else mux_match m path)"
  by (simp add: mux_match_def)

lemma pattern_matches_length: "pattern_matches p path \<Longrightarrow> p = path \<or> length p < length path"
  by (auto simp: pattern_matches_def starts_with_def)

lemma mux_match_SomeD: "mux_match m path = Some (q, h) \<Longrightarrow> (q, h) \<in> set m \<and> pattern_matches q path"
proof (induction m rule: rev_induct)
  case (snoc ph m)
  then show ?case by (cases ph) (auto simp: mux_match_snoc split: if_splits)
qed simp

lemma mux_match_exact:
  assumes "distinct (map fst m)" and "(path, h) \<in> set m"
  shows "mux_match m path = Some (path, h)"
  using assms
proof (induction m rule: rev_induct)
  case (snoc ph m)
  obtain p k where ph: "ph = (p, k)" by fastforce
  show ?case
  proof (cases "p = path")
    case True
    have "length q < length path" if "mux_match m path = Some (q, h')" for q h'
      using mux_match_SomeD [OF that] pattern_matches_length [of q path] snoc.prems(1) True ph by (force simp: rev_image_eqI)
    with True ph snoc.prems show ?thesis
      by (force simp: mux_match_snoc pattern_matches_def split: option.splits)
  next
    case False
    with snoc.prems ph have "mux_match m path = Some (path, h)" by (intro snoc.IH) auto
    with False ph pattern_matches_length [of p path] show ?thesis by (auto simp: mux_match_snoc)
  qed
qed simp

lemma mux_route_exact:
  assumes "distinct (map fst m)" and "(path, h) \<in> set m" and "clean_path path"
  shows "mux_route m path = Handler h"
  using mux_match_exact [OF assms(1,2)] assms(3)
  by (simp add: mux_route_def clean_path_def exact_match_def)

text \<open>A request for a path that is not clean is redirected, to the clean path or to the subtree of that
  name.\<close>

lemma mux_route_unclean:
  assumes "\<not> clean_path path"
  shows "mux_route m path \<in> {RedirectTo (cleanPath path), RedirectTo (cleanPath path @ ''/'')}"
  using assms by (simp add: mux_route_def clean_path_def Let_def)

lemma mux_Handle_InrD: "mux_Handle p h m = Inr m' \<Longrightarrow> m' = m @ [(p, h)]"
  by (simp add: mux_Handle_def split: if_splits)

lemma mux_Handle_all: "go_for (\<lambda>(p, h). mux_Handle p h) phs m = Inr m' \<Longrightarrow> m' = m @ phs"
proof (induction phs arbitrary: m)
  case (Cons ph phs)
  obtain p h where ph: "ph = (p, h)" by fastforce
  with Cons.prems have "go_for (\<lambda>(p, h). mux_Handle p h) phs (m @ [(p, h)]) = Inr m'"
    by (auto simp: go_bind_eq_Inr dest: mux_Handle_InrD)
  from Cons.IH [OF this] ph show ?case by simp
qed simp

interpretation mux: router mux_Handle mux_route mux_patterns valid_pattern clean_path "\<lambda>m. distinct (map fst m)"
proof unfold_locales
  show "mux_route m' p = Handler h"
    if "distinct (map fst m)" "mux_Handle p h m = Inr m'" "clean_path p" for m m' :: "'a mux" and p h
    using that by (intro mux_route_exact) (auto simp: mux_Handle_def split: if_splits)
  show "mux_route m' q = mux_route m q"
    if "distinct (map fst m)" "mux_Handle p h m = Inr m'" "q \<in> set (mux_patterns m)" "clean_path q"
    for m m' :: "'a mux" and p h q
  proof -
    from that(3) obtain k where k: "(q, k) \<in> set m" by (auto simp: mux_patterns_def)
    with that have "distinct (map fst m')" "(q, k) \<in> set m'" by (auto simp: mux_Handle_def split: if_splits)
    then have "mux_route m' q = Handler k" using that(4) by (rule mux_route_exact)
    with mux_route_exact [OF that(1) k that(4)] show ?thesis by simp
  qed
qed (auto simp: mux_Handle_def mux_patterns_def split: if_splits)

end
