(* ===== verification/Config.thy ===== *)
theory Config
  imports Go_Prelude
begin

text \<open>
  The package \<open>config\<close> (\<open>src/src/bunny/config\<close>): the structs of the YAML file, field by field, the
  default configuration, reading the file, and the goroutine \<open>GoConfig\<close>, which watches the
  directory of the file and sends every new configuration to the registered channels.

  Field names carry a prefix for their struct where Go uses the same name in several structs; an
  optional block (a pointer field) is an \<open>option\<close>. The YAML decoder and the hash are arguments of
  the definitions: \<open>unmarshal data c\<close> gives what \<open>yaml.Unmarshal\<close> leaves in the pointer \<open>c\<close> and
  the error it returns, \<open>sha256hex\<close> the hexadecimal hash of the file's content.
\<close>

section \<open>The structs of the configuration file\<close>

record ExtraLabelsConfig =
  el_Name :: string
  el_Value :: string

record MetricsConfig =
  mc_Enabled :: bool
  mc_Name :: string
  mc_ExtraLabels :: "ExtraLabelsConfig list"

record SignalsConfig =
  WatchedProcessCommandLineRegEx :: "string option"

record EnvConfig =
  env_Name :: string
  env_Value :: string

record ExecActionConfig =
  exec_Command :: "string list"
  exec_Env :: "EnvConfig list"

record GRPCActionConfig =
  grpc_Port :: go_int
  grpc_Service :: "string option"

record HTTPHeadersConfig =
  hh_Name :: string
  hh_Value :: "string list"

record HTTPGetActionConfig =
  http_Host :: "string option"
  http_HTTPHeaders :: "HTTPHeadersConfig list"
  http_Port :: go_int
  http_Path :: string
  http_Scheme :: "string option"

record SendStepConfig =
  send_Text :: string
  send_Delimiter :: string

record ReceiveStepConfig =
  recv_RegEx :: string
  recv_Delimiter :: string

record ExpectConfig =
  ec_Send :: "SendStepConfig option"
  ec_Receive :: "ReceiveStepConfig option"

record TCPSocketActionConfig =
  tcp_Port :: go_int
  tcp_Host :: "string option"
  tcp_Expect :: "ExpectConfig list option"

record EgressProbeMetricsConfig =
  pm_Attempts :: MetricsConfig
  pm_ResponseTime :: MetricsConfig
  pm_Successes :: MetricsConfig

record EgressProbeConfig =
  pc_Name :: string
  pc_Metrics :: EgressProbeMetricsConfig
  pc_Exec :: "ExecActionConfig option"
  pc_GRPC :: "GRPCActionConfig option"
  pc_HTTPGet :: "HTTPGetActionConfig option"
  pc_TCPSocket :: "TCPSocketActionConfig option"

record EgressConfig =
  eg_Probes :: "EgressProbeConfig list"
  eg_InitialDelayMilliseconds :: go_int
  eg_PeriodMilliseconds :: go_int
  eg_TimeoutMilliseconds :: go_int

record InstantQueryConfig =
  iq_Timeout :: string
  iq_RelativeInstantTime :: string
  iq_Query :: string

record RangeQueryConfig =
  rq_Timeout :: string
  rq_RelativeStartTime :: string
  rq_RelativeEndTime :: string
  rq_Interval :: string
  rq_Query :: string

record IngressHealthEndpointMetricsConfig =
  im_Attempts :: MetricsConfig
  im_ResponseTime :: MetricsConfig
  im_Successes :: MetricsConfig

record HealthConfig =
  hc_Path :: string
  hc_InstantQuery :: "InstantQueryConfig option"
  hc_RangeQuery :: "RangeQueryConfig option"
  hc_Metrics :: "IngressHealthEndpointMetricsConfig option"

record HTTPServerConfig =
  hs_Port :: go_int
  hs_ReadTimeoutMilliseconds :: go_int
  hs_ReadHeaderTimeoutMilliseconds :: go_int
  hs_WriteTimeoutMilliseconds :: go_int
  hs_IdleTimeoutMilliseconds :: go_int
  hs_MaxHeaderBytes :: go_int
  hs_OpenTelemetryMetricsPath :: string
  hs_PrometheusMetricsPath :: string
  hs_Health :: "HealthConfig list"

record IngressConfig =
  in_HTTPServerConfig :: HTTPServerConfig

record OpenTelemetryConfig =
  ot_Exporters :: "string list"

record TSDBOptionsConfig =
  ts_RetentionDurationMilliseconds :: go_int
  ts_MinBlockDurationMilliseconds :: go_int
  ts_MaxBlockDurationMilliseconds :: go_int

record EngineOptionsConfig =
  eo_MaxSamples :: go_int
  eo_TimeoutMilliseconds :: go_int
  eo_LookbackDeltaMilliseconds :: go_int
  eo_NoStepSubqueryIntervalMilliseconds :: go_int

record PromQLOptionsConfig =
  pq_MaxConcurrentQueries :: go_int
  pq_EngineOptions :: EngineOptionsConfig

record PrometheusConfig =
  pr_TSDBPath :: string
  pr_TSDBOptions :: TSDBOptionsConfig
  pr_PromQL :: PromQLOptionsConfig

record TelemetryConfig =
  te_OpenTelemetry :: OpenTelemetryConfig
  te_Prometheus :: PrometheusConfig

record BunnyConfig =
  Egress :: EgressConfig
  Ingress :: IngressConfig
  Signals :: SignalsConfig
  Telemetry :: TelemetryConfig

type_synonym ConfigStage = go_int

definition ConfigStageTelemetryCompleted :: ConfigStage where
  "ConfigStageTelemetryCompleted = 1"

section \<open>The default configuration\<close>

text \<open>The zero values of the structs that \<open>generateDefaultConfig\<close> leaves out.\<close>

definition zero_EgressConfig :: EgressConfig where
  "zero_EgressConfig = \<lparr>eg_Probes = [], eg_InitialDelayMilliseconds = 0,
     eg_PeriodMilliseconds = 0, eg_TimeoutMilliseconds = 0\<rparr>"

definition zero_SignalsConfig :: SignalsConfig where
  "zero_SignalsConfig = \<lparr>WatchedProcessCommandLineRegEx = None\<rparr>"

definition zero_TelemetryConfig :: TelemetryConfig where
  "zero_TelemetryConfig = \<lparr>te_OpenTelemetry = \<lparr>ot_Exporters = []\<rparr>,
     te_Prometheus = \<lparr>pr_TSDBPath = [],
       pr_TSDBOptions = \<lparr>ts_RetentionDurationMilliseconds = 0, ts_MinBlockDurationMilliseconds = 0,
         ts_MaxBlockDurationMilliseconds = 0\<rparr>,
       pr_PromQL = \<lparr>pq_MaxConcurrentQueries = 0,
         pq_EngineOptions = \<lparr>eo_MaxSamples = 0, eo_TimeoutMilliseconds = 0,
           eo_LookbackDeltaMilliseconds = 0, eo_NoStepSubqueryIntervalMilliseconds = 0\<rparr>\<rparr>\<rparr>\<rparr>"

definition generateDefaultConfig :: BunnyConfig where
  "generateDefaultConfig = \<lparr>Egress = zero_EgressConfig,
     Ingress = \<lparr>in_HTTPServerConfig = \<lparr>hs_Port = 1312,
       hs_ReadTimeoutMilliseconds = 5000,
       hs_ReadHeaderTimeoutMilliseconds = 5000,
       hs_WriteTimeoutMilliseconds = 10000,
       hs_IdleTimeoutMilliseconds = 2000,
       hs_MaxHeaderBytes = 10000,
       hs_OpenTelemetryMetricsPath = ''otel-metrics'',
       hs_PrometheusMetricsPath = ''prom-metrics'',
       hs_Health = []\<rparr>\<rparr>,
     Signals = zero_SignalsConfig,
     Telemetry = zero_TelemetryConfig\<rparr>"

section \<open>The goroutine\<close>

definition defaultConfigFilePath :: string where
  "defaultConfigFilePath = ''/config/bunny.yaml''"

text \<open>The package variables, with the hash that is a local variable of \<open>GoConfig\<close>, and the number
  of registered channels (the channels themselves belong to the listeners; a send is recorded
  with the index of its channel).\<close>

record config_state =
  configDirPath :: string
  configFilePath :: string
  bunnyConfig :: "BunnyConfig option"
  configFileHash :: string
  configUpdateChannels :: nat

definition initial_config_state :: config_state where
  "initial_config_state = \<lparr>configDirPath = path_Dir defaultConfigFilePath,
     configFilePath = defaultConfigFilePath, bunnyConfig = None, configFileHash = [],
     configUpdateChannels = 0\<rparr>"

definition config_AddChannelListener :: "config_state \<Rightarrow> config_state" where
  "config_AddChannelListener st = st\<lparr>configUpdateChannels := Suc (configUpdateChannels st)\<rparr>"

type_synonym unmarshal = "string \<Rightarrow> BunnyConfig option \<Rightarrow> BunnyConfig option \<times> go_error option"

text \<open>A result of \<open>os.ReadFile\<close>.\<close>

type_synonym read_file = "go_error + string"

definition readBunnyConfigFile :: "unmarshal \<Rightarrow> read_file \<Rightarrow> config_state \<Rightarrow> config_state" where
  "readBunnyConfigFile unmarshal file st =
     (let st = st\<lparr>bunnyConfig := Some generateDefaultConfig\<rparr> in
      case file of
        Inl err \<Rightarrow> st
      | Inr data \<Rightarrow> st\<lparr>bunnyConfig := fst (unmarshal data (bunnyConfig st))\<rparr>)"

text \<open>The loop that sends \<open>*bunnyConfig\<close> to every channel, in the order of registration.\<close>

type_synonym config_sends = "(nat \<times> BunnyConfig) list"

definition notify_channels :: "config_state \<Rightarrow> config_sends go" where
  "notify_channels st =
     go_for (\<lambda>i sends. go_bind (deref (bunnyConfig st)) (\<lambda>c. Inr (sends @ [(i, c)])))
       [0 ..< configUpdateChannels st] []"

text \<open>From the start of \<open>GoConfig\<close> to the notification of the first configuration.\<close>

definition GoConfig_start ::
    "unmarshal \<Rightarrow> string \<Rightarrow> read_file \<Rightarrow> config_state \<Rightarrow> (config_state \<times> config_sends) go" where
  "GoConfig_start unmarshal envVar file st =
     (let st = (if envVar \<noteq> [] then st\<lparr>configDirPath := path_Dir envVar, configFilePath := envVar\<rparr>
                else st);
          st = readBunnyConfigFile unmarshal file st
      in go_bind (notify_channels st) (\<lambda>sends. Inr (st, sends)))"

text \<open>From there to the loop. The loop evaluates \<open>watcher.Events\<close>, so a watcher that could not be
  created (a nil pointer) panics there; a directory that cannot be added to the watcher is only
  logged.\<close>

definition GoConfig_watcher :: "go_error option \<Rightarrow> config_state \<Rightarrow> config_state go" where
  "GoConfig_watcher watcherErr st =
     (case watcherErr of
        Some err \<Rightarrow> Inl NilDereference
      | None \<Rightarrow> Inr (st\<lparr>configFileHash := []\<rparr>))"

text \<open>What the \<open>select\<close> of the loop receives. An event of the watcher comes with the operations
  it reports and with the results of the two reads of the file that handling it makes: one for
  the hash, one in \<open>readBunnyConfigFile\<close>.\<close>

datatype fs_op = FsCreate | FsWrite | FsRemove | FsRename | FsChmod

datatype config_event =
    WatcherEvent "fs_op list" read_file read_file
  | WatcherEventsClosed
  | WatcherError go_error
  | WatcherErrorsClosed
  | ConfigSignal

fun GoConfig_step :: "(string \<Rightarrow> string) \<Rightarrow> unmarshal \<Rightarrow> config_event \<Rightarrow> config_state
    \<Rightarrow> (loop_control \<times> config_state \<times> config_sends) go" where
  "GoConfig_step sha256hex unmarshal (WatcherEvent ops file1 file2) st =
     (let data = (case file1 of Inl err \<Rightarrow> [] | Inr d \<Rightarrow> d);
          newConfigFileHash = sha256hex data
      in if newConfigFileHash \<noteq> configFileHash st
         then (let st = readBunnyConfigFile unmarshal file2 st;
                   st = st\<lparr>configFileHash := newConfigFileHash\<rparr>
               in go_bind (notify_channels st) (\<lambda>sends. Inr (Continue, st, sends)))
         else Inr (Continue, st, []))"
| "GoConfig_step sha256hex unmarshal WatcherEventsClosed st = Inr (Continue, st, [])"
| "GoConfig_step sha256hex unmarshal (WatcherError err) st = Inr (Continue, st, [])"
| "GoConfig_step sha256hex unmarshal WatcherErrorsClosed st = Inr (Continue, st, [])"
| "GoConfig_step sha256hex unmarshal ConfigSignal st = Inr (Return, st, [])"

text \<open>The loop on a sequence of received values: whether it returned, the state, and everything
  that was sent.\<close>

fun GoConfig_loop :: "(string \<Rightarrow> string) \<Rightarrow> unmarshal \<Rightarrow> config_event list \<Rightarrow> config_state
    \<Rightarrow> (loop_control \<times> config_state \<times> config_sends) go" where
  "GoConfig_loop sha256hex unmarshal [] st = Inr (Continue, st, [])"
| "GoConfig_loop sha256hex unmarshal (e # es) st =
     go_bind (GoConfig_step sha256hex unmarshal e st) (\<lambda>(ctl, st1, sends1).
       case ctl of
         Return \<Rightarrow> Inr (Return, st1, sends1)
       | Continue \<Rightarrow> go_bind (GoConfig_loop sha256hex unmarshal es st1) (\<lambda>(ctl, st2, sends2).
           Inr (ctl, st2, sends1 @ sends2)))"

section \<open>Notifications\<close>

lemma notify_channels_Some [simp]:
  "bunnyConfig st = Some c \<Longrightarrow>
   notify_channels st = Inr (map (\<lambda>i. (i, c)) [0 ..< configUpdateChannels st])"
  by (simp add: notify_channels_def)

lemma notify_channels_None:
  "bunnyConfig st = None \<Longrightarrow> 0 < configUpdateChannels st \<Longrightarrow> notify_channels st = Inl NilDereference"
  by (simp add: notify_channels_def upt_rec)

lemma readBunnyConfigFile_frame [simp]:
  "configUpdateChannels (readBunnyConfigFile u f st) = configUpdateChannels st"
  "configFileHash (readBunnyConfigFile u f st) = configFileHash st"
  "configFilePath (readBunnyConfigFile u f st) = configFilePath st"
  "configDirPath (readBunnyConfigFile u f st) = configDirPath st"
  by (simp_all add: readBunnyConfigFile_def Let_def split: sum.splits)

text \<open>What the decoder makes of a file's content, starting from the defaults.\<close>

definition decoded :: "unmarshal \<Rightarrow> string \<Rightarrow> BunnyConfig option" where
  "decoded unmarshal data = fst (unmarshal data (Some generateDefaultConfig))"

lemma bunnyConfig_read [simp]:
  "bunnyConfig (readBunnyConfigFile u (Inr d) st) = decoded u d"
  "bunnyConfig (readBunnyConfigFile u (Inl e) st) = Some generateDefaultConfig"
  by (simp_all add: readBunnyConfigFile_def decoded_def)

text \<open>The content that a read of the file gives for the hash, and what it gives for the configuration.\<close>

definition read_content :: "read_file \<Rightarrow> string" where
  "read_content file = (case file of Inl err \<Rightarrow> [] | Inr d \<Rightarrow> d)"

definition read_config :: "unmarshal \<Rightarrow> read_file \<Rightarrow> BunnyConfig option" where
  "read_config unmarshal file = (case file of Inl err \<Rightarrow> Some generateDefaultConfig | Inr d \<Rightarrow> decoded unmarshal d)"

lemma bunnyConfig_read_config: "bunnyConfig (readBunnyConfigFile u f st) = read_config u f"
  by (cases f) (simp_all add: read_config_def)

text \<open>The specification of when a configuration is read again: the pairs of a content and a second read,
  without those whose content is that of the pair before; the first is compared with \<open>prev\<close>.\<close>

fun content_changes :: "'a option \<Rightarrow> ('a \<times> 'b) list \<Rightarrow> ('a \<times> 'b) list" where
  "content_changes prev [] = []"
| "content_changes prev ((d, f) # ds) =
     (if prev = Some d then content_changes prev ds else (d, f) # content_changes (Some d) ds)"

lemma content_changes_Some: "map fst (content_changes (Some d) ds) = tl (remdups_adj (d # map fst ds))"
  by (induction ds arbitrary: d) auto

lemma content_changes_None: "map fst (content_changes None ds) = remdups_adj (map fst ds)"
proof (cases ds)
  case (Cons x ds')
  have "map fst (content_changes None ds) = fst x # tl (remdups_adj (fst x # map fst ds'))"
    by (cases x) (simp add: Cons content_changes_Some)
  also have "\<dots> = remdups_adj (fst x # map fst ds')"
    by (metis hd_Cons_tl list.sel(1) remdups_adj_Nil_iff hd_remdups_adj list.distinct(1))
  finally show ?thesis using Cons by simp
qed simp

lemma set_content_changes: "set (content_changes prev ds) \<subseteq> set ds"
  by (induction prev ds rule: content_changes.induct) auto

definition file_events :: "(fs_op list \<times> read_file \<times> read_file) list \<Rightarrow> config_event list" where
  "file_events evs = map (\<lambda>(ops, file1, file2). WatcherEvent ops file1 file2) evs"

definition reads :: "(fs_op list \<times> read_file \<times> read_file) list \<Rightarrow> (string \<times> read_file) list" where
  "reads evs = map (\<lambda>(ops, file1, file2). (read_content file1, file2)) evs"

definition broadcast :: "nat \<Rightarrow> BunnyConfig list \<Rightarrow> config_sends" where
  "broadcast n cs = concat (map (\<lambda>c. map (\<lambda>i. (i, c)) [0 ..< n]) cs)"

lemma GoConfig_loop_reads_aux:
  assumes inj: "inj_on sha (S \<union> fst ` set (reads evs))"
    and hash: "case prev of None \<Rightarrow> configFileHash st \<notin> sha ` (S \<union> fst ` set (reads evs))
                | Some d \<Rightarrow> d \<in> S \<and> configFileHash st = sha d"
    and dec: "\<And>f. f \<in> snd ` set (reads evs) \<Longrightarrow> read_config unm f = Some (cfg f)"
  shows "\<exists>st'. GoConfig_loop sha unm (file_events evs) st =
      Inr (Continue, st', broadcast (configUpdateChannels st) (map (cfg \<circ> snd) (content_changes prev (reads evs))))"
  using assms
proof (induction evs arbitrary: st prev S)
  case Nil
  then show ?case by (simp add: file_events_def reads_def broadcast_def)
next
  case (Cons ev evs)
  obtain ops f1 f2 where ev: "ev = (ops, f1, f2)" by (cases ev)
  define d where "d = read_content f1"
  have rs: "reads (ev # evs) = (d, f2) # reads evs" by (simp add: reads_def ev d_def)
  have es: "file_events (ev # evs) = WatcherEvent ops f1 f2 # file_events evs" by (simp add: file_events_def ev)
  have data: "(case f1 of Inl err \<Rightarrow> [] | Inr d \<Rightarrow> d) = d" by (simp add: d_def read_content_def)
  have inj': "inj_on sha (insert d S \<union> fst ` set (reads evs))"
    using Cons.prems(1) by (simp add: rs insert_commute Un_insert_right)
  show ?case
  proof (cases "prev = Some d")
    case True
    with Cons.prems(2) have "configFileHash st = sha d" by simp
    moreover have "\<exists>st'. GoConfig_loop sha unm (file_events evs) st = Inr (Continue, st',
        broadcast (configUpdateChannels st) (map (cfg \<circ> snd) (content_changes prev (reads evs))))"
      using True Cons.prems(2,3) inj' by (intro Cons.IH [of "insert d S"]) (auto simp: rs)
    ultimately show ?thesis using True by (auto simp: es rs data comp_def)
  next
    case False
    have "configFileHash st \<noteq> sha d"
      using False Cons.prems(1,2) by (cases prev) (auto simp: rs inj_on_def)
    moreover define st1 where "st1 = (readBunnyConfigFile unm f2 st)\<lparr>configFileHash := sha d\<rparr>"
    moreover have "bunnyConfig st1 = Some (cfg f2)"
      using Cons.prems(3) by (simp add: rs st1_def bunnyConfig_read_config)
    moreover have "\<exists>st'. GoConfig_loop sha unm (file_events evs) st1 = Inr (Continue, st',
        broadcast (configUpdateChannels st1) (map (cfg \<circ> snd) (content_changes (Some d) (reads evs))))"
      using Cons.prems(3) inj' by (intro Cons.IH [of "insert d S"]) (auto simp: rs st1_def)
    ultimately show ?thesis using False
      by (auto simp: es rs data Let_def broadcast_def comp_def)
  qed
qed

lemma GoConfig_watcher_hash: "GoConfig_watcher err st = Inr st1 \<Longrightarrow>
    configFileHash st1 = [] \<and> configUpdateChannels st1 = configUpdateChannels st"
  by (auto simp: GoConfig_watcher_def split: option.splits)

lemma changes_agree:
  assumes "\<forall>(ops, file1, file2) \<in> set evs. file2 = Inr (read_content file1)"
  shows "map snd (content_changes prev (reads evs)) = map (Inr \<circ> fst) (content_changes prev (reads evs))"
proof (rule map_cong [OF refl])
  fix r assume "r \<in> set (content_changes prev (reads evs))"
  with set_content_changes have "r \<in> set (reads evs)" by blast
  with assms show "snd r = (Inr \<circ> fst) r" by (auto simp: reads_def)
qed

section \<open>Properties\<close>

text \<open>C8: What the watch loop sends follows the content of the file. Handling an event reads the
  file twice, once for the hash and once for the configuration, and a read that fails counts as the empty
  content for the hash and as the default configuration. From the start of the loop on, as
  long as the hash is never empty and does not collide on the contents seen and the decoder leaves a
  configuration, the loop sends, to every registered channel and in registration order, the
  configuration of the second read for each event whose first read differs in content from that of the event before,
  the first event included, and nothing else; which file operations an event reports makes no
  difference. So if the second reads agree with the first ones, the configurations sent are those of the contents,
  without repetitions of the one before; if the file is changed between the two reads of an event, a
  configuration can be sent twice.\<close>

theorem GoConfig_follows_content:
  assumes "GoConfig_watcher err st0 = Inr st"
    and "\<And>d. sha256hex d \<noteq> []" and "inj_on sha256hex (fst ` set (reads evs))"
    and "\<And>f. f \<in> snd ` set (reads evs) \<Longrightarrow> read_config unmarshal f = Some (cfg f)"
  shows "\<exists>st' sent. GoConfig_loop sha256hex unmarshal (file_events evs) st =
      Inr (Continue, st', broadcast (configUpdateChannels st0) (map cfg sent))
    \<and> sent = map snd (content_changes None (reads evs))
    \<and> map fst (content_changes None (reads evs)) = remdups_adj (map fst (reads evs))
    \<and> ((\<forall>(ops, file1, file2) \<in> set evs. file2 = Inr (read_content file1))
        \<longrightarrow> sent = map Inr (remdups_adj (map fst (reads evs))))"
proof -
  have "[] \<notin> sha256hex ` X" for X using assms(2) by (metis imageE)
  with GoConfig_loop_reads_aux [where S = "{}" and prev = None and sha = sha256hex and evs = evs
      and st = st and unm = unmarshal and cfg = cfg] assms(3,4) GoConfig_watcher_hash [OF assms(1)]
  obtain st' where "GoConfig_loop sha256hex unmarshal (file_events evs) st =
      Inr (Continue, st', broadcast (configUpdateChannels st0) (map (cfg \<circ> snd) (content_changes None (reads evs))))"
    by auto
  moreover have "map snd (content_changes None (reads evs)) = map Inr (remdups_adj (map fst (reads evs)))"
    if "\<forall>(ops, file1, file2) \<in> set evs. file2 = Inr (read_content file1)"
    unfolding changes_agree [OF that] content_changes_None [symmetric] by simp
  ultimately show ?thesis by (simp add: content_changes_None)
qed

definition example_config :: "string \<Rightarrow> BunnyConfig" where
  "example_config d = generateDefaultConfig\<lparr>Signals := \<lparr>WatchedProcessCommandLineRegEx = Some d\<rparr>\<rparr>"

definition example_unmarshal :: unmarshal where
  "example_unmarshal data c = (Some (example_config data), None)"

text \<open>The file is changed between the two reads of the first event: the new configuration is sent twice.\<close>

theorem GoConfig_follows_content_witness:
  "\<exists>st'. GoConfig_loop (\<lambda>d. CHR ''h'' # d) example_unmarshal
       (file_events [([FsWrite], Inr ''a'', Inr ''b''), ([FsWrite], Inr ''b'', Inr ''b''), ([FsChmod], Inr ''b'', Inr ''b'')])
       (initial_config_state\<lparr>configUpdateChannels := 2\<rparr>) =
     Inr (Continue, st', [(0, example_config ''b''), (1, example_config ''b''),
       (0, example_config ''b''), (1, example_config ''b'')])"
proof -
  let ?evs = "[([FsWrite], Inr ''a'', Inr ''b''), ([FsWrite], Inr ''b'', Inr ''b''), ([FsChmod], Inr ''b'', Inr ''b'')]
    :: (fs_op list \<times> read_file \<times> read_file) list"
  let ?st = "initial_config_state\<lparr>configUpdateChannels := 2\<rparr>"
  let ?cfg = "\<lambda>f. example_config (read_content f)"
  have start: "GoConfig_watcher None ?st = Inr ?st" by (simp add: GoConfig_watcher_def initial_config_state_def)
  have reads: "reads ?evs = [(''a'', Inr ''b''), (''b'', Inr ''b''), (''b'', Inr ''b'')]"
    by (simp add: reads_def read_content_def)
  have "\<exists>st' sent. GoConfig_loop (\<lambda>d. CHR ''h'' # d) example_unmarshal (file_events ?evs) ?st =
      Inr (Continue, st', broadcast (configUpdateChannels ?st) (map ?cfg sent))
    \<and> sent = map snd (content_changes None (reads ?evs))
    \<and> map fst (content_changes None (reads ?evs)) = remdups_adj (map fst (reads ?evs))
    \<and> ((\<forall>(ops, file1, file2) \<in> set ?evs. file2 = Inr (read_content file1))
        \<longrightarrow> sent = map Inr (remdups_adj (map fst (reads ?evs))))"
    by (rule GoConfig_follows_content [OF start])
      (auto simp: reads inj_on_def read_config_def decoded_def example_unmarshal_def read_content_def)
  then show ?thesis by (simp add: reads broadcast_def upt_rec read_content_def del: GoConfig_loop.simps)
qed

text \<open>C39: When the configuration file cannot be read while a watcher event is handled (it was
  deleted, say) and the hash in force is not that of the empty content, the default configuration
  replaces the one in force and is sent to every channel, whatever operations the event reports.\<close>

theorem GoConfig_deleted_file_resets:
  assumes "configFileHash st \<noteq> sha256hex []"
  shows "\<exists>st'. GoConfig_step sha256hex unmarshal (WatcherEvent ops (Inl e1) (Inl e2)) st =
      Inr (Continue, st', map (\<lambda>i. (i, generateDefaultConfig)) [0 ..< configUpdateChannels st])
    \<and> bunnyConfig st' = Some generateDefaultConfig \<and> configFileHash st' = sha256hex []"
  using assms by (simp add: Let_def)

theorem GoConfig_deleted_file_resets_witness:
  "\<exists>st'. GoConfig_step (\<lambda>d. CHR ''h'' # d) example_unmarshal
       (WatcherEvent [FsRemove] (Inl ErrNotExist) (Inl ErrNotExist))
       \<lparr>configDirPath = ''/config'', configFilePath = ''/config/bunny.yaml'',
         bunnyConfig = Some (example_config ''a''), configFileHash = ''ha'',
         configUpdateChannels = 1\<rparr> =
      Inr (Continue, st', [(0, generateDefaultConfig)])
    \<and> bunnyConfig st' = Some generateDefaultConfig \<and> configFileHash st' = ''h''"
  using GoConfig_deleted_file_resets [of "\<lparr>configDirPath = ''/config'',
      configFilePath = ''/config/bunny.yaml'', bunnyConfig = Some (example_config ''a''),
      configFileHash = ''ha'', configUpdateChannels = 1\<rparr>" "\<lambda>d. CHR ''h'' # d"
      example_unmarshal "[FsRemove]" ErrNotExist ErrNotExist]
  by simp

text \<open>Starting \<open>GoConfig\<close>: the listeners get the default configuration if the file cannot be
  read and what the decoder made of it otherwise. If the decoder leaves a nil pointer (a
  YAML null document) the goroutine panics instead.\<close>

theorem GoConfig_start_result:
  assumes "0 < configUpdateChannels st"
  shows "GoConfig_start unmarshal env file st =
    (case read_config unmarshal file of
       None \<Rightarrow> Inl NilDereference
     | Some c \<Rightarrow> Inr (st\<lparr>configDirPath := if env = [] then configDirPath st else path_Dir env,
             configFilePath := if env = [] then configFilePath st else env, bunnyConfig := Some c\<rparr>,
           map (\<lambda>i. (i, c)) [0 ..< configUpdateChannels st]))"
proof -
  define st1 where
    "st1 = (if env \<noteq> [] then st\<lparr>configDirPath := path_Dir env, configFilePath := env\<rparr> else st)"
  define st2 where "st2 = readBunnyConfigFile unmarshal file st1"
  have eq: "GoConfig_start unmarshal env file st = go_bind (notify_channels st2) (\<lambda>sends. Inr (st2, sends))"
    unfolding GoConfig_start_def Let_def st1_def st2_def by (rule refl)
  have st2: "st2 = st1\<lparr>bunnyConfig := read_config unmarshal file\<rparr>"
    by (auto simp: st2_def readBunnyConfigFile_def read_config_def decoded_def Let_def split: sum.split)
  have n: "configUpdateChannels st1 = configUpdateChannels st" by (simp add: st1_def)
  show ?thesis
  proof (cases "read_config unmarshal file")
    case None
    with st2 n assms show ?thesis by (simp add: eq notify_channels_None)
  next
    case (Some c)
    with st2 n show ?thesis by (simp add: eq) (simp add: st1_def)
  qed
qed

theorem GoConfig_start_result_witness:
  "GoConfig_start example_unmarshal ''conf/b.yaml'' (Inr ''a'')
     (config_AddChannelListener initial_config_state) =
   Inr (\<lparr>configDirPath = ''conf'', configFilePath = ''conf/b.yaml'',
      bunnyConfig = Some (example_config ''a''), configFileHash = [], configUpdateChannels = 1\<rparr>,
     [(0, example_config ''a'')])"
  using GoConfig_start_result [of "config_AddChannelListener initial_config_state" example_unmarshal
    "''conf/b.yaml''" "Inr ''a''"]
  by (simp add: config_AddChannelListener_def initial_config_state_def read_config_def decoded_def
      example_unmarshal_def path_Dir_def path_Clean_def starts_with_def)

end
