(* ===== verification/Metrics.thy ===== *)
theory Metrics
  imports Config
begin

text \<open>
  The metrics of the package \<open>telemetry\<close> (\<open>src/src/bunny/telemetry/metrics.go\<close>, with
  \<open>NewAttributes\<close> and \<open>NewLabels\<close> of \<open>telemetry.go\<close>) and the response times of the package
  \<open>common\<close>.

  OpenTelemetry and the Prometheus client are not part of the repository. Creating an instrument
  and (un)registering a collector are functions of the argument \<open>api\<close>; adding to a counter,
  setting a gauge and observing a value are recorded as events, in the order in which the code
  makes the calls.
\<close>

section \<open>Labels\<close>

definition NewAttributes :: "ExtraLabelsConfig list \<Rightarrow> (string \<times> string) list" where
  "NewAttributes extraLabels = map (\<lambda>l. (el_Name l, el_Value l)) extraLabels"

definition NewLabels :: "ExtraLabelsConfig list \<Rightarrow> (string \<rightharpoonup> string)" where
  "NewLabels extraLabels = fold (\<lambda>l m. m(el_Name l \<mapsto> el_Value l)) extraLabels Map.empty"

section \<open>State and instruments\<close>

record prom_desc =
  pd_Name :: string
  pd_ConstLabels :: "string \<rightharpoonup> string"

record CounterMetric =
  cm_OtelCounter :: string
  cm_OtelExtraAttributes :: "(string \<times> string) list"
  cm_PromCounter :: prom_desc

record ResponseTimeMetric =
  rt_OtelGauge :: "string option"
  rt_OtelExtraAttributes :: "(string \<times> string) list"
  rt_OtelMetricName :: string
  rt_PromGauge :: prom_desc

text \<open>The calls made on instruments: \<open>Add(ctx, 1, attributes)\<close>, \<open>Inc()\<close>, \<open>Set(value)\<close> and
  \<open>Observe(value, attributes)\<close>.\<close>

datatype metric_event =
    OtelAdd string "(string \<times> string) list"
  | PromInc prom_desc
  | PromSet prom_desc int
  | OtelObserve string int "(string \<times> string) list"

record 'r metric_api =
  api_Int64Counter :: "string \<Rightarrow> go_error option"
  api_Int64ObservableGauge :: "string \<Rightarrow> go_error option"
  api_Unregister :: "prom_desc \<Rightarrow> 'r \<Rightarrow> 'r"
  api_Register :: "prom_desc \<Rightarrow> 'r \<Rightarrow> go_error + 'r"

text \<open>\<open>common.ResponseTimes\<close> maps a metric name to a pointer, which may be nil; \<open>PromRegistry\<close> is
  nil until telemetry is configured; \<open>ms_callbacks\<close> holds the closures given to observable
  gauges, with the variables they capture.\<close>

record 'r metrics_state =
  ms_events :: "metric_event list"
  ResponseTimes :: "string \<rightharpoonup> duration option"
  PromRegistry :: "'r option"
  ms_callbacks :: "(string \<times> (string \<times> string) list) list"

definition emit :: "metric_event list \<Rightarrow> 'r metrics_state \<Rightarrow> 'r metrics_state" where
  "emit evs ms = ms\<lparr>ms_events := ms_events ms @ evs\<rparr>"

section \<open>Measuring\<close>

definition PreMeasurable :: "CounterMetric option \<Rightarrow> ResponseTimeMetric option \<Rightarrow> go_time
    \<Rightarrow> 'r metrics_state \<Rightarrow> go_time option \<times> 'r metrics_state" where
  "PreMeasurable attemptsMetric responseTimeMetric now ms =
     (let ms = (case attemptsMetric of
                  None \<Rightarrow> ms
                | Some c \<Rightarrow> emit [OtelAdd (cm_OtelCounter c) (cm_OtelExtraAttributes c),
                                 PromInc (cm_PromCounter c)] ms)
      in (case responseTimeMetric of None \<Rightarrow> None | Some _ \<Rightarrow> Some now, ms))"

definition PostMeasurable :: "CounterMetric option \<Rightarrow> ResponseTimeMetric option \<Rightarrow> go_time option
    \<Rightarrow> bool \<Rightarrow> go_time \<Rightarrow> 'r metrics_state \<Rightarrow> 'r metrics_state go" where
  "PostMeasurable successesMetric responseTimeMetric timerStart success now ms =
     (if \<not> success then Inr ms
      else go_bind
        (case responseTimeMetric of
           None \<Rightarrow> Inr ms
         | Some g \<Rightarrow> go_bind (deref timerStart) (\<lambda>start.
             let responseTime = time_Sub now start;
                 ms = ms\<lparr>ResponseTimes := (ResponseTimes ms)(rt_OtelMetricName g \<mapsto> Some responseTime)\<rparr>
             in Inr (emit [PromSet (rt_PromGauge g) (Duration_Milliseconds responseTime)] ms)))
        (\<lambda>ms. Inr (case successesMetric of
           None \<Rightarrow> ms
         | Some c \<Rightarrow> emit [OtelAdd (cm_OtelCounter c) (cm_OtelExtraAttributes c),
                          PromInc (cm_PromCounter c)] ms)))"

section \<open>Creating metrics\<close>

text \<open>\<open>PromRegistry.Unregister(c); PromRegistry.MustRegister(c)\<close>.\<close>

definition reregister :: "'r metric_api \<Rightarrow> prom_desc \<Rightarrow> 'r metrics_state \<Rightarrow> 'r metrics_state go" where
  "reregister api desc ms =
     go_bind (deref (PromRegistry ms)) (\<lambda>r.
       case api_Register api desc (api_Unregister api desc r) of
         Inl e \<Rightarrow> Inl (MustRegisterFailed e)
       | Inr r' \<Rightarrow> Inr (ms\<lparr>PromRegistry := Some r'\<rparr>))"

text \<open>The meter is a pointer; its name identifies it.\<close>

definition NewCounterMetric :: "'r metric_api \<Rightarrow> MetricsConfig \<Rightarrow> string option
    \<Rightarrow> 'r metrics_state \<Rightarrow> (CounterMetric option \<times> 'r metrics_state) go" where
  "NewCounterMetric api metricsConfig meter ms =
     (if \<not> mc_Enabled metricsConfig then Inr (None, ms)
      else let metricName = mc_Name metricsConfig in
        go_bind (deref meter) (\<lambda>_.
          case api_Int64Counter api (''otel_'' @ metricName) of
            Some err \<Rightarrow> Inr (None, ms)
          | None \<Rightarrow>
              (let desc = \<lparr>pd_Name = ''prom_'' @ metricName,
                           pd_ConstLabels = NewLabels (mc_ExtraLabels metricsConfig)\<rparr>
               in go_bind (reregister api desc ms) (\<lambda>ms.
                  Inr (Some \<lparr>cm_OtelCounter = ''otel_'' @ metricName,
                             cm_OtelExtraAttributes = NewAttributes (mc_ExtraLabels metricsConfig),
                             cm_PromCounter = desc\<rparr>, ms)))))"

text \<open>The callback of the observable gauge: it observes a response time once and then clears it.\<close>

definition response_time_callback :: "string \<Rightarrow> (string \<times> string) list \<Rightarrow> 'r metrics_state
    \<Rightarrow> go_error option \<times> 'r metrics_state" where
  "response_time_callback metricName extraAttributes ms =
     (if metricName = [] then (Some (ErrorString ''unset metric name''), ms)
      else case ResponseTimes ms metricName of
        Some (Some responseTime) \<Rightarrow>
          (None, (emit [OtelObserve metricName (Duration_Milliseconds responseTime) extraAttributes] ms)
             \<lparr>ResponseTimes := (ResponseTimes ms)(metricName \<mapsto> None)\<rparr>)
      | _ \<Rightarrow> (None, ms))"

text \<open>An error from \<open>Int64ObservableGauge\<close> is only logged.\<close>

definition NewResponseTimeMetric :: "'r metric_api \<Rightarrow> MetricsConfig \<Rightarrow> string option
    \<Rightarrow> 'r metrics_state \<Rightarrow> (ResponseTimeMetric option \<times> 'r metrics_state) go" where
  "NewResponseTimeMetric api metricsConfig meter ms =
     (if \<not> mc_Enabled metricsConfig then Inr (None, ms)
      else let metricName = mc_Name metricsConfig;
               extraAttributes = NewAttributes (mc_ExtraLabels metricsConfig)
        in go_bind (deref meter) (\<lambda>_.
          let (gauge, ms) =
                (case api_Int64ObservableGauge api (''otel_'' @ metricName) of
                   Some err \<Rightarrow> (None, ms)
                 | None \<Rightarrow> (Some (''otel_'' @ metricName),
                           ms\<lparr>ms_callbacks := ms_callbacks ms @ [(metricName, extraAttributes)]\<rparr>));
              desc = \<lparr>pd_Name = ''prom_'' @ metricName,
                      pd_ConstLabels = NewLabels (mc_ExtraLabels metricsConfig)\<rparr>
          in go_bind (reregister api desc ms) (\<lambda>ms.
             Inr (Some \<lparr>rt_OtelGauge = gauge, rt_OtelExtraAttributes = extraAttributes,
                        rt_OtelMetricName = metricName, rt_PromGauge = desc\<rparr>, ms))))"

text \<open>The metric that a configuration describes: none if it is disabled or OpenTelemetry refuses the
  instrument; a response time is kept for Prometheus even then.\<close>

definition counter_of :: "'r metric_api \<Rightarrow> MetricsConfig \<Rightarrow> CounterMetric option" where
  "counter_of api c =
     (if mc_Enabled c \<and> api_Int64Counter api (''otel_'' @ mc_Name c) = None
      then Some \<lparr>cm_OtelCounter = ''otel_'' @ mc_Name c, cm_OtelExtraAttributes = NewAttributes (mc_ExtraLabels c),
        cm_PromCounter = \<lparr>pd_Name = ''prom_'' @ mc_Name c, pd_ConstLabels = NewLabels (mc_ExtraLabels c)\<rparr>\<rparr>
      else None)"

definition response_time_of :: "'r metric_api \<Rightarrow> MetricsConfig \<Rightarrow> ResponseTimeMetric option" where
  "response_time_of api c =
     (if mc_Enabled c
      then Some \<lparr>rt_OtelGauge = (if api_Int64ObservableGauge api (''otel_'' @ mc_Name c) = None
          then Some (''otel_'' @ mc_Name c) else None),
        rt_OtelExtraAttributes = NewAttributes (mc_ExtraLabels c), rt_OtelMetricName = mc_Name c,
        rt_PromGauge = \<lparr>pd_Name = ''prom_'' @ mc_Name c, pd_ConstLabels = NewLabels (mc_ExtraLabels c)\<rparr>\<rparr>
      else None)"

lemma NewCounterMetric_InrD: "NewCounterMetric api c meter ms = Inr (m, ms') \<Longrightarrow> m = counter_of api c"
  by (auto simp: NewCounterMetric_def counter_of_def Let_def go_bind_eq_Inr split: if_splits option.splits)

lemma NewResponseTimeMetric_InrD: "NewResponseTimeMetric api c meter ms = Inr (m, ms') \<Longrightarrow> m = response_time_of api c"
  by (auto simp: NewResponseTimeMetric_def response_time_of_def Let_def go_bind_eq_Inr split: if_splits option.splits)

section \<open>When metrics can be made\<close>

text \<open>Registering collectors one after the other, each after it has been unregistered: the registry at
  the end, or the panic of the first registration that is refused. The registry may refuse any (a name that
  is not valid, labels that differ from those of a collector with the same name).\<close>

fun register_all :: "'r metric_api \<Rightarrow> prom_desc list \<Rightarrow> 'r \<Rightarrow> 'r go" where
  "register_all api [] r = Inr r"
| "register_all api (d # ds) r = (case api_Register api d (api_Unregister api d r) of
     Inl e \<Rightarrow> Inl (MustRegisterFailed e)
   | Inr r' \<Rightarrow> register_all api ds r')"

lemma register_all_append:
  "register_all api (ds @ es) r = go_bind (register_all api ds r) (register_all api es)"
  by (induction api ds r rule: register_all.induct) (auto split: sum.split)

text \<open>The collectors that a metric's configuration asks for, and the callback of its gauge.\<close>

definition prom_desc_of :: "MetricsConfig \<Rightarrow> prom_desc" where
  "prom_desc_of c = \<lparr>pd_Name = ''prom_'' @ mc_Name c, pd_ConstLabels = NewLabels (mc_ExtraLabels c)\<rparr>"

definition counter_descs :: "'r metric_api \<Rightarrow> MetricsConfig \<Rightarrow> prom_desc list" where
  "counter_descs api c = (if counter_of api c = None then [] else [prom_desc_of c])"

definition time_descs :: "MetricsConfig \<Rightarrow> prom_desc list" where
  "time_descs c = (if mc_Enabled c then [prom_desc_of c] else [])"

definition time_callbacks :: "'r metric_api \<Rightarrow> MetricsConfig \<Rightarrow> (string \<times> (string \<times> string) list) list" where
  "time_callbacks api c = (if mc_Enabled c \<and> api_Int64ObservableGauge api (''otel_'' @ mc_Name c) = None
     then [(mc_Name c, NewAttributes (mc_ExtraLabels c))] else [])"

definition metric_descs :: "'r metric_api \<Rightarrow> MetricsConfig \<Rightarrow> MetricsConfig \<Rightarrow> MetricsConfig \<Rightarrow> prom_desc list" where
  "metric_descs api attempts time successes =
     counter_descs api attempts @ time_descs time @ counter_descs api successes"

lemma NewCounterMetric_eq:
  assumes "PromRegistry ms = Some r"
  shows "NewCounterMetric api c (Some meter) ms = go_bind (register_all api (counter_descs api c) r)
    (\<lambda>r'. Inr (counter_of api c, ms\<lparr>PromRegistry := Some r'\<rparr>))"
proof -
  have "ms\<lparr>PromRegistry := Some r\<rparr> = ms" using assms [symmetric] by simp
  with assms show ?thesis
    by (simp add: NewCounterMetric_def counter_of_def counter_descs_def prom_desc_of_def reregister_def Let_def
      split: option.split sum.split)
qed

lemma NewResponseTimeMetric_eq:
  assumes "PromRegistry ms = Some r"
  shows "NewResponseTimeMetric api c (Some meter) ms = go_bind (register_all api (time_descs c) r)
    (\<lambda>r'. Inr (response_time_of api c, ms\<lparr>ms_callbacks := ms_callbacks ms @ time_callbacks api c, PromRegistry := Some r'\<rparr>))"
proof -
  have "ms\<lparr>PromRegistry := Some r\<rparr> = ms" using assms [symmetric] by simp
  with assms show ?thesis
    by (simp add: NewResponseTimeMetric_def response_time_of_def time_descs_def time_callbacks_def prom_desc_of_def
      reregister_def Let_def split: option.split sum.split)
qed

text \<open>The three metrics of a probe or a health endpoint, made one after the other.\<close>

lemma new_metrics_eq:
  assumes "PromRegistry ms = Some r"
  shows "go_bind (NewCounterMetric api c1 (Some meter) ms) (\<lambda>(a, ms).
      go_bind (NewResponseTimeMetric api c2 (Some meter) ms) (\<lambda>(t, ms).
      go_bind (NewCounterMetric api c3 (Some meter) ms) (\<lambda>(s, ms). k a t s ms)))
    = go_bind (register_all api (metric_descs api c1 c2 c3) r) (\<lambda>r'.
        k (counter_of api c1) (response_time_of api c2) (counter_of api c3)
          (ms\<lparr>ms_callbacks := ms_callbacks ms @ time_callbacks api c2, PromRegistry := Some r'\<rparr>))"
  using assms
  by (simp add: NewCounterMetric_eq NewResponseTimeMetric_eq metric_descs_def register_all_append
      go_bind_def split: sum.split)

text \<open>Making metrics changes neither the recorded calls nor the response times.\<close>

definition metrics_made :: "(string \<times> (string \<times> string) list) list \<Rightarrow> 'r \<Rightarrow> 'r metrics_state \<Rightarrow> 'r metrics_state" where
  "metrics_made callbacks r ms = ms\<lparr>ms_callbacks := ms_callbacks ms @ callbacks, PromRegistry := Some r\<rparr>"

lemma metrics_made_simps [simp]:
  "PromRegistry (metrics_made cs r ms) = Some r"
  "ms_events (metrics_made cs r ms) = ms_events ms"
  "ResponseTimes (metrics_made cs r ms) = ResponseTimes ms"
  "metrics_made ds r' (metrics_made cs r ms) = metrics_made (cs @ ds) r' ms"
  by (simp_all add: metrics_made_def)

lemma metrics_made_Nil: "PromRegistry ms = Some r \<Longrightarrow> metrics_made [] r ms = ms"
  by (simp add: metrics_made_def)

section \<open>What a measured call does to the metrics\<close>

text \<open>The specification of a pair of calls \<open>PreMeasurable\<close>, \<open>PostMeasurable\<close> around a piece of
  work, by what happened to the work: whether it was attempted, whether it succeeded, and how
  long it took.\<close>

definition count_events :: "CounterMetric option \<Rightarrow> metric_event list" where
  "count_events m = (case m of None \<Rightarrow> []
     | Some c \<Rightarrow> [OtelAdd (cm_OtelCounter c) (cm_OtelExtraAttributes c), PromInc (cm_PromCounter c)])"

definition time_events :: "ResponseTimeMetric option \<Rightarrow> duration \<Rightarrow> metric_event list" where
  "time_events m d = (case m of None \<Rightarrow> []
     | Some g \<Rightarrow> [PromSet (rt_PromGauge g) (Duration_Milliseconds d)])"

definition record_time :: "ResponseTimeMetric option \<Rightarrow> duration \<Rightarrow> 'r metrics_state
    \<Rightarrow> 'r metrics_state" where
  "record_time m d ms = (case m of None \<Rightarrow> ms
     | Some g \<Rightarrow> ms\<lparr>ResponseTimes := (ResponseTimes ms)(rt_OtelMetricName g \<mapsto> Some d)\<rparr>)"

definition attempt_effect :: "CounterMetric option \<Rightarrow> 'r metrics_state \<Rightarrow> 'r metrics_state" where
  "attempt_effect a ms = emit (count_events a) ms"

definition success_effect :: "ResponseTimeMetric option \<Rightarrow> CounterMetric option \<Rightarrow> duration
    \<Rightarrow> 'r metrics_state \<Rightarrow> 'r metrics_state" where
  "success_effect r s d ms = emit (time_events r d @ count_events s) (record_time r d ms)"

definition measured_effect :: "bool \<Rightarrow> bool \<Rightarrow> duration \<Rightarrow> CounterMetric option
    \<Rightarrow> ResponseTimeMetric option \<Rightarrow> CounterMetric option \<Rightarrow> 'r metrics_state \<Rightarrow> 'r metrics_state" where
  "measured_effect attempted succeeded d a r s ms =
     (let ms = (if attempted then attempt_effect a ms else ms)
      in if succeeded then success_effect r s d ms else ms)"

lemma emit_Nil [simp]: "emit [] ms = ms"
  by (simp add: emit_def)

lemma emit_emit [simp]: "emit es (emit ds ms) = emit (ds @ es) ms"
  by (simp add: emit_def)

lemma emit_sel [simp]:
  "ms_events (emit es ms) = ms_events ms @ es"
  "ResponseTimes (emit es ms) = ResponseTimes ms"
  "PromRegistry (emit es ms) = PromRegistry ms"
  "ms_callbacks (emit es ms) = ms_callbacks ms"
  by (simp_all add: emit_def)

lemma record_time_sel [simp]:
  "ms_events (record_time r d ms) = ms_events ms"
  "PromRegistry (record_time r d ms) = PromRegistry ms"
  "ms_callbacks (record_time r d ms) = ms_callbacks ms"
  by (simp_all add: record_time_def split: option.split)

lemma PreMeasurable_eq:
  "PreMeasurable a r now ms = (map_option (\<lambda>_. now) r, attempt_effect a ms)"
  by (simp add: PreMeasurable_def attempt_effect_def count_events_def split: option.split)

text \<open>The timer is nil exactly when there is no response time metric, so \<open>PostMeasurable\<close> does not
  dereference nil when it gets the timer of the matching \<open>PreMeasurable\<close>.\<close>

lemma PostMeasurable_eq:
  "PostMeasurable s r (map_option (\<lambda>_. start) r) success now ms =
     Inr (if success then success_effect r s (time_Sub now start) ms else ms)"
  by (auto simp: PostMeasurable_def success_effect_def time_events_def record_time_def
      count_events_def Let_def emit_def split: option.split)

lemmas measurable_eqs = PreMeasurable_eq PostMeasurable_eq

lemma measured_effect_events:
  "ms_events (measured_effect att suc d a r s ms) =
     ms_events ms @ (if att then count_events a else [])
       @ (if suc then time_events r d @ count_events s else [])"
  by (simp add: measured_effect_def attempt_effect_def success_effect_def)

lemma measured_effect_frame [simp]:
  "PromRegistry (measured_effect att suc d a r s ms) = PromRegistry ms"
  "ms_callbacks (measured_effect att suc d a r s ms) = ms_callbacks ms"
  by (simp_all add: measured_effect_def attempt_effect_def success_effect_def)

section \<open>The contract of measured calls\<close>

definition prom_incs :: "prom_desc \<Rightarrow> metric_event list \<Rightarrow> nat" where
  "prom_incs d evs = length (filter (\<lambda>e. e = PromInc d) evs)"

lemma prom_incs_simps [simp]:
  "prom_incs d [] = 0"
  "prom_incs d (xs @ ys) = prom_incs d xs + prom_incs d ys"
  by (simp_all add: prom_incs_def)

lemma prom_incs_events [simp]:
  "prom_incs d (count_events m) = (case m of None \<Rightarrow> 0
     | Some c \<Rightarrow> if cm_PromCounter c = d then 1 else 0)"
  "prom_incs d (time_events g t) = 0"
  by (auto simp: prom_incs_def count_events_def time_events_def split: option.split)

text \<open>
  The operations of the program that are measured (the \<open>act\<close> methods of the probe actions and the
  \<open>exec\<close> methods of the health queries) share a contract. What an execution meets in its
  environment (times, replies of servers) is the argument \<open>e\<close>; in a \<open>safe\<close> environment the
  operation does not panic, and all it does to the metrics is what \<open>measured_effect\<close> says.
\<close>

locale measured_call =
  fixes run :: "'e \<Rightarrow> CounterMetric option \<Rightarrow> ResponseTimeMetric option \<Rightarrow> CounterMetric option
      \<Rightarrow> 'r metrics_state \<Rightarrow> ('o \<times> 'r metrics_state) go"
    and safe :: "'e \<Rightarrow> bool"
    and attempted :: "'e \<Rightarrow> bool"
    and succeeded :: "'e \<Rightarrow> bool"
    and elapsed :: "'e \<Rightarrow> duration"
  assumes run_effect: "safe e \<Longrightarrow> \<exists>out. run e a r s ms =
      Inr (out, measured_effect (attempted e) (succeeded e) (elapsed e) a r s ms)"
    and succeeded_attempted: "succeeded e \<Longrightarrow> attempted e"
begin

definition run_all :: "CounterMetric option \<Rightarrow> ResponseTimeMetric option \<Rightarrow> CounterMetric option
    \<Rightarrow> 'e list \<Rightarrow> 'r metrics_state \<Rightarrow> 'r metrics_state go" where
  "run_all a r s es ms = go_for (\<lambda>e ms. map_sum id snd (run e a r s ms)) es ms"

lemma run_all_effect:
  assumes "\<And>e. e \<in> set es \<Longrightarrow> safe e"
  shows "run_all a r s es ms =
      Inr (fold (\<lambda>e. measured_effect (attempted e) (succeeded e) (elapsed e) a r s) es ms)"
  unfolding run_all_def
proof (rule go_for_fold)
  fix e ms
  assume "e \<in> set es"
  with assms have "safe e" by blast
  then obtain out where
    "run e a r s ms = Inr (out, measured_effect (attempted e) (succeeded e) (elapsed e) a r s ms)"
    using run_effect by blast
  then show "map_sum id snd (run e a r s ms) =
      Inr (measured_effect (attempted e) (succeeded e) (elapsed e) a r s ms)"
    by simp
qed

lemma fold_effect_incs:
  "prom_incs d (ms_events
     (fold (\<lambda>e. measured_effect (attempted e) (succeeded e) (elapsed e) a r s) es ms)) =
   prom_incs d (ms_events ms)
     + length (filter attempted es) * prom_incs d (count_events a)
     + length (filter succeeded es) * prom_incs d (count_events s)"
  by (induction es arbitrary: ms) (auto simp: measured_effect_events)

lemma run_all_counts:
  assumes "\<And>e. e \<in> set es \<Longrightarrow> safe e"
    and "cm_PromCounter ca \<noteq> cm_PromCounter cs"
  shows "\<exists>ms'. run_all (Some ca) r (Some cs) es ms = Inr ms'
    \<and> prom_incs (cm_PromCounter ca) (ms_events ms') =
        prom_incs (cm_PromCounter ca) (ms_events ms) + length (filter attempted es)
    \<and> prom_incs (cm_PromCounter cs) (ms_events ms') =
        prom_incs (cm_PromCounter cs) (ms_events ms) + length (filter succeeded es)"
  using assms run_all_effect [of es "Some ca" r "Some cs" ms] by (simp add: fold_effect_incs)

lemma successes_le_attempts: "length (filter succeeded es) \<le> length (filter attempted es)"
  using succeeded_attempted by (induction es) auto

end

text \<open>A bare pair of calls \<open>PreMeasurable\<close>, \<open>PostMeasurable\<close> satisfies the contract: the environment
  is the time before, the time after and the outcome of the work.\<close>

definition measured_pair :: "go_time \<times> go_time \<times> bool \<Rightarrow> CounterMetric option
    \<Rightarrow> ResponseTimeMetric option \<Rightarrow> CounterMetric option \<Rightarrow> 'r metrics_state
    \<Rightarrow> (unit \<times> 'r metrics_state) go" where
  "measured_pair e a r s ms =
     (let (start, stop, success) = e; (timer, ms) = PreMeasurable a r start ms
      in go_bind (PostMeasurable s r timer success stop ms) (\<lambda>ms. Inr ((), ms)))"

interpretation pair: measured_call measured_pair "\<lambda>_. True" "\<lambda>_. True" "\<lambda>(_, _, success). success"
    "\<lambda>(start, stop, _). time_Sub stop start"
  by unfold_locales
    (auto simp: measured_pair_def measurable_eqs measured_effect_def split: prod.split)

section \<open>Interleaved measurements\<close>

text \<open>Probes run in goroutines of their own, so the calls of several measurements of one metric
  interleave. An operation is a call of \<open>PreMeasurable\<close>, which opens a measurement, or the call of
  \<open>PostMeasurable\<close> that closes the \<open>i\<close>-th open one.\<close>

datatype measure_op = MeasurePre go_time | MeasurePost nat bool go_time

definition remove_nth :: "nat \<Rightarrow> 'a list \<Rightarrow> 'a list" where
  "remove_nth i xs = take i xs @ drop (Suc i) xs"

fun measure_ops :: "CounterMetric option \<Rightarrow> ResponseTimeMetric option \<Rightarrow> CounterMetric option
    \<Rightarrow> measure_op list \<Rightarrow> go_time option list \<Rightarrow> 'r metrics_state \<Rightarrow> 'r metrics_state go" where
  "measure_ops a r s [] timers ms = Inr ms"
| "measure_ops a r s (MeasurePre t # ops) timers ms =
     (let (timer, ms) = PreMeasurable a r t ms in measure_ops a r s ops (timers @ [timer]) ms)"
| "measure_ops a r s (MeasurePost i success t # ops) timers ms =
     (if i < length timers
      then go_bind (PostMeasurable s r (timers ! i) success t ms)
             (measure_ops a r s ops (remove_nth i timers))
      else Inl IndexOutOfRange)"

text \<open>Every \<open>MeasurePost\<close> closes a measurement that is open.\<close>

fun measure_wf :: "nat \<Rightarrow> measure_op list \<Rightarrow> bool" where
  "measure_wf n [] = True"
| "measure_wf n (MeasurePre t # ops) = measure_wf (Suc n) ops"
| "measure_wf n (MeasurePost i success t # ops) = (i < n \<and> measure_wf (n - 1) ops)"

fun is_pre :: "measure_op \<Rightarrow> bool" where
  "is_pre (MeasurePre t) = True"
| "is_pre (MeasurePost i success t) = False"

fun is_success :: "measure_op \<Rightarrow> bool" where
  "is_success (MeasurePre t) = False"
| "is_success (MeasurePost i success t) = success"

lemma length_remove_nth [simp]: "i < length xs \<Longrightarrow> length (remove_nth i xs) = length xs - 1"
  by (simp add: remove_nth_def)

lemma set_remove_nth: "x \<in> set (remove_nth i xs) \<Longrightarrow> x \<in> set xs"
  by (auto simp: remove_nth_def dest: in_set_takeD in_set_dropD)

lemma timer_shape: "r \<noteq> None \<longleftrightarrow> timer \<noteq> None \<Longrightarrow> \<exists>start. timer = map_option (\<lambda>_. start) r"
  by (cases r; cases timer) auto

lemma measure_ops_counts:
  assumes "measure_wf (length timers) ops"
    and "\<And>timer. timer \<in> set timers \<Longrightarrow> r \<noteq> None \<longleftrightarrow> timer \<noteq> None"
  shows "\<exists>ms'. measure_ops a r s ops timers ms = Inr ms' \<and> (\<forall>d. prom_incs d (ms_events ms') =
      prom_incs d (ms_events ms) + length (filter is_pre ops) * prom_incs d (count_events a)
        + length (filter is_success ops) * prom_incs d (count_events s))"
  using assms
proof (induction a r s ops timers ms rule: measure_ops.induct)
  case (1 a r s timers ms)
  then show ?case by simp
next
  case (2 a r s t ops timers ms)
  have "\<exists>ms'. measure_ops a r s ops (timers @ [map_option (\<lambda>_. t) r]) (attempt_effect a ms) = Inr ms'
      \<and> (\<forall>d. prom_incs d (ms_events ms') = prom_incs d (ms_events (attempt_effect a ms))
        + length (filter is_pre ops) * prom_incs d (count_events a)
        + length (filter is_success ops) * prom_incs d (count_events s))"
    using "2.prems" by (intro "2.IH" [OF PreMeasurable_eq [symmetric] refl]) auto
  then show ?case
    by (simp add: PreMeasurable_eq attempt_effect_def add_ac del: prom_incs_events)
next
  case (3 a r s i success t ops timers ms)
  then have i: "i < length timers" by simp
  with "3.prems"(2) have "r \<noteq> None \<longleftrightarrow> timers ! i \<noteq> None" by simp
  from timer_shape [OF this] obtain start where start: "timers ! i = map_option (\<lambda>_. start) r" ..
  let ?ms = "if success then success_effect r s (time_Sub t start) ms else ms"
  have "\<exists>ms'. measure_ops a r s ops (remove_nth i timers) ?ms = Inr ms'
      \<and> (\<forall>d. prom_incs d (ms_events ms') = prom_incs d (ms_events ?ms)
        + length (filter is_pre ops) * prom_incs d (count_events a)
        + length (filter is_success ops) * prom_incs d (count_events s))"
    proof (rule "3.IH" [OF i])
    show "measure_wf (length (remove_nth i timers)) ops" using "3.prems"(1) i by simp
    show "r \<noteq> None \<longleftrightarrow> timer \<noteq> None" if "timer \<in> set (remove_nth i timers)" for timer
      using "3.prems"(2) set_remove_nth [OF that] by blast
  qed
  then show ?case
    by (cases success)
      (simp_all add: i start PostMeasurable_eq success_effect_def prom_incs_events(2) add_ac
        del: prom_incs_events(1))
qed

lemma measure_wf_successes:
  "measure_wf n ops \<Longrightarrow> length (filter is_success ops) \<le> n + length (filter is_pre ops)"
  by (induction n ops rule: measure_wf.induct) auto

section \<open>Properties\<close>

text \<open>C10: However the measurements of concurrent probes interleave, \<open>PostMeasurable\<close> never
  dereferences a nil timer, the attempts counter grows by the number of measurements begun, the
  successes counter by the number that ended in success, and there are never more successes than
  attempts.\<close>

theorem measurements_interleaved:
  assumes "measure_wf 0 ops" and "cm_PromCounter ca \<noteq> cm_PromCounter cs"
  shows "\<exists>ms'. measure_ops (Some ca) r (Some cs) ops [] ms = Inr ms'
    \<and> prom_incs (cm_PromCounter ca) (ms_events ms') =
        prom_incs (cm_PromCounter ca) (ms_events ms) + length (filter is_pre ops)
    \<and> prom_incs (cm_PromCounter cs) (ms_events ms') =
        prom_incs (cm_PromCounter cs) (ms_events ms) + length (filter is_success ops)
    \<and> length (filter is_success ops) \<le> length (filter is_pre ops)"
proof -
  obtain ms' where "measure_ops (Some ca) r (Some cs) ops [] ms = Inr ms'"
    and "\<And>d. prom_incs d (ms_events ms') = prom_incs d (ms_events ms)
        + length (filter is_pre ops) * prom_incs d (count_events (Some ca))
        + length (filter is_success ops) * prom_incs d (count_events (Some cs))"
    using measure_ops_counts [of "[]" ops r "Some ca" "Some cs" ms] assms(1) by auto
  with assms(2) measure_wf_successes [OF assms(1)] show ?thesis by (intro exI [of _ ms']) simp
qed

definition example_counter :: "string \<Rightarrow> CounterMetric" where
  "example_counter n = \<lparr>cm_OtelCounter = ''otel_'' @ n, cm_OtelExtraAttributes = [],
     cm_PromCounter = \<lparr>pd_Name = ''prom_'' @ n, pd_ConstLabels = Map.empty\<rparr>\<rparr>"

definition example_gauge :: "string \<Rightarrow> ResponseTimeMetric" where
  "example_gauge n = \<lparr>rt_OtelGauge = Some (''otel_'' @ n), rt_OtelExtraAttributes = [],
     rt_OtelMetricName = n, rt_PromGauge = \<lparr>pd_Name = ''prom_'' @ n, pd_ConstLabels = Map.empty\<rparr>\<rparr>"

definition empty_metrics :: "'r metrics_state" where
  "empty_metrics = \<lparr>ms_events = [], ResponseTimes = Map.empty, PromRegistry = None, ms_callbacks = []\<rparr>"

definition example_api :: "unit metric_api" where
  "example_api = \<lparr>api_Int64Counter = (\<lambda>n. None), api_Int64ObservableGauge = (\<lambda>n. None),
     api_Unregister = (\<lambda>d r. r), api_Register = (\<lambda>d r. Inr r)\<rparr>"

definition disabled_metric :: MetricsConfig where
  "disabled_metric = \<lparr>mc_Enabled = False, mc_Name = [], mc_ExtraLabels = []\<rparr>"

definition enabled_metric :: "string \<Rightarrow> MetricsConfig" where
  "enabled_metric n = \<lparr>mc_Enabled = True, mc_Name = n, mc_ExtraLabels = []\<rparr>"

lemma example_api_registers [simp]: "register_all example_api ds r = Inr r"
  by (induction ds) (simp_all add: example_api_def)

theorem measurements_interleaved_witness:
  "\<exists>ms' :: unit metrics_state.
     measure_ops (Some (example_counter ''a'')) (Some (example_gauge ''r'')) (Some (example_counter ''s''))
       [MeasurePre 10, MeasurePre 20, MeasurePost 1 True 30, MeasurePost 0 False 40] [] empty_metrics
     = Inr ms'
   \<and> prom_incs (cm_PromCounter (example_counter ''a'')) (ms_events ms') = 2
   \<and> prom_incs (cm_PromCounter (example_counter ''s'')) (ms_events ms') = 1"
proof -
  let ?ops = "[MeasurePre 10, MeasurePre 20, MeasurePost 1 True 30, MeasurePost 0 False 40]"
  have wf: "measure_wf 0 ?ops" by simp
  have ne: "cm_PromCounter (example_counter ''a'') \<noteq> cm_PromCounter (example_counter ''s'')"
    by (simp add: example_counter_def)
  have counts: "length (filter is_pre ?ops) = 2" "length (filter is_success ?ops) = 1"
    by simp_all
  from measurements_interleaved [OF wf ne, of "Some (example_gauge ''r'')" empty_metrics]
  show ?thesis unfolding counts by (simp add: empty_metrics_def numeral_2_eq_2 del: measure_ops.simps)
qed

text \<open>The calls that touch a response time, in the order in which they come: the end of a measurement
  that was begun at \<open>start\<close>, and a collection of OpenTelemetry, which runs the callback.\<close>

datatype time_op = MeasurementEnds go_time bool go_time | Collection

fun time_ops :: "ResponseTimeMetric \<Rightarrow> CounterMetric option \<Rightarrow> time_op list \<Rightarrow> 'r metrics_state \<Rightarrow> 'r metrics_state go" where
  "time_ops g s [] ms = Inr ms"
| "time_ops g s (MeasurementEnds start success now # ops) ms =
     go_bind (PostMeasurable s (Some g) (Some start) success now ms) (time_ops g s ops)"
| "time_ops g s (Collection # ops) ms =
     time_ops g s ops (snd (response_time_callback (rt_OtelMetricName g) (rt_OtelExtraAttributes g) ms))"

text \<open>What is observed: at a collection the time of the last success since the one before, if any.\<close>

fun collected :: "duration option \<Rightarrow> time_op list \<Rightarrow> duration list" where
  "collected t [] = []"
| "collected t (MeasurementEnds start success now # ops) = collected (if success then Some (time_Sub now start) else t) ops"
| "collected t (Collection # ops) = (case t of None \<Rightarrow> [] | Some d \<Rightarrow> [d]) @ collected None ops"

definition observations :: "metric_event list \<Rightarrow> metric_event list" where
  "observations evs = filter (\<lambda>e. \<exists>n v attrs. e = OtelObserve n v attrs) evs"

lemma observations_simps [simp]:
  "observations [] = []" "observations (xs @ ys) = observations xs @ observations ys"
  "observations [OtelObserve n v attrs] = [OtelObserve n v attrs]"
  "observations (count_events m) = []" "observations (time_events g d) = []"
  by (simp_all add: observations_def count_events_def time_events_def split: option.split)

text \<open>The entry of the map \<open>ResponseTimes\<close>, where a missing key reads as nil.\<close>

definition pending_time :: "string \<Rightarrow> 'r metrics_state \<Rightarrow> duration option" where
  "pending_time name ms = (case ResponseTimes ms name of None \<Rightarrow> None | Some t \<Rightarrow> t)"

lemma callback_pending:
  "response_time_callback name attrs ms = (if name = [] then (Some (ErrorString ''unset metric name''), ms)
     else case pending_time name ms of None \<Rightarrow> (None, ms)
       | Some d \<Rightarrow> (None, (emit [OtelObserve name (Duration_Milliseconds d) attrs] ms)
           \<lparr>ResponseTimes := (ResponseTimes ms)(name \<mapsto> None)\<rparr>))"
  by (simp add: response_time_callback_def pending_time_def split: option.split)

lemma time_ops_observe:
  assumes "rt_OtelMetricName g \<noteq> []"
  shows "\<exists>ms'. time_ops g s ops ms = Inr ms' \<and> observations (ms_events ms') = observations (ms_events ms)
    @ map (\<lambda>d. OtelObserve (rt_OtelMetricName g) (Duration_Milliseconds d) (rt_OtelExtraAttributes g))
        (collected (pending_time (rt_OtelMetricName g) ms) ops)"
proof (induction ops arbitrary: ms)
  case (Cons op ops)
  show ?case
  proof (cases op)
    case (MeasurementEnds start success now)
    let ?ms = "if success then success_effect (Some g) s (time_Sub now start) ms else ms"
    have "time_ops g s (op # ops) ms = time_ops g s ops ?ms"
      using PostMeasurable_eq [of s "Some g" start success now ms] by (simp add: MeasurementEnds)
    moreover have "observations (ms_events ?ms) = observations (ms_events ms)"
      "pending_time (rt_OtelMetricName g) ?ms = (if success then Some (time_Sub now start) else pending_time (rt_OtelMetricName g) ms)"
      by (simp_all add: success_effect_def pending_time_def record_time_def)
    ultimately show ?thesis using Cons [of ?ms] by (simp add: MeasurementEnds)
  next
    case Collection
    let ?ms = "snd (response_time_callback (rt_OtelMetricName g) (rt_OtelExtraAttributes g) ms)"
    have "pending_time (rt_OtelMetricName g) ?ms = None"
      using assms by (simp add: callback_pending pending_time_def split: option.split)
    moreover have "observations (ms_events ?ms) = observations (ms_events ms)
        @ map (\<lambda>d. OtelObserve (rt_OtelMetricName g) (Duration_Milliseconds d) (rt_OtelExtraAttributes g))
          (case pending_time (rt_OtelMetricName g) ms of None \<Rightarrow> [] | Some d \<Rightarrow> [d])"
      using assms by (simp add: callback_pending split: option.split)
    ultimately show ?thesis using Cons [of ?ms] by (simp add: Collection)
  qed
qed simp

lemma time_ops_unnamed:
  assumes "rt_OtelMetricName g = []"
  shows "\<exists>ms'. time_ops g s ops ms = Inr ms' \<and> observations (ms_events ms') = observations (ms_events ms)"
proof (induction ops arbitrary: ms)
  case (Cons op ops)
  show ?case
  proof (cases op)
    case (MeasurementEnds start success now)
    let ?ms = "if success then success_effect (Some g) s (time_Sub now start) ms else ms"
    have "time_ops g s (op # ops) ms = time_ops g s ops ?ms"
      using PostMeasurable_eq [of s "Some g" start success now ms] by (simp add: MeasurementEnds)
    moreover have "observations (ms_events ?ms) = observations (ms_events ms)" by (simp add: success_effect_def)
    ultimately show ?thesis using Cons [of ?ms] by simp
  next
    case Collection
    with Cons [of ms] assms show ?thesis by (simp add: callback_pending)
  qed
qed simp

text \<open>C30: What OpenTelemetry observes of a response time metric, over any sequence of ends of measurements
  and collections. A collection observes, in whole milliseconds, the response time of the last success
  since the collection before, and nothing if there was none: a response time is observed at most once, and
  one that is followed by another success before the next collection is overwritten and never observed. Of a
  metric with an empty name nothing is ever observed. No sequence panics.\<close>

theorem response_times_observed:
  "\<exists>ms'. time_ops g s ops ms = Inr ms'
    \<and> observations (ms_events ms') = observations (ms_events ms)
        @ (if rt_OtelMetricName g = [] then []
           else map (\<lambda>d. OtelObserve (rt_OtelMetricName g) (Duration_Milliseconds d) (rt_OtelExtraAttributes g))
             (collected (pending_time (rt_OtelMetricName g) ms) ops))"
  using time_ops_observe [of g s ops ms] time_ops_unnamed [of g s ops ms] by auto

end
