(* ===== verification/Queries.thy ===== *)
theory Queries
  imports Complex_Main Metrics
begin

text \<open>
  The queries of the package \<open>telemetry\<close> (\<open>InstantQuery\<close>, \<open>RangeQuery\<close> and \<open>handleQueryResult\<close> of
  \<open>src/src/bunny/telemetry/telemetry.go\<close>): how the result of a PromQL query becomes a verdict.

  The query engine is not part of the repository: what it answers is an argument. A result value
  carries its type and, for each of the conversions \<open>Scalar()\<close>, \<open>Vector()\<close>, \<open>Matrix()\<close> and
  \<open>String()\<close>, what that conversion returns, so that the branches for a failing conversion are
  part of the model.
\<close>

section \<open>Results of the engine\<close>

text \<open>A \<open>float64\<close>, as far as a comparison with one number needs it.\<close>

datatype float64 = NaN | PosInf | NegInf | Finite rat

fun float_eq :: "float64 \<Rightarrow> float64 \<Rightarrow> bool" where
  "float_eq (Finite x) (Finite y) = (x = y)"
| "float_eq PosInf PosInf = True"
| "float_eq NegInf NegInf = True"
| "float_eq _ _ = False"

definition one_point_zero :: float64 where
  "one_point_zero = Finite 1"

datatype ValueType = ValueTypeScalar | ValueTypeVector | ValueTypeMatrix | ValueTypeString
  | ValueTypeOther

text \<open>A native histogram; nothing reads what is in it.\<close>

datatype histogram = Histogram string

text \<open>A sample of a vector has a histogram (\<open>H\<close>, not nil) or a float (\<open>F\<close>); a series of a matrix
  has both a list of float points and a list of histogram points.\<close>

record promql_sample =
  sample_F :: float64
  sample_H :: "histogram option"

record promql_series =
  series_Floats :: "float64 list"
  series_Histograms :: "histogram list"

record promql_value =
  value_Type :: ValueType
  value_Scalar :: "go_error + float64"
  value_Vector :: "go_error + promql_sample list"
  value_Matrix :: "go_error + promql_series list"
  value_String :: string

record promql_result =
  result_Err :: "go_error option"
  result_Value :: "promql_value option"
  result_Warnings :: "string list"

section \<open>The verdict\<close>

text \<open>Go returns a pair of a boolean and an error, which is nil for success.\<close>

type_synonym verdict = "bool \<times> go_error option"

fun vector_verdict :: "promql_sample list \<Rightarrow> verdict" where
  "vector_verdict [] = (True, None)"
| "vector_verdict (sample # samples) =
     (case sample_H sample of
        None \<Rightarrow> if \<not> float_eq (sample_F sample) one_point_zero then (False, None)
               else vector_verdict samples
      | Some h \<Rightarrow> (False, Some (ErrorString ''histograms in vectors unsupported'')))"

text \<open>The inner loop, over the points of a series: \<open>None\<close> is falling through its end.\<close>

fun floats_verdict :: "float64 list \<Rightarrow> verdict option" where
  "floats_verdict [] = None"
| "floats_verdict (f # fs) =
     (if \<not> float_eq f one_point_zero then Some (False, None) else floats_verdict fs)"

fun matrix_verdict :: "promql_series list \<Rightarrow> verdict" where
  "matrix_verdict [] = (True, None)"
| "matrix_verdict (s # ss) =
     (case floats_verdict (series_Floats s) of Some v \<Rightarrow> v | None \<Rightarrow> matrix_verdict ss)"

definition string_verdict :: "string \<Rightarrow> verdict" where
  "string_verdict value =
     (let first = hd (split_on (CHR '' '') value) in
      if first = ''1'' \<or> first = ''1.0'' then (True, None)
      else if first = ''0'' \<or> first = ''0.0'' then (False, None)
      else (False, Some (ErrorString ''query result returned value that is neither 1 nor 0'')))"

text \<open>The \<open>switch\<close> over the type of the value.\<close>

definition value_verdict :: "promql_value \<Rightarrow> verdict" where
  "value_verdict value =
     (case value_Type value of
        ValueTypeScalar \<Rightarrow>
          (case value_Scalar value of
             Inl e \<Rightarrow> (False, Some (ErrorString ''error while converting to scalar''))
           | Inr v \<Rightarrow> (float_eq v one_point_zero, None))
      | ValueTypeVector \<Rightarrow>
          (case value_Vector value of
             Inl e \<Rightarrow> (False, Some (ErrorString ''error while converting to vector''))
           | Inr v \<Rightarrow> vector_verdict v)
      | ValueTypeMatrix \<Rightarrow>
          (case value_Matrix value of
             Inl e \<Rightarrow> (False, Some (ErrorString ''error while converting to matrix''))
           | Inr v \<Rightarrow> matrix_verdict v)
      | ValueTypeString \<Rightarrow> string_verdict (value_String value)
      | ValueTypeOther \<Rightarrow> (False, Some (ErrorString ''unknown type for result'')))"

definition handleQueryResult :: "promql_result \<Rightarrow> verdict go" where
  "handleQueryResult result =
     (case result_Err result of
        Some err \<Rightarrow> Inr (False, Some err)
      | None \<Rightarrow> go_bind (deref (result_Value result)) (\<lambda>value. Inr (value_verdict value)))"

section \<open>Running a query\<close>

text \<open>A database is known by its directory and the options it was opened with.\<close>

record tsdb_options =
  to_RetentionDuration :: go_int
  to_MinBlockDuration :: go_int
  to_MaxBlockDuration :: go_int

type_synonym prom_db = "string \<times> tsdb_options"

text \<open>The engine, given the database, gives the query or an error, and then the result of executing it
  before the deadline; it may panic. \<open>promQueryEngine\<close> is nil until telemetry is configured, and \<open>promDB\<close>
  is also nil when the database could not be opened.\<close>

type_synonym instant_engine = "prom_db option \<Rightarrow> go_time \<Rightarrow> string \<Rightarrow> go_time \<Rightarrow> (go_error + promql_result) go"
type_synonym range_engine =
  "prom_db option \<Rightarrow> go_time \<Rightarrow> string \<Rightarrow> go_time \<Rightarrow> go_time \<Rightarrow> duration \<Rightarrow> (go_error + promql_result) go"

definition telemetry_InstantQuery :: "instant_engine option \<Rightarrow> prom_db option \<Rightarrow> duration \<Rightarrow> string \<Rightarrow> go_time
    \<Rightarrow> go_time \<Rightarrow> verdict go" where
  "telemetry_InstantQuery promQueryEngine promDB timeout queryString instantTime now =
     (let deadline = time_Add now timeout in
      go_bind (deref promQueryEngine) (\<lambda>engine.
      go_bind (engine promDB deadline queryString instantTime) (\<lambda>reply.
        case reply of
          Inl err \<Rightarrow> Inr (False, Some err)
        | Inr result \<Rightarrow> handleQueryResult result)))"

definition telemetry_RangeQuery :: "range_engine option \<Rightarrow> prom_db option \<Rightarrow> duration \<Rightarrow> string \<Rightarrow> go_time \<Rightarrow> go_time
    \<Rightarrow> duration \<Rightarrow> go_time \<Rightarrow> verdict go" where
  "telemetry_RangeQuery promQueryEngine promDB timeout queryString startTime endTime interval now =
     (let deadline = time_Add now timeout in
      go_bind (deref promQueryEngine) (\<lambda>engine.
      go_bind (engine promDB deadline queryString startTime endTime interval) (\<lambda>reply.
        case reply of
          Inl err \<Rightarrow> Inr (False, Some err)
        | Inr result \<Rightarrow> handleQueryResult result)))"

section \<open>The loops as searches\<close>

definition bad_sample :: "promql_sample \<Rightarrow> bool" where
  "bad_sample s \<longleftrightarrow> sample_H s \<noteq> None \<or> \<not> float_eq (sample_F s) one_point_zero"

lemma vector_verdict_find:
  "vector_verdict xs = (case find bad_sample xs of
     None \<Rightarrow> (True, None)
   | Some s \<Rightarrow> (False, case sample_H s of None \<Rightarrow> None
        | Some h \<Rightarrow> Some (ErrorString ''histograms in vectors unsupported'')))"
  by (induction xs rule: vector_verdict.induct) (auto simp: bad_sample_def split: option.splits)

lemma vector_verdict_True: "vector_verdict xs = (True, None) \<longleftrightarrow> (\<forall>s \<in> set xs. \<not> bad_sample s)"
  by (induction xs rule: vector_verdict.induct) (auto simp: bad_sample_def split: option.splits)

lemma floats_verdict_eq:
  "floats_verdict fs =
     (if \<forall>f \<in> set fs. float_eq f one_point_zero then None else Some (False, None))"
  by (induction fs) auto

lemma matrix_verdict_eq:
  "matrix_verdict ss =
     (\<forall>s \<in> set ss. \<forall>f \<in> set (series_Floats s). float_eq f one_point_zero, None)"
  by (induction ss) (auto simp: floats_verdict_eq)

lemma string_verdict_True:
  "string_verdict v = (True, None) \<longleftrightarrow> takeWhile (\<lambda>c. c \<noteq> CHR '' '') v \<in> {''1'', ''1.0''}"
  by (simp add: string_verdict_def hd_split_on Let_def)

text \<open>When a value counts as success.\<close>

definition all_ones :: "promql_value \<Rightarrow> bool" where
  "all_ones v \<longleftrightarrow> (case value_Type v of
     ValueTypeScalar \<Rightarrow> (\<exists>x. value_Scalar v = Inr x \<and> float_eq x one_point_zero)
   | ValueTypeVector \<Rightarrow> (\<exists>xs. value_Vector v = Inr xs
       \<and> (\<forall>s \<in> set xs. sample_H s = None \<and> float_eq (sample_F s) one_point_zero))
   | ValueTypeMatrix \<Rightarrow> (\<exists>ss. value_Matrix v = Inr ss
       \<and> (\<forall>s \<in> set ss. \<forall>f \<in> set (series_Floats s). float_eq f one_point_zero))
   | ValueTypeString \<Rightarrow> takeWhile (\<lambda>c. c \<noteq> CHR '' '') (value_String v) \<in> {''1'', ''1.0''}
   | ValueTypeOther \<Rightarrow> False)"

lemma value_verdict_True: "value_verdict v = (True, None) \<longleftrightarrow> all_ones v"
  by (simp add: value_verdict_def all_ones_def vector_verdict_True bad_sample_def
      matrix_verdict_eq string_verdict_True split: ValueType.split sum.split) 

lemma value_verdict_shape: "fst (value_verdict v) \<Longrightarrow> snd (value_verdict v) = None"
  by (auto simp: value_verdict_def vector_verdict_find matrix_verdict_eq string_verdict_def Let_def
      split: ValueType.splits sum.splits option.splits if_splits)

lemma value_verdict_eq_True: "value_verdict v = (True, e) \<longleftrightarrow> e = None \<and> all_ones v"
  using value_verdict_shape [of v] value_verdict_True [of v] by auto

lemma handleQueryResult_eq_Inr:
  "handleQueryResult r = Inr w \<longleftrightarrow>
     (case result_Err r of Some err \<Rightarrow> w = (False, Some err)
      | None \<Rightarrow> \<exists>v. result_Value r = Some v \<and> w = value_verdict v)"
  by (cases "result_Value r") (auto simp: handleQueryResult_def split: option.split)

section \<open>Properties\<close>

text \<open>C15: A query result counts as success exactly when the engine reported no error and every
  value of it is 1.0: the scalar; every sample of the vector, none of which may be a histogram;
  every float point of every series of the matrix; the first word of the string, written 1 or 1.0.
  An empty vector or matrix counts as success, and so does a matrix that has only histogram
  points. Success never comes with an error.\<close>

theorem query_success_iff_all_ones:
  "handleQueryResult r = Inr (True, e) \<longleftrightarrow>
     e = None \<and> result_Err r = None \<and> (\<exists>v. result_Value r = Some v \<and> all_ones v)"
  by (cases "result_Err r")
    (auto simp: handleQueryResult_eq_Inr value_verdict_eq_True
      eq_commute [of "(True, e)" "value_verdict _"])

text \<open>A vector is read from the left: the first sample that is a histogram or is not 1.0
  decides. If it is a histogram the query fails with an error, otherwise it is false without an
  error, whatever comes after it; only a vector without such a sample is true.\<close>

theorem vector_first_bad_sample_decides:
  assumes "result_Err r = None" and "result_Value r = Some v"
    and "value_Type v = ValueTypeVector" and "value_Vector v = Inr xs"
  shows "handleQueryResult r = Inr (case find bad_sample xs of
      None \<Rightarrow> (True, None)
    | Some s \<Rightarrow> (False, if sample_H s = None then None
        else Some (ErrorString ''histograms in vectors unsupported'')))"
  using assms
  by (simp add: handleQueryResult_def value_verdict_def vector_verdict_find split: option.split)

definition vector_result :: "promql_sample list \<Rightarrow> promql_result" where
  "vector_result xs = \<lparr>result_Err = None, result_Value = Some \<lparr>value_Type = ValueTypeVector,
     value_Scalar = Inl (ErrorString []), value_Vector = Inr xs, value_Matrix = Inl (ErrorString []),
     value_String = []\<rparr>, result_Warnings = []\<rparr>"

theorem vector_first_bad_sample_decides_witness:
  "handleQueryResult (vector_result [\<lparr>sample_F = Finite 1, sample_H = None\<rparr>,
       \<lparr>sample_F = Finite 0, sample_H = None\<rparr>, \<lparr>sample_F = Finite 0, sample_H = Some (Histogram [])\<rparr>])
     = Inr (False, None)"
  using vector_first_bad_sample_decides [OF _ _ _ _, of "vector_result
      [\<lparr>sample_F = Finite 1, sample_H = None\<rparr>, \<lparr>sample_F = Finite 0, sample_H = None\<rparr>,
       \<lparr>sample_F = Finite 0, sample_H = Some (Histogram [])\<rparr>]"]
  by (simp add: vector_result_def bad_sample_def one_point_zero_def)

end
