(* ===== verification/Telemetry.thy ===== *)
theory Telemetry
  imports Queries
begin

text \<open>
  The goroutine of the package \<open>telemetry\<close> (\<open>configureTelemetry\<close> and \<open>GoTelemetry\<close> of
  \<open>src/src/bunny/telemetry/telemetry.go\<close>): on every configuration it makes a new metrics registry,
  database, query engine and pair of OpenTelemetry providers, and then tells the waiting packages
  that they may go on.

  The libraries it configures are arguments, collected in the record \<open>telemetry_env\<close>; what the
  code hands to them (options, exporters, paths) is computed by the model. A provider is known by
  a number, so that one can see which ones are shut down.
\<close>

section \<open>What is handed to the libraries\<close>

record engine_opts =
  op_MaxSamples :: go_int
  op_Timeout :: duration
  op_LookbackDelta :: duration
  op_EnableAtModifier :: bool
  op_EnableNegativeOffset :: bool
  op_EnablePerStepStats :: bool

text \<open>Options of the providers: a reader that collects periodically (with an explicit interval or
  the library's own), a reader that is scraped, a batcher for spans, and the resource.\<close>

datatype metric_option =
    PeriodicReader string "duration option"
  | ScrapedReader string
  | MetricResource string

datatype trace_option = Batcher string | TraceResource string

datatype propagator = TraceContext | Baggage

record provider_state =
  meterProvider :: "(nat \<times> metric_option list) option"
  traceProvider :: "(nat \<times> trace_option list) option"
  providers_created :: nat
  providers_shutdown :: "nat list"
  textMapPropagator :: "propagator list"

record telemetry_state =
  telemetryConfig :: "TelemetryConfig option"
  promDB :: "prom_db option"
  promQueryEngine :: "engine_opts option"
  ts_providers :: provider_state

text \<open>The environment: the temporary directory that \<open>os.MkdirTemp\<close> gives, a fresh registry
  (with the collectors in it that the Go runtime, the process, the database and the engine put there), and
  the errors of the libraries, where that of an exporter also depends on its place in the list.\<close>

record 'r telemetry_env =
  env_MkdirTemp :: "go_error + string"
  env_NewRegistry :: 'r
  env_tsdb_Open :: "string \<Rightarrow> tsdb_options \<Rightarrow> go_error option"
  env_NewActiveQueryTracker :: "string \<Rightarrow> go_int \<Rightarrow> go_error option"
  env_exporter_New :: "nat \<Rightarrow> string \<Rightarrow> go_error option"

section \<open>Exporters\<close>

type_synonym provider_options = "metric_option list \<times> trace_option list"

definition one_second :: duration where
  "one_second = 1000000000"

text \<open>One iteration of the loop over the configured exporter names. An exporter that cannot be
  created is skipped, and so is a name that is not known.\<close>

definition add_exporter :: "(string \<Rightarrow> go_error option) \<Rightarrow> string \<Rightarrow> provider_options
    \<Rightarrow> provider_options" where
  "add_exporter new_err name opts =
     (case opts of (metricOptions, traceOptions) \<Rightarrow>
      if name = ''stdoutmetric'' then
        (case new_err name of Some err \<Rightarrow> opts
         | None \<Rightarrow> (metricOptions @ [PeriodicReader name (Some one_second)], traceOptions))
      else if name = ''prometheus'' then
        (case new_err name of Some err \<Rightarrow> opts
         | None \<Rightarrow> (metricOptions @ [ScrapedReader name], traceOptions))
      else if name = ''otlpmetrichttp'' then
        (case new_err name of Some err \<Rightarrow> opts
         | None \<Rightarrow> (metricOptions @ [PeriodicReader name None], traceOptions))
      else if name = ''otlpmetricgrpc'' then
        (case new_err name of Some err \<Rightarrow> opts
         | None \<Rightarrow> (metricOptions @ [PeriodicReader name None], traceOptions))
      else if name = ''stdouttrace'' then
        (case new_err name of Some err \<Rightarrow> opts
         | None \<Rightarrow> (metricOptions, traceOptions @ [Batcher name]))
      else if name = ''otlptracehttp'' then
        (case new_err name of Some err \<Rightarrow> opts
         | None \<Rightarrow> (metricOptions, traceOptions @ [Batcher name]))
      else if name = ''otlptracegrpc'' then
        (case new_err name of Some err \<Rightarrow> opts
         | None \<Rightarrow> (metricOptions, traceOptions @ [Batcher name]))
      else opts)"

definition exporter_options :: "(nat \<Rightarrow> string \<Rightarrow> go_error option) \<Rightarrow> string list \<Rightarrow> provider_options" where
  "exporter_options new_err names =
     fold (\<lambda>(i, name). add_exporter (new_err i) name) (enumerate 0 names) ([], [])"

section \<open>Configuration\<close>

definition tsdb_path :: "'r telemetry_env \<Rightarrow> TelemetryConfig \<Rightarrow> string go" where
  "tsdb_path env tc =
     (if pr_TSDBPath (te_Prometheus tc) = []
      then (case env_MkdirTemp env of Inl err \<Rightarrow> Inl (ExplicitPanic err) | Inr path \<Rightarrow> Inr path)
      else Inr (pr_TSDBPath (te_Prometheus tc)))"

definition tsdb_options_of :: "TelemetryConfig \<Rightarrow> tsdb_options" where
  "tsdb_options_of tc = (let opt = pr_TSDBOptions (te_Prometheus tc) in
     \<lparr>to_RetentionDuration = ts_RetentionDurationMilliseconds opt,
      to_MinBlockDuration = ts_MinBlockDurationMilliseconds opt,
      to_MaxBlockDuration = ts_MaxBlockDurationMilliseconds opt\<rparr>)"

definition engine_opts_of :: "TelemetryConfig \<Rightarrow> engine_opts" where
  "engine_opts_of tc = (let opt = pq_EngineOptions (pr_PromQL (te_Prometheus tc)) in
     \<lparr>op_MaxSamples = eo_MaxSamples opt,
      op_Timeout = milliseconds (eo_TimeoutMilliseconds opt),
      op_LookbackDelta = milliseconds (eo_LookbackDeltaMilliseconds opt),
      op_EnableAtModifier = True, op_EnableNegativeOffset = True, op_EnablePerStepStats = True\<rparr>)"

text \<open>The closure given to the engine reads the package variable when it is called.\<close>

definition NoStepSubqueryIntervalFn :: "telemetry_state \<Rightarrow> int \<Rightarrow> int go" where
  "NoStepSubqueryIntervalFn st rangeMillis =
     go_bind (deref (telemetryConfig st)) (\<lambda>tc. Inr (Duration_Milliseconds (milliseconds
       (eo_NoStepSubqueryIntervalMilliseconds (pq_EngineOptions (pr_PromQL (te_Prometheus tc)))))))"

text \<open>Making the providers and registering them as the global ones. The providers of an earlier
  configuration are not shut down.\<close>

definition new_providers :: "provider_options \<Rightarrow> provider_state \<Rightarrow> provider_state" where
  "new_providers opts ps =
     (case opts of (metricOptions, traceOptions) \<Rightarrow>
      ps\<lparr>textMapPropagator := [TraceContext, Baggage],
         meterProvider := Some (providers_created ps, metricOptions @ [MetricResource ''bunny'']),
         traceProvider := Some (providers_created ps + 1, traceOptions @ [TraceResource ''bunny'']),
         providers_created := providers_created ps + 2\<rparr>)"

text \<open>\<open>configureTelemetry\<close> up to the notifications, which the caller gets as the values to send to
  the registered stage channels, in order.\<close>

definition configureTelemetry :: "'r telemetry_env \<Rightarrow> nat \<Rightarrow> telemetry_state \<Rightarrow> 'r metrics_state
    \<Rightarrow> (telemetry_state \<times> 'r metrics_state \<times> (nat \<times> ConfigStage) list) go" where
  "configureTelemetry env configStageChannels st ms =
     go_bind (deref (telemetryConfig st)) (\<lambda>tc.
     go_bind (tsdb_path env tc) (\<lambda>path.
       let ms = ms\<lparr>PromRegistry := Some (env_NewRegistry env)\<rparr>;
           opts = tsdb_options_of tc;
           st = st\<lparr>promDB := (case env_tsdb_Open env path opts of Some err \<Rightarrow> None
                                | None \<Rightarrow> Some (path, opts))\<rparr>
       in case env_NewActiveQueryTracker env path (pq_MaxConcurrentQueries (pr_PromQL (te_Prometheus tc)))
          of Some err \<Rightarrow> Inl (ExplicitPanic err)
           | None \<Rightarrow>
             (let st = st\<lparr>promQueryEngine := Some (engine_opts_of tc)\<rparr>;
                  st = st\<lparr>ts_providers := new_providers
                       (exporter_options (env_exporter_New env) (ot_Exporters (te_OpenTelemetry tc)))
                       (ts_providers st)\<rparr>
              in Inr (st, ms,
                   map (\<lambda>i. (i, ConfigStageTelemetryCompleted)) [0 ..< configStageChannels]))))"

section \<open>The goroutine\<close>

definition shutdown_provider :: "(nat \<times> 'o) option \<Rightarrow> provider_state \<Rightarrow> provider_state go" where
  "shutdown_provider p ps = go_bind (deref p) (\<lambda>(i, _).
     Inr (ps\<lparr>providers_shutdown := providers_shutdown ps @ [i]\<rparr>))"

datatype telemetry_event = TelemetryConfigUpdate BunnyConfig | TelemetryConfigClosed | TelemetrySignal

fun GoTelemetry_step :: "'r telemetry_env \<Rightarrow> nat \<Rightarrow> telemetry_event \<Rightarrow> telemetry_state
    \<Rightarrow> 'r metrics_state
    \<Rightarrow> (loop_control \<times> telemetry_state \<times> 'r metrics_state \<times> (nat \<times> ConfigStage) list) go" where
  "GoTelemetry_step env chans (TelemetryConfigUpdate c) st ms =
     go_bind (configureTelemetry env chans (st\<lparr>telemetryConfig := Some (Telemetry c)\<rparr>) ms)
       (\<lambda>(st, ms, sends). Inr (Continue, st, ms, sends))"
| "GoTelemetry_step env chans TelemetryConfigClosed st ms = Inr (Continue, st, ms, [])"
| "GoTelemetry_step env chans TelemetrySignal st ms =
     go_bind (shutdown_provider (meterProvider (ts_providers st)) (ts_providers st)) (\<lambda>ps.
     go_bind (shutdown_provider (traceProvider (ts_providers st)) ps) (\<lambda>ps.
       Inr (Return, st\<lparr>ts_providers := ps\<rparr>, ms, [])))"

definition initial_telemetry_state :: telemetry_state where
  "initial_telemetry_state = \<lparr>telemetryConfig = None, promDB = None, promQueryEngine = None,
     ts_providers = \<lparr>meterProvider = None, traceProvider = None, providers_created = 0,
       providers_shutdown = [], textMapPropagator = []\<rparr>\<rparr>"

text \<open>The loop on a sequence of received values, each with the environment it is handled in.\<close>

fun GoTelemetry_loop :: "nat \<Rightarrow> ('r telemetry_env \<times> telemetry_event) list \<Rightarrow> telemetry_state
    \<Rightarrow> 'r metrics_state
    \<Rightarrow> (loop_control \<times> telemetry_state \<times> 'r metrics_state \<times> (nat \<times> ConfigStage) list) go" where
  "GoTelemetry_loop chans [] st ms = Inr (Continue, st, ms, [])"
| "GoTelemetry_loop chans ((env, e) # es) st ms =
     go_bind (GoTelemetry_step env chans e st ms) (\<lambda>(ctl, st, ms, sends1).
       case ctl of
         Return \<Rightarrow> Inr (Return, st, ms, sends1)
       | Continue \<Rightarrow> go_bind (GoTelemetry_loop chans es st ms) (\<lambda>(ctl, st, ms, sends2).
           Inr (ctl, st, ms, sends1 @ sends2)))"

section \<open>Lemmas\<close>

text \<open>Which option an exporter name stands for.\<close>

definition metric_exporter :: "string \<Rightarrow> metric_option option" where
  "metric_exporter name =
     (if name = ''stdoutmetric'' then Some (PeriodicReader name (Some one_second))
      else if name = ''prometheus'' then Some (ScrapedReader name)
      else if name \<in> {''otlpmetrichttp'', ''otlpmetricgrpc''} then Some (PeriodicReader name None)
      else None)"

definition trace_exporter :: "string \<Rightarrow> trace_option option" where
  "trace_exporter name =
     (if name \<in> {''stdouttrace'', ''otlptracehttp'', ''otlptracegrpc''} then Some (Batcher name)
      else None)"

lemma add_exporter_eq:
  "add_exporter err name (mo, to) =
     (if err name \<noteq> None then (mo, to)
      else (mo @ (case metric_exporter name of None \<Rightarrow> [] | Some x \<Rightarrow> [x]),
            to @ (case trace_exporter name of None \<Rightarrow> [] | Some x \<Rightarrow> [x])))"
  by (simp add: add_exporter_def metric_exporter_def trace_exporter_def split: option.split)

lemma fold_add_exporter:
  "fold (\<lambda>(i, name). add_exporter (err i) name) ins (mo, to) =
     (mo @ List.map_filter metric_exporter (map snd (filter (\<lambda>(i, n). err i n = None) ins)),
      to @ List.map_filter trace_exporter (map snd (filter (\<lambda>(i, n). err i n = None) ins)))"
  by (induction ins arbitrary: mo to)
    (auto simp: add_exporter_eq List.map_filter_simps split: option.split)

lemma configureTelemetry_InrD:
  assumes "configureTelemetry env n st ms = Inr (st', ms', sends)"
  shows "PromRegistry ms' = Some (env_NewRegistry env)" and "promQueryEngine st' \<noteq> None"
    and "meterProvider (ts_providers st') \<noteq> None" and "traceProvider (ts_providers st') \<noteq> None"
    and "sends = map (\<lambda>i. (i, ConfigStageTelemetryCompleted)) [0 ..< n]"
    and "telemetryConfig st' = telemetryConfig st"
  using assms
  by (auto simp: configureTelemetry_def go_bind_eq_Inr new_providers_def Let_def
      split: option.splits prod.splits)

lemma configureTelemetry_providers:
  assumes "configureTelemetry env n st ms = Inr (st', ms', sends)"
  shows "providers_created (ts_providers st') = providers_created (ts_providers st) + 2"
    and "providers_shutdown (ts_providers st') = providers_shutdown (ts_providers st)"
    and "map_option fst (meterProvider (ts_providers st')) = Some (providers_created (ts_providers st))"
    and "map_option fst (traceProvider (ts_providers st')) =
           Some (providers_created (ts_providers st) + 1)"
  using assms
  by (auto simp: configureTelemetry_def go_bind_eq_Inr new_providers_def Let_def
      split: option.splits prod.splits)

definition updates :: "('r telemetry_env \<times> BunnyConfig) list
    \<Rightarrow> ('r telemetry_env \<times> telemetry_event) list" where
  "updates ups = map (\<lambda>(env, c). (env, TelemetryConfigUpdate c)) ups"

lemma updates_Cons [simp]:
  "updates [] = []" "updates ((env, c) # ups) = (env, TelemetryConfigUpdate c) # updates ups"
  by (simp_all add: updates_def)

text \<open>One configuration update: it goes round the loop, makes two providers, shuts none down and
  notifies every channel.\<close>

lemma GoTelemetry_updateD:
  assumes "GoTelemetry_step env n (TelemetryConfigUpdate c) st ms = Inr (ctl, st1, ms1, sends)"
  shows "ctl = Continue \<and> length sends = n
    \<and> providers_created (ts_providers st1) = providers_created (ts_providers st) + 2
    \<and> providers_shutdown (ts_providers st1) = providers_shutdown (ts_providers st)
    \<and> map_option fst (meterProvider (ts_providers st1)) = Some (providers_created (ts_providers st))
    \<and> map_option fst (traceProvider (ts_providers st1)) =
        Some (providers_created (ts_providers st) + 1)"
  using assms configureTelemetry_InrD configureTelemetry_providers
  by (fastforce simp: go_bind_eq_Inr)

lemma GoTelemetry_signal:
  assumes "map_option fst (meterProvider (ts_providers st)) = Some i"
    and "map_option fst (traceProvider (ts_providers st)) = Some j"
  shows "GoTelemetry_step env n TelemetrySignal st ms = Inr (Return, st\<lparr>ts_providers :=
      (ts_providers st)\<lparr>providers_shutdown := providers_shutdown (ts_providers st) @ [i, j]\<rparr>\<rparr>, ms, [])"
  using assms by (auto simp: shutdown_provider_def)

lemma updates_then_signal:
  assumes "GoTelemetry_loop n (updates ups @ [(env, TelemetrySignal)]) st ms =
      Inr (ctl, st', ms', sends)"
    and "map_option fst (meterProvider (ts_providers st)) = Some k"
    and "map_option fst (traceProvider (ts_providers st)) = Some (k + 1)"
    and "providers_created (ts_providers st) = k + 2"
  shows "ctl = Return \<and> length sends = n * length ups
    \<and> providers_created (ts_providers st') = k + 2 + 2 * length ups
    \<and> providers_shutdown (ts_providers st') =
        providers_shutdown (ts_providers st) @ [k + 2 * length ups, k + 2 * length ups + 1]"
  using assms
proof (induction ups arbitrary: st ms k sends)
  case Nil
  then show ?case
    using GoTelemetry_signal [of st k "k + 1" env n ms]
    by (auto simp del: GoTelemetry_step.simps)
next
  case (Cons up ups)
  obtain env1 c where up: "up = (env1, c)" by fastforce
  from Cons.prems(1) obtain st1 ms1 sends1 sends2 where
    step: "GoTelemetry_step env1 n (TelemetryConfigUpdate c) st ms = Inr (Continue, st1, ms1, sends1)"
    and rest: "GoTelemetry_loop n (updates ups @ [(env, TelemetrySignal)]) st1 ms1 =
      Inr (ctl, st', ms', sends2)"
    and sends: "sends = sends1 @ sends2"
    by (auto simp: up go_bind_eq_Inr split: loop_control.splits)
  from GoTelemetry_updateD [OF step] Cons.IH [OF rest, of "k + 2"] Cons.prems(4) sends
  show ?case by simp
qed

section \<open>Properties\<close>

text \<open>C32: The exporters of the configuration become the options of the two providers in the order
  in which they are listed: each of the four metric exporters gives one reader, each of the three
  trace exporters one batcher; a name that is not known and an exporter that cannot be created
  give nothing and do not disturb the others.\<close>

theorem exporter_options_spec:
  "exporter_options new_err names =
     (let made = map snd (filter (\<lambda>(i, n). new_err i n = None) (enumerate 0 names))
      in (List.map_filter metric_exporter made, List.map_filter trace_exporter made))"
  by (simp add: exporter_options_def fold_add_exporter Let_def)

text \<open>Configuring telemetry panics only if a temporary directory is wanted and cannot be made or
  the query tracker cannot be created. Otherwise it always completes, even if the database cannot
  be opened or exporters fail, and when it notifies the registered channels the registry, the
  query engine and both providers exist.\<close>

theorem telemetry_ready_when_notified:
  assumes "telemetryConfig st = Some tc"
  shows "((\<forall>p. configureTelemetry env n st ms \<noteq> Inl p) \<longleftrightarrow>
      (\<exists>path. tsdb_path env tc = Inr path
        \<and> env_NewActiveQueryTracker env path (pq_MaxConcurrentQueries (pr_PromQL (te_Prometheus tc))) = None))
    \<and> (configureTelemetry env n st ms = Inr (st', ms', sends) \<longrightarrow>
      sends = map (\<lambda>i. (i, ConfigStageTelemetryCompleted)) [0 ..< n]
      \<and> PromRegistry ms' \<noteq> None \<and> promQueryEngine st' \<noteq> None
      \<and> meterProvider (ts_providers st') \<noteq> None \<and> traceProvider (ts_providers st') \<noteq> None)"
proof (intro conjI impI)
  show "(\<forall>p. configureTelemetry env n st ms \<noteq> Inl p) \<longleftrightarrow>
      (\<exists>path. tsdb_path env tc = Inr path
        \<and> env_NewActiveQueryTracker env path (pq_MaxConcurrentQueries (pr_PromQL (te_Prometheus tc))) = None)"
    using assms
    by (cases "tsdb_path env tc") (auto simp: configureTelemetry_def Let_def split: option.split)
qed (auto dest: configureTelemetry_InrD)

definition example_telemetry_env :: "unit telemetry_env" where
  "example_telemetry_env = \<lparr>env_MkdirTemp = Inr ''/tmp/bunny-tsdb-1'', env_NewRegistry = (),
     env_tsdb_Open = (\<lambda>p o'. None), env_NewActiveQueryTracker = (\<lambda>p n. None),
     env_exporter_New = (\<lambda>i n. None)\<rparr>"

theorem telemetry_ready_when_notified_witness:
  "\<exists>st' ms' sends. configureTelemetry example_telemetry_env 2
       (initial_telemetry_state\<lparr>telemetryConfig := Some zero_TelemetryConfig\<rparr>) empty_metrics =
     Inr (st', ms', sends)
   \<and> sends = [(0, ConfigStageTelemetryCompleted), (1, ConfigStageTelemetryCompleted)]
   \<and> PromRegistry ms' \<noteq> None"
proof -
  let ?st = "initial_telemetry_state\<lparr>telemetryConfig := Some zero_TelemetryConfig\<rparr>"
  have tc: "telemetryConfig ?st = Some zero_TelemetryConfig" by simp
  have "\<forall>p. configureTelemetry example_telemetry_env 2 ?st empty_metrics \<noteq> Inl p"
    using telemetry_ready_when_notified [OF tc, of example_telemetry_env 2 empty_metrics]
    by (simp add: tsdb_path_def zero_TelemetryConfig_def example_telemetry_env_def)
  then obtain st' ms' sends where
    r: "configureTelemetry example_telemetry_env 2 ?st empty_metrics = Inr (st', ms', sends)"
    by (metis old.sum.exhaust prod_cases3)
  with telemetry_ready_when_notified [OF tc, of example_telemetry_env 2 empty_metrics st' ms' sends]
  show ?thesis by (simp add: upt_rec numeral_2_eq_2)
qed

text \<open>C31: Every configuration update makes a new pair of providers, and shutting down on a signal
  reaches only the last pair: after \<open>k\<close> updates the \<open>2 * (k - 1)\<close> providers of the earlier
  configurations have never been shut down.\<close>

theorem only_last_providers_shut_down:
  assumes "GoTelemetry_loop n (updates ups @ [(env, TelemetrySignal)]) initial_telemetry_state ms =
      Inr (ctl, st', ms', sends)"
  shows "ctl = Return \<and> ups \<noteq> [] \<and> length sends = n * length ups
    \<and> providers_created (ts_providers st') = 2 * length ups
    \<and> providers_shutdown (ts_providers st') = [2 * (length ups - 1), 2 * (length ups - 1) + 1]"
proof (cases ups)
  case Nil
  with assms show ?thesis by (simp add: shutdown_provider_def initial_telemetry_state_def)
next
  case (Cons up ups')
  obtain env1 c where up: "up = (env1, c)" by fastforce
  from assms obtain st1 ms1 sends1 sends2 where
    step: "GoTelemetry_step env1 n (TelemetryConfigUpdate c) initial_telemetry_state ms =
      Inr (Continue, st1, ms1, sends1)"
    and rest: "GoTelemetry_loop n (updates ups' @ [(env, TelemetrySignal)]) st1 ms1 =
      Inr (ctl, st', ms', sends2)"
    and sends: "sends = sends1 @ sends2"
    by (auto simp: Cons up go_bind_eq_Inr split: loop_control.splits)
  from GoTelemetry_updateD [OF step] updates_then_signal [OF rest, of 0] sends Cons
  show ?thesis by (simp add: initial_telemetry_state_def)
qed

theorem only_last_providers_shut_down_witness:
  "\<exists>st' ms' sends.
     GoTelemetry_loop 2 (updates [(example_telemetry_env, generateDefaultConfig),
         (example_telemetry_env, generateDefaultConfig)] @ [(example_telemetry_env, TelemetrySignal)])
       initial_telemetry_state empty_metrics = Inr (Return, st', ms', sends)
   \<and> providers_created (ts_providers st') = 4 \<and> providers_shutdown (ts_providers st') = [2, 3]"
proof -
  let ?ups = "[(example_telemetry_env, generateDefaultConfig),
      (example_telemetry_env, generateDefaultConfig)]"
  have "\<exists>r. GoTelemetry_loop 2 (updates ?ups @ [(example_telemetry_env, TelemetrySignal)])
      initial_telemetry_state empty_metrics = Inr r"
    by (simp add: configureTelemetry_def example_telemetry_env_def generateDefaultConfig_def
        zero_TelemetryConfig_def tsdb_path_def shutdown_provider_def new_providers_def Let_def
        initial_telemetry_state_def exporter_options_def)
  then obtain ctl st' ms' sends where
    r: "GoTelemetry_loop 2 (updates ?ups @ [(example_telemetry_env, TelemetrySignal)])
      initial_telemetry_state empty_metrics = Inr (ctl, st', ms', sends)"
    by auto
  from only_last_providers_shut_down [OF r] r show ?thesis by simp
qed

end
