(* ===== verification/Expect.thy ===== *)
theory Expect
  imports Go_IO Config
begin

text \<open>
  The scripted conversation of a TCP probe (\<open>src/src/bunny/egress/expect.go\<close>): expect steps are
  built from their configuration and run in order over a buffered connection.

  The regular expression engine is the standard library's; it is an argument (which expressions
  compile, which strings they match). The span events of the steps are kept with the connection.
\<close>

record SendStep =
  ss_text :: string
  ss_delimiter :: char

record ReceiveStep =
  rs_regex :: string
  rs_delimiter :: char

datatype ExpectStep = ExpectSend SendStep | ExpectReceive ReceiveStep

text \<open>\<open>newExpectStep\<close>: \<open>None\<close> is the nil step that is returned after an error is logged. With neither
  half of the configuration set, the second branch dereferences a nil pointer.\<close>

definition newExpectStep :: "regexp_api \<Rightarrow> ExpectConfig \<Rightarrow> ExpectStep option go" where
  "newExpectStep re cfg =
     (if ec_Send cfg \<noteq> None \<and> ec_Receive cfg \<noteq> None then Inr None
      else case ec_Send cfg of
        Some send \<Rightarrow>
          if length (send_Delimiter send) \<noteq> 1 then Inr None
          else Inr (Some (ExpectSend \<lparr>ss_text = send_Text send, ss_delimiter = send_Delimiter send ! 0\<rparr>))
      | None \<Rightarrow>
          go_bind (deref (ec_Receive cfg)) (\<lambda>recv.
            if length (recv_Delimiter recv) \<noteq> 1 then Inr None
            else case re_Compile re (recv_RegEx recv) of
              Some err \<Rightarrow> Inr None
            | None \<Rightarrow> Inr (Some (ExpectReceive
                \<lparr>rs_regex = recv_RegEx recv, rs_delimiter = recv_Delimiter recv ! 0\<rparr>))))"

text \<open>What \<open>newExpectStep\<close> makes of every configuration: a step if exactly one half is set, the
  delimiter is one byte and, for a receive, the expression compiles; a nil step otherwise, and a nil
  dereference when neither half is set.\<close>

definition expect_step_of :: "regexp_api \<Rightarrow> ExpectConfig \<Rightarrow> ExpectStep option" where
  "expect_step_of re cfg = (case (ec_Send cfg, ec_Receive cfg) of
     (Some s, None) \<Rightarrow> (case send_Delimiter s of
         [d] \<Rightarrow> Some (ExpectSend \<lparr>ss_text = send_Text s, ss_delimiter = d\<rparr>) | _ \<Rightarrow> None)
   | (None, Some r) \<Rightarrow> (case (recv_Delimiter r, re_Compile re (recv_RegEx r)) of
         ([d], None) \<Rightarrow> Some (ExpectReceive \<lparr>rs_regex = recv_RegEx r, rs_delimiter = d\<rparr>) | _ \<Rightarrow> None)
   | _ \<Rightarrow> None)"

lemma newExpectStep_eq:
  "newExpectStep re cfg = (if ec_Send cfg = None \<and> ec_Receive cfg = None then Inl NilDereference
     else Inr (expect_step_of re cfg))"
  by (auto simp: newExpectStep_def expect_step_of_def deref_def length_Suc_conv split: option.splits list.splits)

record expect_io =
  io_conn :: buffered_conn
  io_events :: "string list"

definition AddEvent :: "string \<Rightarrow> expect_io \<Rightarrow> expect_io" where
  "AddEvent e io = io\<lparr>io_events := io_events io @ [e]\<rparr>"

definition SendStep_do :: "SendStep \<Rightarrow> expect_io \<Rightarrow> bool \<times> go_error option \<times> expect_io" where
  "SendStep_do step io =
     (let io = AddEvent (ss_text step) io;
          fullText = ss_text step @ string_of_byte (ss_delimiter step)
      in case write_and_flush False fullText (io_conn io) of
           (ok, err, b) \<Rightarrow> (ok, err, io\<lparr>io_conn := b\<rparr>))"

definition ReceiveStep_do :: "regexp_api \<Rightarrow> ReceiveStep \<Rightarrow> expect_io
    \<Rightarrow> bool \<times> go_error option \<times> expect_io" where
  "ReceiveStep_do re step io =
     (let io = AddEvent (rs_regex step) io
      in case bufio_ReadString (rs_delimiter step) (io_conn io) of
           (wordsSent, Some err, b) \<Rightarrow> (False, Some err, io\<lparr>io_conn := b\<rparr>)
         | (wordsSent, None, b) \<Rightarrow>
             (let trimmedWords = TrimSuffix wordsSent (string_of_byte (rs_delimiter step))
              in (re_MatchString re (rs_regex step) trimmedWords, None, io\<lparr>io_conn := b\<rparr>)))"

fun ExpectStep_do :: "regexp_api \<Rightarrow> ExpectStep \<Rightarrow> expect_io \<Rightarrow> bool \<times> go_error option \<times> expect_io" where
  "ExpectStep_do re (ExpectSend s) io = SendStep_do s io"
| "ExpectStep_do re (ExpectReceive r) io = ReceiveStep_do re r io"

fun expect_steps :: "regexp_api \<Rightarrow> ExpectStep list \<Rightarrow> expect_io \<Rightarrow> bool \<times> expect_io" where
  "expect_steps re [] io = (True, io)"
| "expect_steps re (step # steps) io =
     (case ExpectStep_do re step io of (successful, err, io) \<Rightarrow>
        if err \<noteq> None \<or> \<not> successful then (False, io)
        else expect_steps re steps io)"

definition expect :: "regexp_api \<Rightarrow> ExpectStep list \<Rightarrow> conn \<Rightarrow> bool \<times> expect_io" where
  "expect re steps c = expect_steps re steps \<lparr>io_conn = new_buffered_conn c, io_events = []\<rparr>"

section \<open>The conversation as it is meant\<close>

text \<open>The specification has no buffers: a script talks to a peer that delivers the bytes \<open>i\<close> and
  takes at most \<open>l\<close> bytes. The result is the verdict, the bytes not consumed, and everything
  written.\<close>

fun conversation :: "(string \<Rightarrow> string \<Rightarrow> bool) \<Rightarrow> nat option \<Rightarrow> ExpectStep list \<Rightarrow> string \<Rightarrow> string
    \<Rightarrow> bool \<times> string \<times> string" where
  "conversation match l [] i w = (True, i, w)"
| "conversation match l (ExpectSend s # steps) i w =
     (let w' = w @ ss_text s @ string_of_byte (ss_delimiter s)
      in if fits l w' then conversation match l steps i w' else (False, i, cut_at l w'))"
| "conversation match l (ExpectReceive r # steps) i w =
     (let line = takeWhile (\<lambda>c. c \<noteq> rs_delimiter r) i; i' = drop (Suc (length line)) i;
          trimmed = TrimSuffix (line @ [rs_delimiter r]) (string_of_byte (rs_delimiter r))
      in if rs_delimiter r \<in> set i \<and> match (rs_regex r) trimmed then conversation match l steps i' w
         else (False, i', w))"

definition wire_in :: "expect_io \<Rightarrow> string" where
  "wire_in io = conn_in (bc_conn (io_conn io))"

definition wire_out :: "expect_io \<Rightarrow> string" where
  "wire_out io = conn_out (bc_conn (io_conn io))"

definition wire_limit :: "expect_io \<Rightarrow> nat option" where
  "wire_limit io = limit (bc_conn (io_conn io))"

lemmas wire_defs = wire_in_def wire_out_def wire_limit_def AddEvent_def

lemma SendStep_do_spec:
  fixes s :: SendStep
  assumes "quiet (io_conn io)"
  defines "w \<equiv> wire_out io @ ss_text s @ string_of_byte (ss_delimiter s)"
  shows "\<exists>io'. SendStep_do s io = (if fits (wire_limit io) w then (True, None, io')
        else (False, Some (conn_out_err (bc_conn (io_conn io))), io'))
    \<and> wire_in io' = wire_in io \<and> wire_limit io' = wire_limit io
    \<and> wire_out io' = cut_at (wire_limit io) w \<and> (fits (wire_limit io) w \<longrightarrow> quiet (io_conn io'))"
proof -
  from write_and_flush_spec [OF assms(1), of False "ss_text s @ string_of_byte (ss_delimiter s)"]
  show ?thesis
    by (auto simp: SendStep_do_def wire_defs w_def same_peer_def)
qed

lemma ReceiveStep_do_spec:
  fixes r :: ReceiveStep
  assumes "quiet (io_conn io)"
  defines "line \<equiv> takeWhile (\<lambda>c. c \<noteq> rs_delimiter r) (wire_in io)"
  shows "\<exists>ok err io'. ReceiveStep_do re r io = (ok, err, io')
    \<and> (ok \<longleftrightarrow> rs_delimiter r \<in> set (wire_in io) \<and> re_MatchString re (rs_regex r)
          (TrimSuffix (line @ [rs_delimiter r]) (string_of_byte (rs_delimiter r))))
    \<and> (ok \<longrightarrow> err = None) \<and> quiet (io_conn io') \<and> wire_limit io' = wire_limit io
    \<and> wire_out io' = wire_out io \<and> wire_in io' = drop (Suc (length line)) (wire_in io)"
proof -
  have "rs_delimiter r \<notin> set (wire_in io) \<Longrightarrow> length (wire_in io) \<le> Suc (length line)"
    unfolding line_def by (subst takeWhile_eq_all_conv [THEN iffD2]) auto
  then show ?thesis using assms(1)
    by (auto simp: ReceiveStep_do_def bufio_ReadString_eq Let_def wire_defs line_def limit_def)
qed

lemma expect_steps_converse:
  assumes "quiet (io_conn io)"
  shows "\<exists>io'. expect_steps re steps io = (fst (conversation (re_MatchString re) (wire_limit io) steps (wire_in io) (wire_out io)), io')
    \<and> snd (conversation (re_MatchString re) (wire_limit io) steps (wire_in io) (wire_out io)) = (wire_in io', wire_out io')"
  using assms
proof (induction steps arbitrary: io)
  case (Cons step steps)
  show ?case
  proof (cases step)
    case (ExpectSend s)
    from SendStep_do_spec [OF Cons.prems, of s] obtain io' where io':
      "SendStep_do s io = (if fits (wire_limit io) (wire_out io @ ss_text s @ string_of_byte (ss_delimiter s))
         then (True, None, io') else (False, Some (conn_out_err (bc_conn (io_conn io))), io'))"
      "wire_in io' = wire_in io" "wire_limit io' = wire_limit io"
      "wire_out io' = cut_at (wire_limit io) (wire_out io @ ss_text s @ string_of_byte (ss_delimiter s))"
      "fits (wire_limit io) (wire_out io @ ss_text s @ string_of_byte (ss_delimiter s)) \<longrightarrow> quiet (io_conn io')"
      by blast
    with Cons.IH [of io'] ExpectSend show ?thesis by (auto simp: Let_def)
  next
    case (ExpectReceive r)
    from ReceiveStep_do_spec [OF Cons.prems, of re r] Cons.IH ExpectReceive show ?thesis
      by (fastforce simp: Let_def)
  qed
qed simp

lemma fits_conn [simp]: "fits (limit c) (conn_out c)"
  by (auto simp: fits_def limit_def split: option.split)

lemma expect_conversation:
  "(case expect re steps c of (ok, io) \<Rightarrow> (ok, wire_in io, wire_out io))
    = conversation (re_MatchString re) (limit c) steps (conn_in c) (conn_out c)"
proof -
  have "quiet (new_buffered_conn c)"
    by (simp add: quiet_def new_buffered_conn_def)
  then show ?thesis
    using expect_steps_converse [of "\<lparr>io_conn = new_buffered_conn c, io_events = []\<rparr>" re steps]
    by (cases "conversation (re_MatchString re) (limit c) steps (conn_in c) (conn_out c)")
      (auto simp: expect_def wire_defs new_buffered_conn_def)
qed

lemma fst_expect:
  "fst (expect re steps c) = fst (conversation (re_MatchString re) (limit c) steps (conn_in c) (conn_out c))"
  by (simp add: expect_conversation [symmetric] split: prod.split)

section \<open>Properties\<close>

text \<open>C4: Running an expect script over a connection with buffered reader and writer does what the
  unbuffered script does. On every connection the verdict of \<open>expect\<close> is that of the conversation
  (every text and delimiter could be sent, every line arrived and matched), exactly the bytes of
  the lines asked for are consumed, and the bytes on the wire are exactly the texts sent, in order,
  cut off at the point where writing fails.\<close>

theorem expect_refines_conversation:
  "(let (ok, io) = expect re steps c in (ok, wire_in io, wire_out io))
    = conversation (re_MatchString re) (limit c) steps (conn_in c) (conn_out c)"
  unfolding Let_def by (rule expect_conversation)

text \<open>A script that succeeds, and one whose last text is cut off on the wire.\<close>

lemma expect_example:
  "(let c = \<lparr>conn_in = ''pong;rest'', conn_in_err = ErrEOF, conn_out = [], conn_room = Some 9, conn_out_err = ErrEOF\<rparr>;
        ping = ExpectSend \<lparr>ss_text = ''ping'', ss_delimiter = CHR '';''\<rparr>;
        pong = ExpectReceive \<lparr>rs_regex = ''pong'', rs_delimiter = CHR '';''\<rparr>
    in (case expect equality_regexp [ping, pong] c of (ok, io) \<Rightarrow> (ok, wire_in io, wire_out io))
         = (True, ''rest'', ''ping;'')
     \<and> (case expect equality_regexp [ping, pong, ping] c of (ok, io) \<Rightarrow> (ok, wire_in io, wire_out io))
         = (False, ''rest'', ''ping;ping''))"
  unfolding Let_def expect_conversation
  by (simp add: limit_def fits_def cut_at_def Let_def equality_regexp_def TrimSuffix_def string_of_byte_def)

text \<open>Where the delimiter of a sent text ends up when it is read back.\<close>

lemma sent_bytes: "wire_out (snd (expect re [ExpectSend s] (wire []))) = ss_text s @ string_of_byte (ss_delimiter s)"
proof -
  have "limit (wire []) = None" by (simp add: wire_def limit_def)
  with expect_conversation [of re "[ExpectSend s]" "wire []"] show ?thesis
    by (auto simp: wire_def fits_def Let_def split: prod.splits)
qed

lemma string_of_byte_last:
  assumes "of_char d < (192 :: nat)"
  shows "\<exists>cs. string_of_byte d = cs @ [d] \<and> d \<notin> set cs"
proof (cases "of_char d < (128 :: nat)")
  case True
  then show ?thesis by (simp add: string_of_byte_def)
next
  case False
  define n where "n = (of_char d :: nat)"
  from False assms have n: "128 \<le> n" "n < 192" by (simp_all add: n_def)
  then have div: "n div 64 = 2" by (intro div_nat_eqI) simp_all
  then have "n mod 64 = n - 128" by (simp add: modulo_nat_def)
  then have "string_of_byte d = [char_of (194 :: nat), char_of n]"
    using n div by (simp add: string_of_byte_def n_def [symmetric] Let_def)
  moreover have "char_of n = d" by (simp add: n_def)
  moreover have "char_of (194 :: nat) \<noteq> d"
  proof
    assume "char_of (194 :: nat) = d"
    then have "(of_char (char_of (194 :: nat) :: char) :: nat) = n" by (simp add: n_def)
    then show False using n by simp
  qed
  ultimately show ?thesis by (intro exI [of _ "[char_of (194 :: nat)]"]) auto
qed

text \<open>C35: What a send step writes, a receive step with the same delimiter reads back: it compares its
  expression with exactly the text that was sent, for every delimiter byte below 0xC0 that does not
  occur in the text. (A delimiter byte from 0x80 on is written as two bytes, the last of which is the delimiter again
  up to 0xBF.)\<close>

theorem send_receive_roundtrip:
  assumes "d \<notin> set words" and "of_char d < (192 :: nat)"
  shows "fst (expect re [ExpectReceive \<lparr>rs_regex = x, rs_delimiter = d\<rparr>]
      (wire (wire_out (snd (expect re [ExpectSend \<lparr>ss_text = words, ss_delimiter = d\<rparr>] (wire []))))))
    \<longleftrightarrow> re_MatchString re x words"
proof -
  have arrived: "conn_in (wire i) = i" "limit (wire i) = None" for i by (simp_all add: wire_def limit_def)
  obtain cs where cs: "string_of_byte d = cs @ [d]" "d \<notin> set cs"
    using string_of_byte_last [OF assms(2)] by blast
  then have "takeWhile (\<lambda>c. c \<noteq> d) (words @ string_of_byte d) = words @ cs"
    using assms(1) by (simp add: takeWhile_append takeWhile_eq_all_conv)
  then have "TrimSuffix (takeWhile (\<lambda>c. c \<noteq> d) (words @ string_of_byte d) @ [d]) (string_of_byte d) = words"
    using TrimSuffix_append [of words "cs @ [d]"] by (simp add: cs)
  then show ?thesis
    using cs(1) by (simp add: fst_expect sent_bytes arrived Let_def)
qed

theorem send_receive_roundtrip_witness:
  "fst (expect equality_regexp [ExpectReceive \<lparr>rs_regex = ''ping'', rs_delimiter = CHR 0x80\<rparr>]
      (wire (wire_out (snd (expect equality_regexp [ExpectSend \<lparr>ss_text = ''ping'', ss_delimiter = CHR 0x80\<rparr>] (wire []))))))"
  using send_receive_roundtrip [of "CHR 0x80" "''ping''" equality_regexp "''ping''"] by (simp add: equality_regexp_def)

end
