(* ===== verification/Probes.thy ===== *)
theory Probes
  imports Metrics Expect
begin

text \<open>
  The probes of the package \<open>egress\<close>: \<open>probe.go\<close> and the four actions in \<open>probe-execaction.go\<close>,
  \<open>probe-grpcaction.go\<close>, \<open>probe-httpgetaction.go\<close> and \<open>probe-tcpsocketaction.go\<close> (all in
  \<open>src/src/bunny/egress\<close>): their configuration, and their \<open>act\<close> methods.

  An \<open>act\<close> method starts a goroutine; the model's \<open>act\<close> is the body of that goroutine. What it
  meets is the record \<open>act_env\<close>: the clock readings it makes, and what the operating system and
  the servers answer to the requests it sends. The answers are functions of everything the code
  hands over: program, arguments, environment, targets, deadlines, headers.
\<close>

section \<open>The environment of an execution\<close>

datatype serving_status = UNKNOWN | SERVING | NOT_SERVING | SERVICE_UNKNOWN

record http_transport =
  tr_InsecureSkipVerify :: bool
  tr_DisableKeepAlives :: bool
  tr_DisableCompression :: bool

record http_client =
  cl_Timeout :: duration
  cl_Transport :: http_transport

record http_request =
  hq_Method :: string
  hq_URL :: string
  hq_Close :: bool
  hq_Header :: "string \<rightharpoonup> string list"

text \<open>\<open>time.Now()\<close> for the deadline, in \<open>PreMeasurable\<close>, in \<open>time.Until\<close> and in \<open>PostMeasurable\<close>; the trace
  id of the new span; running a command; dialing and checking a gRPC server; building a request
  (which fails if the URL does not parse) and sending it; dialing a TCP server, which gives the
  connection as it behaves under a deadline.\<close>

record act_env =
  ae_now :: go_time
  ae_start :: go_time
  ae_until :: go_time
  ae_stop :: go_time
  ae_TraceID :: string
  ae_CombinedOutput :: "string \<Rightarrow> string list \<Rightarrow> string list \<Rightarrow> go_time \<Rightarrow> go_error option"
  ae_grpc_Dial :: "string \<Rightarrow> go_time \<Rightarrow> go_error option"
  ae_grpc_Check :: "string option \<Rightarrow> go_time \<Rightarrow> serving_status option \<times> go_error option"
  ae_NewRequest :: "string \<Rightarrow> go_error option"
  ae_http_Do :: "http_client \<Rightarrow> http_request \<Rightarrow> go_time \<Rightarrow> go_int option \<times> go_error option"
  ae_tcp_Dial :: "string \<Rightarrow> duration \<Rightarrow> go_error + (go_time \<Rightarrow> conn)"

text \<open>The span of a probe: its name, the attribute \<open>bunny-probe-name\<close>, its events and the status.\<close>

datatype span_code = CodeError | CodeOk

record span =
  sp_name :: string
  sp_probe :: string
  sp_events :: "string list"
  sp_status :: "(span_code \<times> string) option"

definition tracer_Start :: "string option \<Rightarrow> string \<Rightarrow> string \<Rightarrow> span go" where
  "tracer_Start tracer name probeName = go_bind (deref tracer) (\<lambda>_.
     Inr \<lparr>sp_name = name, sp_probe = probeName, sp_events = [], sp_status = None\<rparr>)"

definition SetStatus :: "span_code \<Rightarrow> string \<Rightarrow> span \<Rightarrow> span" where
  "SetStatus code message span = span\<lparr>sp_status := Some (code, message)\<rparr>"

definition JoinHostPort :: "string \<Rightarrow> string \<Rightarrow> string" where
  "JoinHostPort host port =
     (if CHR '':'' \<in> set host then ''['' @ host @ '']:'' @ port else host @ '':'' @ port)"

definition show_port :: "go_int \<Rightarrow> string" where
  "show_port port = show_int (sint port)"

section \<open>Exec\<close>

record ExecAction =
  xa_command :: "string list"
  xa_env :: "string list"
  xa_timeout :: duration

definition env_item :: "EnvConfig \<Rightarrow> string" where
  "env_item e = env_Name e @ ''='' @ env_Value e"

definition newExecAction :: "ExecActionConfig option \<Rightarrow> duration \<Rightarrow> ExecAction option" where
  "newExecAction execActionConfig timeout =
     map_option (\<lambda>cfg. \<lparr>xa_command = exec_Command cfg, xa_env = map env_item (exec_Env cfg),
       xa_timeout = timeout\<rparr>) execActionConfig"

definition trace_parent :: "string \<Rightarrow> string" where
  "trace_parent traceID = ''OTEL_CLI_FORCE_TRACE_ID='' @ traceID"

definition ExecAction_act :: "ExecAction \<Rightarrow> string \<Rightarrow> string option \<Rightarrow> act_env
    \<Rightarrow> CounterMetric option \<Rightarrow> ResponseTimeMetric option \<Rightarrow> CounterMetric option
    \<Rightarrow> 'r metrics_state \<Rightarrow> (span \<times> 'r metrics_state) go" where
  "ExecAction_act action probeName tracer env attemptsMetric responseTimeMetric successesMetric ms =
     (let timeoutTime = time_Add (ae_now env) (xa_timeout action) in
      go_bind (tracer_Start tracer ''exec-probe'' probeName) (\<lambda>span.
      let newEnvVars = xa_env action @ [trace_parent (ae_TraceID env)] in
      case xa_command action of
        [] \<Rightarrow> Inl IndexOutOfRange
      | program # args \<Rightarrow>
          (let (timerStart, ms) = PreMeasurable attemptsMetric responseTimeMetric (ae_start env) ms in
           case ae_CombinedOutput env program args newEnvVars timeoutTime of
             Some err \<Rightarrow>
               go_bind (PostMeasurable successesMetric responseTimeMetric timerStart False (ae_stop env) ms)
                 (\<lambda>ms. Inr (SetStatus CodeError ''probe failed - error while running command'' span, ms))
           | None \<Rightarrow>
               go_bind (PostMeasurable successesMetric responseTimeMetric timerStart True (ae_stop env) ms)
                 (\<lambda>ms. Inr (SetStatus CodeOk ''probe succeeded'' span, ms)))))"

section \<open>gRPC\<close>

record GRPCAction =
  ga_port :: go_int
  ga_service :: "string option"
  ga_timeout :: duration

definition newGRPCAction :: "GRPCActionConfig option \<Rightarrow> duration \<Rightarrow> GRPCAction option" where
  "newGRPCAction grpcActionConfig timeout =
     map_option (\<lambda>cfg. \<lparr>ga_port = grpc_Port cfg, ga_service = grpc_Service cfg,
       ga_timeout = timeout\<rparr>) grpcActionConfig"

definition GRPCAction_act :: "GRPCAction \<Rightarrow> string \<Rightarrow> string option \<Rightarrow> act_env
    \<Rightarrow> CounterMetric option \<Rightarrow> ResponseTimeMetric option \<Rightarrow> CounterMetric option
    \<Rightarrow> 'r metrics_state \<Rightarrow> (span \<times> 'r metrics_state) go" where
  "GRPCAction_act action probeName tracer env attemptsMetric responseTimeMetric successesMetric ms =
     (let timeoutTime = time_Add (ae_now env) (ga_timeout action) in
      go_bind (tracer_Start tracer ''grpc-probe'' probeName) (\<lambda>span.
      let (timerStart, ms) = PreMeasurable attemptsMetric responseTimeMetric (ae_start env) ms;
          target = JoinHostPort ''localhost'' (show_port (ga_port action))
      in case ae_grpc_Dial env target timeoutTime of
           Some err \<Rightarrow>
             go_bind (PostMeasurable successesMetric responseTimeMetric timerStart False (ae_stop env) ms)
               (\<lambda>ms. Inr (span, ms))
         | None \<Rightarrow>
             (let (response, err) = ae_grpc_Check env (ga_service action) timeoutTime;
                  message =
                    (if err \<noteq> None then ''probe failed - could not check grpc server''
                     else if response = None then ''probe failed - response is nil''
                     else if response \<noteq> Some SERVING then ''probe failed - rpc server is not serving''
                     else [])
              in if message \<noteq> []
                 then go_bind (PostMeasurable successesMetric responseTimeMetric timerStart False (ae_stop env) ms)
                        (\<lambda>ms. Inr (SetStatus CodeError message span, ms))
                 else go_bind (PostMeasurable successesMetric responseTimeMetric timerStart True (ae_stop env) ms)
                        (\<lambda>ms. Inr (SetStatus CodeOk ''probe succeeded'' span, ms)))))"

section \<open>HTTP GET\<close>

record HTTPGetAction =
  ha_headers :: "string \<rightharpoonup> string list"
  ha_url :: string
  ha_client :: http_client
  ha_timeout :: duration

definition newHTTPGetAction :: "HTTPGetActionConfig option \<Rightarrow> duration \<Rightarrow> HTTPGetAction option" where
  "newHTTPGetAction httpGetActionConfig timeout =
     (case httpGetActionConfig of
        None \<Rightarrow> None
      | Some cfg \<Rightarrow>
          (let host = (case http_Host cfg of None \<Rightarrow> ''localhost''
                       | Some h \<Rightarrow> if h \<noteq> [] then h else ''localhost'');
               scheme = (case http_Scheme cfg of None \<Rightarrow> ''http'' | Some s \<Rightarrow> ToLower s)
           in if scheme \<noteq> ''http'' \<and> scheme \<noteq> ''https'' then None
              else Some \<lparr>ha_headers = fold (\<lambda>h m. m(hh_Name h \<mapsto> hh_Value h)) (http_HTTPHeaders cfg) Map.empty,
                ha_url = scheme @ ''://'' @ host @ '':'' @ show_port (http_Port cfg) @ ''/'' @ http_Path cfg,
                ha_client = \<lparr>cl_Timeout = timeout, cl_Transport = \<lparr>tr_InsecureSkipVerify = True,
                  tr_DisableKeepAlives = True, tr_DisableCompression = True\<rparr>\<rparr>,
                ha_timeout = timeout\<rparr>))"

definition StatusOK :: go_int where
  "StatusOK = 200"

text \<open>The verdict on what \<open>client.Do\<close> returned; \<open>response.StatusCode\<close> is read when there is no
  error.\<close>

definition http_failed :: "go_int option \<times> go_error option \<Rightarrow> bool go" where
  "http_failed reply = (case reply of
     (response, Some err) \<Rightarrow> Inr True
   | (response, None) \<Rightarrow> go_bind (deref response) (\<lambda>code. Inr (code \<noteq> StatusOK)))"

definition HTTPGetAction_act :: "HTTPGetAction \<Rightarrow> string \<Rightarrow> string option \<Rightarrow> act_env
    \<Rightarrow> CounterMetric option \<Rightarrow> ResponseTimeMetric option \<Rightarrow> CounterMetric option
    \<Rightarrow> 'r metrics_state \<Rightarrow> (span \<times> 'r metrics_state) go" where
  "HTTPGetAction_act action probeName tracer env attemptsMetric responseTimeMetric successesMetric ms =
     (let timeoutTime = time_Add (ae_now env) (ha_timeout action) in
      go_bind (tracer_Start tracer ''http-probe'' probeName) (\<lambda>span.
      case ae_NewRequest env (ha_url action) of
        Some err \<Rightarrow>
          Inr (SetStatus CodeError ''probe failed - could not build request for http probe'' span, ms)
      | None \<Rightarrow>
          (let request = \<lparr>hq_Method = ''GET'', hq_URL = ha_url action, hq_Close = True,
                 hq_Header = ha_headers action\<rparr>;
               (timerStart, ms) = PreMeasurable attemptsMetric responseTimeMetric (ae_start env) ms;
               reply = ae_http_Do env (ha_client action) request timeoutTime
           in go_bind (http_failed reply) (\<lambda>failed.
              if failed
              then go_bind (PostMeasurable successesMetric responseTimeMetric timerStart False (ae_stop env) ms)
                     (\<lambda>ms. Inr (SetStatus CodeError
                        (case fst reply of
                           None \<Rightarrow> ''probe failed - no response''
                         | Some code \<Rightarrow> ''probe failed - http response not ok: '' @ show_int (sint code))
                        span, ms))
              else go_bind (PostMeasurable successesMetric responseTimeMetric timerStart True (ae_stop env) ms)
                     (\<lambda>ms. Inr (SetStatus CodeOk ''probe succeeded'' span, ms))))))"

section \<open>TCP socket\<close>

record TCPSocketAction =
  ta_host :: string
  ta_port :: go_int
  ta_expectSteps :: "ExpectStep list"
  ta_timeout :: duration

definition newTCPSocketAction :: "regexp_api \<Rightarrow> TCPSocketActionConfig option \<Rightarrow> duration
    \<Rightarrow> TCPSocketAction option go" where
  "newTCPSocketAction re tcpSocketActionConfig timeout =
     (case tcpSocketActionConfig of
        None \<Rightarrow> Inr None
      | Some cfg \<Rightarrow>
          (let host = (case tcp_Host cfg of None \<Rightarrow> ''localhost''
                       | Some h \<Rightarrow> if h \<noteq> [] then h else ''localhost'')
           in go_bind (case tcp_Expect cfg of
                None \<Rightarrow> Inr []
              | Some configs \<Rightarrow> go_for (\<lambda>c steps. go_bind (newExpectStep re c) (\<lambda>step.
                  Inr (case step of None \<Rightarrow> steps | Some s \<Rightarrow> steps @ [s]))) configs [])
              (\<lambda>steps. Inr (Some \<lparr>ta_host = host, ta_port = tcp_Port cfg, ta_expectSteps = steps,
                 ta_timeout = timeout\<rparr>))))"

definition TCPSocketAction_act :: "regexp_api \<Rightarrow> TCPSocketAction \<Rightarrow> string \<Rightarrow> string option \<Rightarrow> act_env
    \<Rightarrow> CounterMetric option \<Rightarrow> ResponseTimeMetric option \<Rightarrow> CounterMetric option
    \<Rightarrow> 'r metrics_state \<Rightarrow> (span \<times> 'r metrics_state) go" where
  "TCPSocketAction_act re action probeName tracer env attemptsMetric responseTimeMetric successesMetric ms =
     (let timeoutTime = time_Add (ae_now env) (ta_timeout action) in
      go_bind (tracer_Start tracer ''tcp-socket-probe'' probeName) (\<lambda>span.
      let host = (if ta_host action \<noteq> [] then ta_host action else ''localhost'');
          (timerStart, ms) = PreMeasurable attemptsMetric responseTimeMetric (ae_start env) ms;
          target = JoinHostPort host (show_port (ta_port action));
          timeoutDuration = time_Sub timeoutTime (ae_until env)
      in case ae_tcp_Dial env target timeoutDuration of
           Inl err \<Rightarrow>
             go_bind (PostMeasurable successesMetric responseTimeMetric timerStart False (ae_stop env) ms)
               (\<lambda>ms. Inr (SetStatus CodeError ''probe failed - could not connect to tcp server'' span, ms))
         | Inr tcpConnection \<Rightarrow>
             (let (expectSuccess, io) = expect re (ta_expectSteps action) (tcpConnection timeoutTime);
                  span = span\<lparr>sp_events := sp_events span @ io_events io\<rparr>
              in go_bind (PostMeasurable successesMetric responseTimeMetric timerStart expectSuccess (ae_stop env) ms)
                   (\<lambda>ms. Inr (if \<not> expectSuccess
                      then SetStatus CodeError ''probe failed - expect steps failed'' span
                      else SetStatus CodeOk ''probe succeeded'' span, ms)))))"

section \<open>Probes\<close>

datatype ProbeAction =
    ExecProbe ExecAction
  | GRPCProbe GRPCAction
  | HTTPGetProbe HTTPGetAction
  | TCPSocketProbe TCPSocketAction

fun ProbeAction_act :: "regexp_api \<Rightarrow> ProbeAction \<Rightarrow> string \<Rightarrow> string option \<Rightarrow> act_env
    \<Rightarrow> CounterMetric option \<Rightarrow> ResponseTimeMetric option \<Rightarrow> CounterMetric option
    \<Rightarrow> 'r metrics_state \<Rightarrow> (span \<times> 'r metrics_state) go" where
  "ProbeAction_act re (ExecProbe x) = ExecAction_act x"
| "ProbeAction_act re (GRPCProbe g) = GRPCAction_act g"
| "ProbeAction_act re (HTTPGetProbe h) = HTTPGetAction_act h"
| "ProbeAction_act re (TCPSocketProbe t) = TCPSocketAction_act re t"

record Probe =
  pb_Name :: string
  pb_AttemptsMetric :: "CounterMetric option"
  pb_ResponseTimeMetric :: "ResponseTimeMetric option"
  pb_SuccessesMetric :: "CounterMetric option"
  pb_ProbeAction :: "ProbeAction option"

text \<open>All four actions are built, whichever is then taken, so a nil dereference while the expect
  steps are read is not avoided by another action of the probe.\<close>

definition newProbe :: "'r metric_api \<Rightarrow> regexp_api \<Rightarrow> string option \<Rightarrow> EgressProbeConfig \<Rightarrow> duration
    \<Rightarrow> 'r metrics_state \<Rightarrow> (Probe option \<times> 'r metrics_state) go" where
  "newProbe api re meter cfg timeout ms =
     (let execAction = newExecAction (pc_Exec cfg) timeout;
          grpcAction = newGRPCAction (pc_GRPC cfg) timeout;
          httpGetAction = newHTTPGetAction (pc_HTTPGet cfg) timeout
      in go_bind (newTCPSocketAction re (pc_TCPSocket cfg) timeout) (\<lambda>tcpSocketAction.
         case (case execAction of Some x \<Rightarrow> Some (ExecProbe x)
          | None \<Rightarrow> case grpcAction of Some g \<Rightarrow> Some (GRPCProbe g)
          | None \<Rightarrow> case httpGetAction of Some h \<Rightarrow> Some (HTTPGetProbe h)
          | None \<Rightarrow> map_option TCPSocketProbe tcpSocketAction)
         of None \<Rightarrow> Inr (None, ms)
          | Some probeAction \<Rightarrow>
              go_bind (NewCounterMetric api (pm_Attempts (pc_Metrics cfg)) meter ms) (\<lambda>(attempts, ms).
              go_bind (NewResponseTimeMetric api (pm_ResponseTime (pc_Metrics cfg)) meter ms) (\<lambda>(time, ms).
              go_bind (NewCounterMetric api (pm_Successes (pc_Metrics cfg)) meter ms) (\<lambda>(successes, ms).
                Inr (Some \<lparr>pb_Name = pc_Name cfg, pb_AttemptsMetric = attempts,
                  pb_ResponseTimeMetric = time, pb_SuccessesMetric = successes,
                  pb_ProbeAction = Some probeAction\<rparr>, ms))))))"

section \<open>What an action does to the metrics\<close>

text \<open>The outcome of an execution in its environment, without the metrics: when it does not panic,
  whether it counts as an attempt, and whether the probed service passed.\<close>

definition exec_ok :: "ExecAction \<Rightarrow> act_env \<Rightarrow> bool" where
  "exec_ok action env \<longleftrightarrow> ae_CombinedOutput env (hd (xa_command action)) (tl (xa_command action))
     (xa_env action @ [trace_parent (ae_TraceID env)]) (time_Add (ae_now env) (xa_timeout action)) = None"

definition grpc_ok :: "GRPCAction \<Rightarrow> act_env \<Rightarrow> bool" where
  "grpc_ok action env \<longleftrightarrow>
     (let deadline = time_Add (ae_now env) (ga_timeout action)
      in ae_grpc_Dial env (''localhost:'' @ show_port (ga_port action)) deadline = None
       \<and> ae_grpc_Check env (ga_service action) deadline = (Some SERVING, None))"

definition http_reply :: "HTTPGetAction \<Rightarrow> act_env \<Rightarrow> go_int option \<times> go_error option" where
  "http_reply action env = ae_http_Do env (ha_client action)
     \<lparr>hq_Method = ''GET'', hq_URL = ha_url action, hq_Close = True, hq_Header = ha_headers action\<rparr>
     (time_Add (ae_now env) (ha_timeout action))"

definition tcp_ok :: "regexp_api \<Rightarrow> TCPSocketAction \<Rightarrow> act_env \<Rightarrow> bool" where
  "tcp_ok re action env \<longleftrightarrow>
     (let deadline = time_Add (ae_now env) (ta_timeout action);
          host = (if ta_host action = [] then ''localhost'' else ta_host action)
      in case ae_tcp_Dial env (JoinHostPort host (show_port (ta_port action)))
             (time_Sub deadline (ae_until env)) of
           Inl err \<Rightarrow> False
         | Inr connection \<Rightarrow> (let c = connection deadline in
             fst (conversation (re_MatchString re) (limit c) (ta_expectSteps action) (conn_in c) (conn_out c))))"

text \<open>\<open>client.Do\<close> returns a response or an error.\<close>

fun act_safe :: "ProbeAction \<Rightarrow> act_env \<Rightarrow> bool" where
  "act_safe (ExecProbe x) env \<longleftrightarrow> xa_command x \<noteq> []"
| "act_safe (GRPCProbe g) env \<longleftrightarrow> True"
| "act_safe (HTTPGetProbe h) env \<longleftrightarrow> ae_NewRequest env (ha_url h) \<noteq> None \<or> http_reply h env \<noteq> (None, None)"
| "act_safe (TCPSocketProbe t) env \<longleftrightarrow> True"

fun act_attempted :: "ProbeAction \<Rightarrow> act_env \<Rightarrow> bool" where
  "act_attempted (HTTPGetProbe h) env \<longleftrightarrow> ae_NewRequest env (ha_url h) = None"
| "act_attempted _ env \<longleftrightarrow> True"

fun act_succeeded :: "regexp_api \<Rightarrow> ProbeAction \<Rightarrow> act_env \<Rightarrow> bool" where
  "act_succeeded re (ExecProbe x) env \<longleftrightarrow> exec_ok x env"
| "act_succeeded re (GRPCProbe g) env \<longleftrightarrow> grpc_ok g env"
| "act_succeeded re (HTTPGetProbe h) env \<longleftrightarrow>
     ae_NewRequest env (ha_url h) = None \<and> http_reply h env = (Some StatusOK, None)"
| "act_succeeded re (TCPSocketProbe t) env \<longleftrightarrow> tcp_ok re t env"

definition act_elapsed :: "act_env \<Rightarrow> duration" where
  "act_elapsed env = time_Sub (ae_stop env) (ae_start env)"

text \<open>What all actions have in common.\<close>

definition act_post :: "string \<Rightarrow> bool \<Rightarrow> bool \<Rightarrow> act_env \<Rightarrow> CounterMetric option
    \<Rightarrow> ResponseTimeMetric option \<Rightarrow> CounterMetric option \<Rightarrow> 'r metrics_state
    \<Rightarrow> (span \<times> 'r metrics_state) go \<Rightarrow> bool" where
  "act_post name att suc env a r s ms result \<longleftrightarrow>
     (\<exists>span. result = Inr (span, measured_effect att suc (act_elapsed env) a r s ms)
       \<and> sp_probe span = name
       \<and> (suc \<longleftrightarrow> sp_status span = Some (CodeOk, ''probe succeeded'')))"

lemmas act_simps = tracer_Start_def SetStatus_def measurable_eqs measured_effect_def act_elapsed_def
  act_post_def

lemma ExecAction_act_post:
  "xa_command x \<noteq> [] \<Longrightarrow> act_post name True (exec_ok x env) env a r s ms
     (ExecAction_act x name (Some tr) env a r s ms)"
  by (cases "xa_command x") (auto simp: ExecAction_act_def exec_ok_def act_simps Let_def split: option.splits)

lemma GRPCAction_act_post:
  "act_post name True (grpc_ok g env) env a r s ms (GRPCAction_act g name (Some tr) env a r s ms)"
  by (cases "ae_grpc_Check env (ga_service g) (time_Add (ae_now env) (ga_timeout g))")
    (auto simp: GRPCAction_act_def grpc_ok_def JoinHostPort_def act_simps Let_def split: option.splits)

lemma HTTPGetAction_act_post:
  "ae_NewRequest env (ha_url h) \<noteq> None \<or> http_reply h env \<noteq> (None, None) \<Longrightarrow>
   act_post name (ae_NewRequest env (ha_url h) = None)
     (ae_NewRequest env (ha_url h) = None \<and> http_reply h env = (Some StatusOK, None)) env a r s ms
     (HTTPGetAction_act h name (Some tr) env a r s ms)"
  by (cases "http_reply h env")
    (auto simp: HTTPGetAction_act_def http_reply_def http_failed_def act_simps Let_def split: option.splits)

lemma TCPSocketAction_act_post:
  "act_post name True (tcp_ok re t env) env a r s ms (TCPSocketAction_act re t name (Some tr) env a r s ms)"
  by (auto simp: TCPSocketAction_act_def tcp_ok_def act_simps Let_def fst_expect [symmetric]
      split: sum.splits prod.splits)

lemmas act_posts = ExecAction_act_post GRPCAction_act_post HTTPGetAction_act_post TCPSocketAction_act_post

lemma ProbeAction_act_post:
  "act_safe action env \<Longrightarrow> act_post name (act_attempted action env) (act_succeeded re action env) env a r s ms
     (ProbeAction_act re action name (Some tr) env a r s ms)"
  by (cases action) (simp_all add: act_posts)

lemma ProbeAction_act_unsafe:
  "\<not> act_safe action env \<Longrightarrow> \<exists>p. ProbeAction_act re action name (Some tr) env a r s ms = Inl p"
  by (cases action)
    (auto simp: ExecAction_act_def HTTPGetAction_act_def http_reply_def http_failed_def tracer_Start_def
      PreMeasurable_eq Let_def)

interpretation act: measured_call "ProbeAction_act re action name (Some tr)" "act_safe action"
    "act_attempted action" "act_succeeded re action" act_elapsed
  for re action name tr
proof unfold_locales
  show "\<exists>out. ProbeAction_act re action name (Some tr) e a r s ms = Inr (out, measured_effect
      (act_attempted action e) (act_succeeded re action e) (act_elapsed e) a r s ms)"
    if "act_safe action e" for e a r s and ms :: "'b metrics_state"
    using ProbeAction_act_post [OF that, of name re a r s ms tr] by (auto simp: act_post_def)
  show "act_attempted action e" if "act_succeeded re action e" for e
    using that by (cases action) auto
qed

section \<open>Building probes\<close>

text \<open>The specification of which action a configuration selects.\<close>

definition known_scheme :: "HTTPGetActionConfig \<Rightarrow> bool" where
  "known_scheme h = (case http_Scheme h of None \<Rightarrow> True | Some s \<Rightarrow> ToLower s \<in> {''http'', ''https''})"

definition has_action :: "EgressProbeConfig \<Rightarrow> bool" where
  "has_action cfg \<longleftrightarrow> pc_Exec cfg \<noteq> None \<or> pc_GRPC cfg \<noteq> None
     \<or> (\<exists>h. pc_HTTPGet cfg = Some h \<and> known_scheme h) \<or> pc_TCPSocket cfg \<noteq> None"

definition steps_given :: "EgressProbeConfig \<Rightarrow> bool" where
  "steps_given cfg \<longleftrightarrow> (\<forall>t es. pc_TCPSocket cfg = Some t \<and> tcp_Expect t = Some es
     \<longrightarrow> (\<forall>e \<in> set es. ec_Send e \<noteq> None \<or> ec_Receive e \<noteq> None))"

lemma newHTTPGetAction_None: "newHTTPGetAction c timeout = None \<longleftrightarrow> (\<forall>h. c = Some h \<longrightarrow> \<not> known_scheme h)"
  by (auto simp: newHTTPGetAction_def known_scheme_def Let_def split: option.splits)

lemma newExpectStep_total: "(\<exists>step. newExpectStep re e = Inr step) \<longleftrightarrow> ec_Send e \<noteq> None \<or> ec_Receive e \<noteq> None"
  by (simp add: newExpectStep_eq)

lemma go_for_total:
  assumes "\<And>x s. x \<in> set xs \<Longrightarrow> (\<exists>s'. body x s = Inr s') \<longleftrightarrow> P x"
  shows "(\<exists>s'. go_for body xs s = Inr s') \<longleftrightarrow> (\<forall>x \<in> set xs. P x)"
  using assms
proof (induction xs arbitrary: s)
  case (Cons x xs)
  from Cons.prems [of x s] Cons.IH Cons.prems show ?case
    by (cases "body x s") auto
qed simp

lemma newTCPSocketAction_total:
  "(\<exists>t. newTCPSocketAction re (pc_TCPSocket cfg) timeout = Inr t) \<longleftrightarrow> steps_given cfg"
proof -
  let ?body = "\<lambda>c steps. go_bind (newExpectStep re c) (\<lambda>step.
      Inr (case step of None \<Rightarrow> steps | Some s \<Rightarrow> steps @ [s]))"
  have "(\<exists>s'. go_for ?body es [] = Inr s') \<longleftrightarrow> (\<forall>e \<in> set es. ec_Send e \<noteq> None \<or> ec_Receive e \<noteq> None)" for es
    by (rule go_for_total) (simp add: newExpectStep_total go_bind_eq_Inr)
  then show ?thesis
    by (auto simp: newTCPSocketAction_def steps_given_def Let_def go_bind_eq_Inr split: option.splits)
qed

lemma go_for_Inl: "go_for body xs s = Inl p \<Longrightarrow> \<exists>x \<in> set xs. \<exists>s'. body x s' = Inl p"
  by (induction xs arbitrary: s) (auto simp: go_bind_eq_Inl)

lemma newTCPSocketAction_panic:
  assumes "newTCPSocketAction re c timeout = Inl p"
  shows "p = NilDereference"
proof -
  have step: "newExpectStep re e = Inl q \<Longrightarrow> q = NilDereference" for e q
    by (simp add: newExpectStep_eq split: if_splits)
  show ?thesis
    using assms
    by (auto simp: newTCPSocketAction_def Let_def go_bind_eq_Inl split: option.splits
        dest!: go_for_Inl dest: step)
qed

text \<open>The probe a configuration describes, with the first of its actions in the order of the code.\<close>

definition tcp_of :: "regexp_api \<Rightarrow> duration \<Rightarrow> TCPSocketActionConfig \<Rightarrow> TCPSocketAction" where
  "tcp_of re timeout t = \<lparr>ta_host = (if tcp_Host t = None \<or> tcp_Host t = Some [] then ''localhost'' else the (tcp_Host t)),
     ta_port = tcp_Port t,
     ta_expectSteps = List.map_filter (expect_step_of re) (case tcp_Expect t of None \<Rightarrow> [] | Some es \<Rightarrow> es),
     ta_timeout = timeout\<rparr>"

definition action_of :: "regexp_api \<Rightarrow> duration \<Rightarrow> EgressProbeConfig \<Rightarrow> ProbeAction option" where
  "action_of re timeout cfg = (case newExecAction (pc_Exec cfg) timeout of
     Some x \<Rightarrow> Some (ExecProbe x)
   | None \<Rightarrow> (case newGRPCAction (pc_GRPC cfg) timeout of
       Some g \<Rightarrow> Some (GRPCProbe g)
     | None \<Rightarrow> (case newHTTPGetAction (pc_HTTPGet cfg) timeout of
         Some h \<Rightarrow> Some (HTTPGetProbe h)
       | None \<Rightarrow> map_option (TCPSocketProbe \<circ> tcp_of re timeout) (pc_TCPSocket cfg))))"

definition configured_probe :: "'r metric_api \<Rightarrow> regexp_api \<Rightarrow> duration \<Rightarrow> EgressProbeConfig \<Rightarrow> Probe option" where
  "configured_probe api re timeout cfg = map_option (\<lambda>action.
     \<lparr>pb_Name = pc_Name cfg, pb_AttemptsMetric = counter_of api (pm_Attempts (pc_Metrics cfg)),
      pb_ResponseTimeMetric = response_time_of api (pm_ResponseTime (pc_Metrics cfg)),
      pb_SuccessesMetric = counter_of api (pm_Successes (pc_Metrics cfg)), pb_ProbeAction = Some action\<rparr>)
     (action_of re timeout cfg)"

lemma expect_steps_built:
  assumes "go_for (\<lambda>c steps. go_bind (newExpectStep re c) (\<lambda>step.
      Inr (case step of None \<Rightarrow> steps | Some s \<Rightarrow> steps @ [s]))) es steps = Inr steps'"
  shows "steps' = steps @ List.map_filter (expect_step_of re) es"
  using assms
proof (induction es arbitrary: steps)
  case (Cons e es)
  then obtain step where "newExpectStep re e = Inr step" by (auto simp: go_bind_eq_Inr)
  then have "step = expect_step_of re e" by (simp add: newExpectStep_eq split: if_splits)
  with \<open>newExpectStep re e = Inr step\<close> Cons.prems
    Cons.IH [of "case step of None \<Rightarrow> steps | Some s \<Rightarrow> steps @ [s]"] show ?case
    by (simp add: List.map_filter_simps split: option.splits)
qed (simp add: List.map_filter_simps)

lemma newTCPSocketAction_InrD:
  "newTCPSocketAction re c timeout = Inr t \<Longrightarrow> t = map_option (tcp_of re timeout) c"
  by (auto simp: newTCPSocketAction_def tcp_of_def Let_def go_bind_eq_Inr List.map_filter_simps
      dest!: expect_steps_built split: option.splits if_splits)

lemma action_of_None: "action_of re timeout cfg = None \<longleftrightarrow> \<not> has_action cfg"
  using newHTTPGetAction_None [of "pc_HTTPGet cfg" timeout]
  by (auto simp: action_of_def has_action_def newExecAction_def newGRPCAction_def split: option.splits)

lemma newProbe_InrD:
  assumes "newProbe api re meter cfg timeout ms = Inr (p, ms')"
  shows "p = configured_probe api re timeout cfg"
  using assms
  by (cases "pc_TCPSocket cfg") (auto simp: newProbe_def configured_probe_def action_of_def Let_def go_bind_eq_Inr
      dest!: newTCPSocketAction_InrD NewCounterMetric_InrD NewResponseTimeMetric_InrD split: option.splits)

text \<open>The collectors of a probe's metrics, and the callback of its response time.\<close>

definition probe_descs :: "'r metric_api \<Rightarrow> EgressProbeConfig \<Rightarrow> prom_desc list" where
  "probe_descs api cfg = metric_descs api (pm_Attempts (pc_Metrics cfg)) (pm_ResponseTime (pc_Metrics cfg))
     (pm_Successes (pc_Metrics cfg))"

definition probe_callbacks :: "'r metric_api \<Rightarrow> EgressProbeConfig \<Rightarrow> (string \<times> (string \<times> string) list) list" where
  "probe_callbacks api cfg = time_callbacks api (pm_ResponseTime (pc_Metrics cfg))"

lemma newProbe_eq:
  assumes "PromRegistry ms = Some r"
  shows "newProbe api re (Some meter) cfg timeout ms =
    (if \<not> steps_given cfg then Inl NilDereference
     else if \<not> has_action cfg then Inr (None, ms)
     else go_bind (register_all api (probe_descs api cfg) r) (\<lambda>r'.
       Inr (configured_probe api re timeout cfg, metrics_made (probe_callbacks api cfg) r' ms)))"
proof (cases "newTCPSocketAction re (pc_TCPSocket cfg) timeout")
  case (Inl p)
  with newTCPSocketAction_total [of re cfg timeout] newTCPSocketAction_panic [OF Inl]
  show ?thesis by (simp add: newProbe_def Let_def)
next
  case (Inr t)
  then have t: "t = map_option (tcp_of re timeout) (pc_TCPSocket cfg)" by (rule newTCPSocketAction_InrD)
  have "steps_given cfg" using Inr newTCPSocketAction_total by blast
  moreover have "newProbe api re (Some meter) cfg timeout ms = (case action_of re timeout cfg of
      None \<Rightarrow> Inr (None, ms)
    | Some action \<Rightarrow> go_bind (register_all api (probe_descs api cfg) r) (\<lambda>r'.
        Inr (configured_probe api re timeout cfg, metrics_made (probe_callbacks api cfg) r' ms)))"
    by (auto simp: newProbe_def Inr t new_metrics_eq [OF assms] action_of_def configured_probe_def probe_descs_def
        probe_callbacks_def metrics_made_def Let_def option.map_comp split: option.split)
  ultimately show ?thesis using action_of_None [of re timeout cfg] by (auto split: option.split)
qed

section \<open>Properties\<close>

text \<open>C7: One execution of a probe, for each of the four actions. It panics exactly if an exec
  action has no command or an HTTP client returned neither a response nor an error. Otherwise the
  attempts metric is counted once (unless an HTTP request could not be built), the successes metric
  is counted and the response time set only if the probe succeeded: the command ran without error,
  the gRPC server said it is serving, the HTTP server answered 200, the TCP conversation went
  through, each within the deadline the code hands over. The span of the probe has status Ok in
  the same cases.\<close>

theorem probe_execution_measured:
  "if act_safe action env
   then \<exists>span ms'. ProbeAction_act re action name (Some tr) env a r s ms = Inr (span, ms')
     \<and> ms_events ms' = ms_events ms @ (if act_attempted action env then count_events a else [])
         @ (if act_succeeded re action env then time_events r (act_elapsed env) @ count_events s else [])
     \<and> (act_succeeded re action env \<longleftrightarrow> sp_status span = Some (CodeOk, ''probe succeeded''))
   else \<exists>p. ProbeAction_act re action name (Some tr) env a r s ms = Inl p"
  using ProbeAction_act_post [of action env name re a r s ms tr]
    ProbeAction_act_unsafe [of action env re name tr a r s ms]
  by (auto simp: act_post_def measured_effect_events)

text \<open>C25: Over any sequence of executions of a probe that do not panic, the attempts counter grows by
  the number of executions that were attempted, the successes counter by the number that
  succeeded, and successes never exceed attempts.\<close>

theorem probe_counts:
  assumes "\<And>env. env \<in> set envs \<Longrightarrow> act_safe action env"
    and "cm_PromCounter ca \<noteq> cm_PromCounter cs"
  shows "\<exists>ms'. go_for (\<lambda>env ms. map_sum id snd
        (ProbeAction_act re action name (Some tr) env (Some ca) r (Some cs) ms)) envs ms = Inr ms'
    \<and> prom_incs (cm_PromCounter ca) (ms_events ms') =
        prom_incs (cm_PromCounter ca) (ms_events ms) + length (filter (act_attempted action) envs)
    \<and> prom_incs (cm_PromCounter cs) (ms_events ms') =
        prom_incs (cm_PromCounter cs) (ms_events ms) + length (filter (act_succeeded re action) envs)
    \<and> length (filter (act_succeeded re action) envs) \<le> length (filter (act_attempted action) envs)"
  using act.run_all_counts [where re = re and name = name and tr = tr and r = r and ms = ms, OF assms]
    act.successes_le_attempts [of re action envs]
  by (auto simp: act.run_all_def)

text \<open>A world in which commands succeed exactly if they are \<open>/bin/true\<close> and the trace has an id, no
  server listens, and every reading of the clock gives 0.\<close>

definition example_env :: "string \<Rightarrow> act_env" where
  "example_env trace = \<lparr>ae_now = 0, ae_start = 0, ae_until = 0, ae_stop = 0, ae_TraceID = trace,
     ae_CombinedOutput = (\<lambda>program args env deadline.
       if program = ''/bin/true'' \<and> trace \<noteq> [] then None else Some (ErrorString ''exit status 1'')),
     ae_grpc_Dial = (\<lambda>target deadline. Some ErrDeadlineExceeded),
     ae_grpc_Check = (\<lambda>service deadline. (None, Some ErrDeadlineExceeded)),
     ae_NewRequest = (\<lambda>url. None),
     ae_http_Do = (\<lambda>client request deadline. (None, Some ErrDeadlineExceeded)),
     ae_tcp_Dial = (\<lambda>target timeout. Inl ErrDeadlineExceeded)\<rparr>"

theorem probe_counts_witness:
  "(let action = ExecProbe \<lparr>xa_command = [''/bin/true''], xa_env = [], xa_timeout = 5\<rparr>;
        envs = [example_env ''01'', example_env [], example_env ''02'']
    in \<exists>ms' :: unit metrics_state. go_for (\<lambda>env ms. map_sum id snd
        (ProbeAction_act equality_regexp action ''p'' (Some ''bunny/egress'') env
          (Some (example_counter ''a'')) None (Some (example_counter ''s'')) ms)) envs empty_metrics = Inr ms'
      \<and> prom_incs (cm_PromCounter (example_counter ''a'')) (ms_events ms') = 3
      \<and> prom_incs (cm_PromCounter (example_counter ''s'')) (ms_events ms') = 2)"
proof -
  let ?action = "ExecProbe \<lparr>xa_command = [''/bin/true''], xa_env = [], xa_timeout = 5\<rparr>"
  let ?envs = "[example_env ''01'', example_env [], example_env ''02'']"
  have safe: "act_safe ?action env" for env by simp
  have ne: "cm_PromCounter (example_counter ''a'') \<noteq> cm_PromCounter (example_counter ''s'')"
    by (simp add: example_counter_def)
  have counts: "length (filter (act_attempted ?action) ?envs) = 3"
    "length (filter (act_succeeded equality_regexp ?action) ?envs) = 2"
    by (simp_all add: exec_ok_def example_env_def)
  from probe_counts [where envs = ?envs and re = equality_regexp and name = "''p''"
      and tr = "''bunny/egress''" and r = None and ms = "empty_metrics :: unit metrics_state", OF safe ne]
  show ?thesis unfolding counts Let_def
    by (simp only: empty_metrics_def metrics_state.simps prom_incs_simps add_0) blast
qed

text \<open>C27: The configuration of a probe decides what becomes of it, once telemetry has made a registry.
  Reading it panics with a nil dereference if some expect step of its TCP action has neither a send nor a
  receive part. Otherwise there is no probe if there is no exec, gRPC or TCP action and no HTTP action with a
  known scheme. Otherwise the collectors of its enabled metrics are registered in order: the panic of the
  first that the registry refuses is the result, and if it refuses none the result is the probe that the
  configuration describes: the first action given, with its steps and the timeout, and the three
  metrics, with a registry that has them; no metric is touched.\<close>

theorem newProbe_outcome:
  assumes "PromRegistry ms = Some r"
  shows "if \<not> steps_given cfg then newProbe api re (Some meter) cfg timeout ms = Inl NilDereference
    else if \<not> has_action cfg then newProbe api re (Some meter) cfg timeout ms = Inr (None, ms)
    else case register_all api (probe_descs api cfg) r of
        Inl p \<Rightarrow> newProbe api re (Some meter) cfg timeout ms = Inl p
      | Inr r' \<Rightarrow> \<exists>probe ms'. newProbe api re (Some meter) cfg timeout ms = Inr (Some probe, ms')
          \<and> configured_probe api re timeout cfg = Some probe \<and> PromRegistry ms' = Some r'
          \<and> ms_events ms' = ms_events ms \<and> ResponseTimes ms' = ResponseTimes ms"
  using newProbe_eq [OF assms, of api re meter cfg timeout] action_of_None [of re timeout cfg]
  by (auto simp: configured_probe_def split: sum.split)

definition example_probe_config :: EgressProbeConfig where
  "example_probe_config = \<lparr>pc_Name = ''p'', pc_Metrics = \<lparr>pm_Attempts = enabled_metric ''a'',
     pm_ResponseTime = disabled_metric, pm_Successes = enabled_metric ''s''\<rparr>,
     pc_Exec = None, pc_GRPC = Some \<lparr>grpc_Port = 2625, grpc_Service = None\<rparr>, pc_HTTPGet = None, pc_TCPSocket = None\<rparr>"

text \<open>A registry that keeps the names it was given and refuses a name with a space in it.\<close>

definition name_registry :: "string list metric_api" where
  "name_registry = \<lparr>api_Int64Counter = (\<lambda>n. None), api_Int64ObservableGauge = (\<lambda>n. None),
     api_Unregister = (\<lambda>d r. removeAll (pd_Name d) r),
     api_Register = (\<lambda>d r. if CHR '' '' \<in> set (pd_Name d) then Inl (ErrorString ''not a valid metric name'')
       else Inr (r @ [pd_Name d]))\<rparr>"

theorem newProbe_outcome_witness:
  "(\<exists>p ms'. newProbe name_registry equality_regexp (Some ''bunny/egress'') example_probe_config 5
     (empty_metrics\<lparr>PromRegistry := Some [''prom_s'']\<rparr>) = Inr (Some p, ms') \<and> PromRegistry ms' = Some [''prom_a'', ''prom_s''])
   \<and> newProbe name_registry equality_regexp (Some ''bunny/egress'')
     (example_probe_config\<lparr>pc_Metrics := (pc_Metrics example_probe_config)\<lparr>pm_Attempts := enabled_metric ''a b''\<rparr>\<rparr>) 5
     (empty_metrics\<lparr>PromRegistry := Some [''prom_s'']\<rparr>) = Inl (MustRegisterFailed (ErrorString ''not a valid metric name''))"
proof -
  let ?ms = "empty_metrics\<lparr>PromRegistry := Some [''prom_s'']\<rparr>"
  let ?bad = "example_probe_config\<lparr>pc_Metrics := (pc_Metrics example_probe_config)\<lparr>pm_Attempts := enabled_metric ''a b''\<rparr>\<rparr>"
  have reg: "PromRegistry ?ms = Some [''prom_s'']" by simp
  have "steps_given example_probe_config" "has_action example_probe_config" "steps_given ?bad" "has_action ?bad"
    by (simp_all add: steps_given_def has_action_def example_probe_config_def)
  moreover have "register_all name_registry (probe_descs name_registry example_probe_config) [''prom_s''] = Inr [''prom_a'', ''prom_s'']"
    "register_all name_registry (probe_descs name_registry ?bad) [''prom_s'']
      = Inl (MustRegisterFailed (ErrorString ''not a valid metric name''))"
    by (simp_all add: probe_descs_def example_probe_config_def metric_descs_def counter_descs_def time_descs_def counter_of_def
        name_registry_def enabled_metric_def disabled_metric_def prom_desc_of_def)
  ultimately show ?thesis
    using newProbe_outcome [OF reg, of example_probe_config name_registry equality_regexp "''bunny/egress''" 5]
      newProbe_outcome [OF reg, of ?bad name_registry equality_regexp "''bunny/egress''" 5] by auto
qed

end
