(* ===== verification/Exec_Env.thy ===== *)
theory Exec_Env
  imports Probes
begin

text \<open>
  The environment variables of an exec action as what they are in Go: a slice over an array that
  \<open>newExecAction\<close> builds with \<open>append\<close> (\<open>probe-execaction.go\<close>, lines 28 to 32) and that every
  execution of the action appends the trace id to (line 61). The executions are goroutines and
  share the array.

  How far \<open>append\<close> grows an array is not fixed by the language; it is the argument \<open>grow\<close>, of which
  only \<open>c < grow c\<close> is assumed.
\<close>

record slice =
  sl_base :: nat
  sl_len :: nat
  sl_cap :: nat

record heap =
  hp_next :: nat
  hp_arrays :: "nat \<Rightarrow> string list"

definition slice_list :: "slice \<Rightarrow> heap \<Rightarrow> string list" where
  "slice_list s h = take (sl_len s) (hp_arrays h (sl_base s))"

text \<open>\<open>append\<close> of one element: in place when there is room, otherwise into a new array.\<close>

definition go_append :: "(nat \<Rightarrow> nat) \<Rightarrow> string \<Rightarrow> slice \<times> heap \<Rightarrow> slice \<times> heap" where
  "go_append grow x sh = (case sh of (s, h) \<Rightarrow>
     if sl_len s < sl_cap s
     then (s\<lparr>sl_len := sl_len s + 1\<rparr>,
           h\<lparr>hp_arrays := (hp_arrays h)(sl_base s := (hp_arrays h (sl_base s))[sl_len s := x])\<rparr>)
     else (let c = grow (sl_cap s)
           in (\<lparr>sl_base = hp_next h, sl_len = sl_len s + 1, sl_cap = c\<rparr>,
               h\<lparr>hp_next := hp_next h + 1,
                 hp_arrays := (hp_arrays h)(hp_next h :=
                   slice_list s h @ [x] @ replicate (c - (sl_len s + 1)) [])\<rparr>)))"

text \<open>\<open>envSlice := []string{}\<close> and the loop that appends to it.\<close>

definition envSlice :: "(nat \<Rightarrow> nat) \<Rightarrow> EnvConfig list \<Rightarrow> heap \<Rightarrow> slice \<times> heap" where
  "envSlice grow envs h =
     fold (\<lambda>e. go_append grow (env_item e)) envs
       (\<lparr>sl_base = hp_next h, sl_len = 0, sl_cap = 0\<rparr>,
        h\<lparr>hp_next := hp_next h + 1, hp_arrays := (hp_arrays h)(hp_next h := [])\<rparr>)"

definition newEnvVars :: "(nat \<Rightarrow> nat) \<Rightarrow> string \<Rightarrow> slice \<Rightarrow> heap \<Rightarrow> slice \<times> heap" where
  "newEnvVars grow traceID env h = go_append grow (trace_parent traceID) (env, h)"

section \<open>Slices in a heap\<close>

definition slice_wf :: "slice \<times> heap \<Rightarrow> bool" where
  "slice_wf sh = (case sh of (s, h) \<Rightarrow> sl_base s < hp_next h \<and> sl_len s \<le> sl_cap s
     \<and> length (hp_arrays h (sl_base s)) = sl_cap s)"

lemma go_append_spec:
  assumes "slice_wf (s, h)" and "\<And>c. c < grow c"
  shows "slice_wf (go_append grow x (s, h))
    \<and> slice_list (fst (go_append grow x (s, h))) (snd (go_append grow x (s, h))) = slice_list s h @ [x]
    \<and> slice_list s (snd (go_append grow x (s, h))) = slice_list s h
    \<and> slice_wf (s, snd (go_append grow x (s, h)))"
proof (cases "sl_len s < sl_cap s")
  case True
  with assms(1) show ?thesis
    by (auto simp: go_append_def slice_wf_def slice_list_def take_Suc_conv_app_nth)
next
  case False
  with assms(1) assms(2) [of "sl_cap s"] show ?thesis
    by (auto simp: go_append_def slice_wf_def slice_list_def Let_def)
qed

lemma envSlice_spec:
  assumes "\<And>c. c < grow c"
  shows "slice_wf (envSlice grow envs h)
    \<and> slice_list (fst (envSlice grow envs h)) (snd (envSlice grow envs h)) = map env_item envs"
proof (induction envs rule: rev_induct)
  case Nil
  show ?case by (simp add: envSlice_def slice_wf_def slice_list_def)
next
  case (snoc e envs)
  obtain s h1 where sh: "envSlice grow envs h = (s, h1)" by fastforce
  have "envSlice grow (envs @ [e]) h = go_append grow (env_item e) (s, h1)"
    using sh by (simp add: envSlice_def)
  moreover have "slice_wf (s, h1)" "slice_list s h1 = map env_item envs"
    using snoc.IH sh by simp_all
  ultimately show ?case
    using go_append_spec [where x = "env_item e", OF \<open>slice_wf (s, h1)\<close> assms] by simp
qed

lemma go_append_again:
  assumes "slice_wf (s, h)" and "\<And>c. c < grow c"
    and "go_append grow x (s, h) = (s1, h1)" and "go_append grow y (s, h1) = (s2, h2)"
  shows "slice_list s1 h2 = slice_list s h @ [if sl_len s < sl_cap s then y else x]"
proof (cases "sl_len s < sl_cap s")
  case True
  with assms(1,3,4) show ?thesis
    by (auto simp: go_append_def slice_wf_def slice_list_def take_Suc_conv_app_nth)
next
  case False
  with assms(1,3,4) assms(2) [of "sl_cap s"] show ?thesis
    by (auto simp: go_append_def slice_wf_def slice_list_def Let_def)
qed

section \<open>Properties\<close>

text \<open>C24: The environment of an exec action is the list of its \<open>name=value\<close> items, and an execution
  that is alone gets them with its own trace id at the end. When a second execution appends its
  trace id before the first one has started its command, the second still gets its own id, but the
  first one gets the id of the second if the array built from the configuration has room left.\<close>

theorem exec_env_shared_array:
  assumes "\<And>c. c < grow c"
    and "envSlice grow envs h0 = (env, h)"
    and "newEnvVars grow t1 env h = (env1, h1)" and "newEnvVars grow t2 env h1 = (env2, h2)"
  shows "slice_list env1 h1 = map env_item envs @ [trace_parent t1]
    \<and> slice_list env2 h2 = map env_item envs @ [trace_parent t2]
    \<and> slice_list env1 h2 = map env_item envs @ [trace_parent (if length envs < sl_cap env then t2 else t1)]"
proof -
  have env: "slice_wf (env, h)" "slice_list env h = map env_item envs"
    using envSlice_spec [where envs = envs and h = h0, OF assms(1)] assms(2) by simp_all
  then have len: "sl_len env = length envs"
    by (auto simp: slice_wf_def slice_list_def dest: arg_cong [where f = length])
  note first = go_append_spec [OF env(1) assms(1), of "trace_parent t1"]
  with assms(3) have h1: "slice_wf (env, h1)" "slice_list env h1 = slice_list env h"
    by (simp_all add: newEnvVars_def)
  note second = go_append_spec [OF h1(1) assms(1), of "trace_parent t2"]
  from go_append_again [OF env(1) assms(1)] assms(3,4) first second env h1 len show ?thesis
    by (simp add: newEnvVars_def if_distrib [of trace_parent])
qed

text \<open>With the growth by doubling that the Go runtime uses for small arrays, three variables leave
  room for a fourth.\<close>

theorem exec_env_shared_array_witness:
  "(let grow = (\<lambda>c. if c = 0 then 1 else 2 * c);
        envs = map (\<lambda>n. \<lparr>env_Name = n, env_Value = ''1''\<rparr>) [''A'', ''B'', ''C''];
        (env, h) = envSlice grow envs \<lparr>hp_next = 0, hp_arrays = (\<lambda>_. [])\<rparr>;
        (env1, h1) = newEnvVars grow ''01'' env h;
        (env2, h2) = newEnvVars grow ''02'' env h1
    in slice_list env1 h1 = [''A=1'', ''B=1'', ''C=1'', ''OTEL_CLI_FORCE_TRACE_ID=01'']
     \<and> slice_list env1 h2 = [''A=1'', ''B=1'', ''C=1'', ''OTEL_CLI_FORCE_TRACE_ID=02''])"
proof -
  let ?grow = "\<lambda>c :: nat. if c = 0 then 1 else 2 * c"
  let ?envs = "map (\<lambda>n. \<lparr>env_Name = n, env_Value = ''1''\<rparr>) [''A'', ''B'', ''C'']"
  obtain env h where env: "envSlice ?grow ?envs \<lparr>hp_next = 0, hp_arrays = (\<lambda>_. [])\<rparr> = (env, h)" by fastforce
  obtain env1 h1 where env1: "newEnvVars ?grow ''01'' env h = (env1, h1)" by fastforce
  obtain env2 h2 where env2: "newEnvVars ?grow ''02'' env h1 = (env2, h2)" by fastforce
  have "sl_cap env = 4"
    using env by (auto simp: envSlice_def go_append_def Let_def)
  with exec_env_shared_array [OF _ env env1 env2] env env1 env2 show ?thesis
    by (simp add: Let_def trace_parent_def env_item_def)
qed

end
