(* ===== verification/Egress.thy ===== *)
theory Egress
  imports Probes Telemetry
begin

text \<open>
  The goroutine of the package \<open>egress\<close> (\<open>src/src/bunny/egress/egress.go\<close>): it applies
  configurations once telemetry has told it to go on, and runs all probes at every tick after the
  initial delay.

  The ticker is the duration it was reset to, or \<open>None\<close> while it is stopped. A tick starts one
  goroutine per probe; the model hands the started probes to its caller (what their goroutines do
  is in theory \<open>Probes\<close>).
\<close>

record egress_state =
  egressConfig :: "EgressConfig option"
  probes :: "Probe list"
  eg_meter :: "string option"
  eg_tracer :: "string option"
  ticker :: "duration option"
  initialDelayTime :: go_time
  eg_propagator :: "propagator list option"

text \<open>The package variables when \<open>GoEgress\<close> waits for its first message; \<open>start\<close> is the time the
  program was started.\<close>

definition initial_egress_state :: "go_time \<Rightarrow> egress_state" where
  "initial_egress_state start = \<lparr>egressConfig = None, probes = [], eg_meter = None, eg_tracer = None,
     ticker = None, initialDelayTime = start, eg_propagator = None\<rparr>"

text \<open>The loop over the configured probes. A probe without an action is a nil pointer that is
  dereferenced.\<close>

definition add_probe :: "'r metric_api \<Rightarrow> regexp_api \<Rightarrow> string option \<Rightarrow> duration \<Rightarrow> EgressProbeConfig
    \<Rightarrow> Probe list \<times> 'r metrics_state \<Rightarrow> (Probe list \<times> 'r metrics_state) go" where
  "add_probe api re meter timeout cfg acc = (case acc of (ps, ms) \<Rightarrow>
     go_bind (newProbe api re meter cfg timeout ms) (\<lambda>(newProbe, ms).
     go_bind (deref newProbe) (\<lambda>p. Inr (ps @ [p], ms))))"

text \<open>\<open>Ticker.Reset\<close> panics unless the interval is positive, which a product that wrapped around
  need not be.\<close>

definition ticker_Reset :: "duration \<Rightarrow> duration go" where
  "ticker_Reset d = (if sint d \<le> 0
     then Inl (ExplicitPanic (ErrorString ''non-positive interval for Ticker.Reset'')) else Inr d)"

text \<open>\<open>updateConfig\<close>; \<open>stage\<close> is what \<open>ConfigStageChannel\<close> delivers (\<open>None\<close> if it is closed).\<close>

definition egress_updateConfig :: "'r metric_api \<Rightarrow> regexp_api \<Rightarrow> BunnyConfig \<Rightarrow> ConfigStage option
    \<Rightarrow> go_time \<Rightarrow> egress_state \<Rightarrow> 'r metrics_state \<Rightarrow> (egress_state \<times> 'r metrics_state) go" where
  "egress_updateConfig api re c stage now st ms =
     (let cfg = Egress c; st = st\<lparr>egressConfig := Some cfg\<rparr> in
      case stage of
        None \<Rightarrow> Inr (st, ms)
      | Some configStage \<Rightarrow>
          if configStage \<noteq> ConfigStageTelemetryCompleted then Inr (st, ms)
          else
            (let st = st\<lparr>eg_meter := Some ''bunny/egress'', eg_tracer := Some ''bunny/egress'',
                   eg_propagator := Some [TraceContext]\<rparr>;
                 timeout = milliseconds (eg_TimeoutMilliseconds cfg)
             in go_bind (go_for (add_probe api re (eg_meter st) timeout) (eg_Probes cfg) ([], ms)) (\<lambda>(ps, ms).
                let period = eg_PeriodMilliseconds cfg;
                    st = st\<lparr>probes := ps,
                      initialDelayTime := time_Add now (milliseconds (eg_InitialDelayMilliseconds cfg))\<rparr>
                in if 0 < sint period
                   then go_bind (ticker_Reset (milliseconds period)) (\<lambda>d. Inr (st\<lparr>ticker := Some d\<rparr>, ms))
                   else Inr (st\<lparr>ticker := None\<rparr>, ms))))"

definition performProbes :: "egress_state \<Rightarrow> Probe list" where
  "performProbes st = filter (\<lambda>p. pb_ProbeAction p \<noteq> None) (probes st)"

text \<open>What the \<open>select\<close> receives: a tick with the time \<open>time.Now()\<close> gives then, a configuration with
  the stage message that follows it and the time, or a signal.\<close>

datatype egress_event =
    EgressTick go_time
  | EgressConfigUpdate BunnyConfig "ConfigStage option" go_time
  | EgressConfigClosed
  | EgressSignal

fun GoEgress_step :: "'r metric_api \<Rightarrow> regexp_api \<Rightarrow> egress_event \<Rightarrow> egress_state \<Rightarrow> 'r metrics_state
    \<Rightarrow> (loop_control \<times> egress_state \<times> 'r metrics_state \<times> Probe list) go" where
  "GoEgress_step api re (EgressTick now) st ms =
     Inr (Continue, st, ms, if time_Before (initialDelayTime st) now then performProbes st else [])"
| "GoEgress_step api re (EgressConfigUpdate c stage now) st ms =
     go_bind (egress_updateConfig api re c stage now st ms) (\<lambda>(st, ms). Inr (Continue, st, ms, []))"
| "GoEgress_step api re EgressConfigClosed st ms = Inr (Continue, st, ms, [])"
| "GoEgress_step api re EgressSignal st ms = Inr (Return, st, ms, [])"

fun GoEgress_loop :: "'r metric_api \<Rightarrow> regexp_api \<Rightarrow> egress_event list \<Rightarrow> egress_state \<Rightarrow> 'r metrics_state
    \<Rightarrow> (loop_control \<times> egress_state \<times> 'r metrics_state \<times> Probe list) go" where
  "GoEgress_loop api re [] st ms = Inr (Continue, st, ms, [])"
| "GoEgress_loop api re (e # es) st ms =
     go_bind (GoEgress_step api re e st ms) (\<lambda>(ctl, st, ms, started1).
       case ctl of
         Return \<Rightarrow> Inr (Return, st, ms, started1)
       | Continue \<Rightarrow> go_bind (GoEgress_loop api re es st ms) (\<lambda>(ctl, st, ms, started2).
           Inr (ctl, st, ms, started1 @ started2)))"

section \<open>Applying a configuration\<close>

text \<open>A probe that can be built, a period that Ticker.Reset accepts or that stops the ticker, and the collectors
  that are registered, which are those of the probes before the first that cannot be built.\<close>

definition probe_usable :: "EgressProbeConfig \<Rightarrow> bool" where
  "probe_usable p \<longleftrightarrow> steps_given p \<and> has_action p"

definition probes_ok :: "EgressConfig \<Rightarrow> bool" where
  "probes_ok cfg \<longleftrightarrow> (\<forall>p \<in> set (eg_Probes cfg). probe_usable p)"

definition period_ok :: "EgressConfig \<Rightarrow> bool" where
  "period_ok cfg \<longleftrightarrow> sint (eg_PeriodMilliseconds cfg) \<le> 0 \<or> 0 < sint (milliseconds (eg_PeriodMilliseconds cfg))"

definition egress_descs :: "'r metric_api \<Rightarrow> EgressConfig \<Rightarrow> prom_desc list" where
  "egress_descs api cfg = concat (map (probe_descs api) (takeWhile probe_usable (eg_Probes cfg)))"

definition configured_probes :: "'r metric_api \<Rightarrow> regexp_api \<Rightarrow> EgressConfig \<Rightarrow> Probe option list" where
  "configured_probes api re cfg =
     map (configured_probe api re (milliseconds (eg_TimeoutMilliseconds cfg))) (eg_Probes cfg)"

lemma add_probes_InrD:
  assumes "go_for (add_probe api re meter timeout) cfgs (ps, ms) = Inr (ps', ms')"
  shows "map Some ps' = map Some ps @ map (configured_probe api re timeout) cfgs"
  using assms
proof (induction cfgs arbitrary: ps ms)
  case (Cons cfg cfgs)
  then obtain ps1 ms1 where 1: "add_probe api re meter timeout cfg (ps, ms) = Inr (ps1, ms1)"
    and 2: "go_for (add_probe api re meter timeout) cfgs (ps1, ms1) = Inr (ps', ms')"
    by (auto simp: go_bind_eq_Inr)
  from 1 have "map Some ps1 = map Some ps @ [configured_probe api re timeout cfg]"
    by (auto simp: add_probe_def go_bind_eq_Inr deref_def split: option.splits dest!: newProbe_InrD)
  with Cons.IH [OF 2] show ?case by simp
qed simp

lemma configured_probe_action: "configured_probe api re timeout cfg = Some p \<Longrightarrow> pb_ProbeAction p \<noteq> None"
  by (auto simp: configured_probe_def)

lemma add_probe_eq:
  assumes "PromRegistry ms = Some r"
  shows "add_probe api re (Some meter) timeout cfg (ps, ms) =
    (if probe_usable cfg then go_bind (register_all api (probe_descs api cfg) r) (\<lambda>r'.
       Inr (ps @ [the (configured_probe api re timeout cfg)], metrics_made (probe_callbacks api cfg) r' ms))
     else Inl NilDereference)"
  using action_of_None [of re timeout cfg]
  by (cases "register_all api (probe_descs api cfg) r")
    (auto simp: add_probe_def newProbe_eq [OF assms] probe_usable_def configured_probe_def)

lemma add_probes_eq:
  assumes "PromRegistry ms = Some r"
  shows "go_for (add_probe api re (Some meter) timeout) cfgs (ps, ms) =
    go_bind (register_all api (concat (map (probe_descs api) (takeWhile probe_usable cfgs))) r) (\<lambda>r'.
      if \<forall>cfg \<in> set cfgs. probe_usable cfg
      then Inr (ps @ map (\<lambda>cfg. the (configured_probe api re timeout cfg)) cfgs,
        metrics_made (concat (map (probe_callbacks api) cfgs)) r' ms)
      else Inl NilDereference)"
  using assms
proof (induction cfgs arbitrary: ps ms r)
  case Nil
  then show ?case by (simp add: metrics_made_Nil)
next
  case (Cons cfg cfgs)
  show ?case
  proof (cases "probe_usable cfg")
    case True
    let ?ds = "probe_descs api cfg" and ?p = "the (configured_probe api re timeout cfg)"
    show ?thesis
    proof (cases "register_all api ?ds r")
      case (Inr r1)
      with Cons.IH [of "metrics_made (probe_callbacks api cfg) r1 ms" r1 "ps @ [?p]"] True show ?thesis
        by (simp add: add_probe_eq [OF Cons.prems] register_all_append cong: if_cong)
    qed (simp add: add_probe_eq [OF Cons.prems] True register_all_append)
  qed (simp add: add_probe_eq [OF Cons.prems])
qed

lemma egress_updateConfig_eq:
  assumes "PromRegistry ms = Some r"
  shows "egress_updateConfig api re c (Some ConfigStageTelemetryCompleted) now st ms =
    go_bind (register_all api (egress_descs api (Egress c)) r) (\<lambda>r'.
      if \<not> probes_ok (Egress c) then Inl NilDereference
      else if \<not> period_ok (Egress c) then Inl (ExplicitPanic (ErrorString ''non-positive interval for Ticker.Reset''))
      else Inr (st\<lparr>egressConfig := Some (Egress c), eg_meter := Some ''bunny/egress'', eg_tracer := Some ''bunny/egress'',
            eg_propagator := Some [TraceContext],
            probes := map (\<lambda>cfg. the (configured_probe api re (milliseconds (eg_TimeoutMilliseconds (Egress c))) cfg))
              (eg_Probes (Egress c)),
            initialDelayTime := time_Add now (milliseconds (eg_InitialDelayMilliseconds (Egress c))),
            ticker := (if 0 < sint (eg_PeriodMilliseconds (Egress c))
              then Some (milliseconds (eg_PeriodMilliseconds (Egress c))) else None)\<rparr>,
          metrics_made (concat (map (probe_callbacks api) (eg_Probes (Egress c)))) r' ms))"
  by (cases "register_all api (egress_descs api (Egress c)) r")
    (auto simp: egress_updateConfig_def Let_def add_probes_eq [OF assms] egress_descs_def [symmetric] probes_ok_def period_ok_def
      ticker_Reset_def)

lemma egress_updateConfig_InrD:
  assumes "egress_updateConfig api re c (Some ConfigStageTelemetryCompleted) now st ms = Inr (st', ms')"
  shows "map Some (probes st') = configured_probes api re (Egress c) \<and> performProbes st' = probes st'
    \<and> initialDelayTime st' = time_Add now (milliseconds (eg_InitialDelayMilliseconds (Egress c)))"
proof -
  from assms obtain ps where "go_for (add_probe api re (Some ''bunny/egress'')
      (milliseconds (eg_TimeoutMilliseconds (Egress c)))) (eg_Probes (Egress c)) ([], ms) = Inr (ps, ms')"
    and st': "probes st' = ps"
      "initialDelayTime st' = time_Add now (milliseconds (eg_InitialDelayMilliseconds (Egress c)))"
    by (auto simp: egress_updateConfig_def Let_def go_bind_eq_Inr split: if_splits)
  from add_probes_InrD [OF this(1)] st' have probes: "map Some (probes st') = configured_probes api re (Egress c)"
    by (simp add: configured_probes_def)
  have "pb_ProbeAction p \<noteq> None" if "p \<in> set (probes st')" for p
  proof -
    from that have "Some p \<in> set (map Some (probes st'))" by simp
    then show ?thesis unfolding probes configured_probes_def by (auto dest: configured_probe_action [OF sym])
  qed
  with probes st' show ?thesis by (auto simp: performProbes_def intro: filter_True)
qed

lemma GoEgress_ticks:
  "GoEgress_loop api re (map EgressTick ts) st ms = Inr (Continue, st, ms,
     concat (replicate (length (filter (\<lambda>t. initialDelayTime st < t) ts)) (performProbes st)))"
  by (induction ts) (simp_all add: time_Before_def)

section \<open>Properties\<close>

text \<open>C11: What becomes of a configuration once telemetry has completed and made a registry. The collectors of its
  probes are registered in order, up to the first probe that cannot be built, and the panic of the first one
  that the registry refuses is the result. Otherwise, if some probe has no action or an expect step without a
  send or receive part, the goroutine panics with a nil dereference; otherwise, if the period is positive but
  wraps around to a duration that is not, it panics in \<open>Ticker.Reset\<close>. In all other cases the configuration is
  applied: the new probes are those it describes, in order, the first run is delayed by the initial
  delay as it is converted to a duration, the ticker runs with the configured period or stops if the period
  is not positive, and no metric is touched.\<close>

theorem egress_config_applied:
  assumes "PromRegistry ms = Some r"
  shows "let cfg = Egress c;
      result = egress_updateConfig api re c (Some ConfigStageTelemetryCompleted) now st ms
    in case register_all api (egress_descs api cfg) r of
        Inl p \<Rightarrow> result = Inl p
      | Inr r' \<Rightarrow>
          if \<not> probes_ok cfg then result = Inl NilDereference
          else if \<not> period_ok cfg
          then result = Inl (ExplicitPanic (ErrorString ''non-positive interval for Ticker.Reset''))
          else \<exists>st' ms'. result = Inr (st', ms')
            \<and> map Some (probes st') = configured_probes api re cfg \<and> performProbes st' = probes st'
            \<and> initialDelayTime st' = now + sint (milliseconds (eg_InitialDelayMilliseconds cfg))
            \<and> ticker st' = (if 0 < sint (eg_PeriodMilliseconds cfg)
                 then Some (milliseconds (eg_PeriodMilliseconds cfg)) else None)
            \<and> PromRegistry ms' = Some r' \<and> ms_events ms' = ms_events ms"
proof -
  note eq = egress_updateConfig_eq [OF assms, of api re c now st]
  show ?thesis
  proof (cases "register_all api (egress_descs api (Egress c)) r")
    case (Inr r')
    have "\<exists>st' ms'. egress_updateConfig api re c (Some ConfigStageTelemetryCompleted) now st ms = Inr (st', ms')
        \<and> ticker st' = (if 0 < sint (eg_PeriodMilliseconds (Egress c))
             then Some (milliseconds (eg_PeriodMilliseconds (Egress c))) else None)
        \<and> PromRegistry ms' = Some r' \<and> ms_events ms' = ms_events ms"
      if "probes_ok (Egress c)" "period_ok (Egress c)"
      using eq Inr that by simp
    with eq Inr egress_updateConfig_InrD [of api re c now st ms] show ?thesis
      by (auto simp: Let_def time_Add_def)
  qed (simp add: eq)
qed

definition egress_example :: BunnyConfig where
  "egress_example = generateDefaultConfig\<lparr>Egress := \<lparr>eg_Probes = [example_probe_config],
     eg_InitialDelayMilliseconds = 2000, eg_PeriodMilliseconds = 3000, eg_TimeoutMilliseconds = 1000\<rparr>\<rparr>"

lemma egress_example_ok:
  "probes_ok (Egress egress_example)" "period_ok (Egress egress_example)"
  by (simp_all add: probes_ok_def probe_usable_def egress_example_def example_probe_config_def steps_given_def
      has_action_def period_ok_def milliseconds_def)

definition example_probe :: Probe where
  "example_probe = \<lparr>pb_Name = ''p'', pb_AttemptsMetric = counter_of example_api (enabled_metric ''a''),
     pb_ResponseTimeMetric = None, pb_SuccessesMetric = counter_of example_api (enabled_metric ''s''),
     pb_ProbeAction = Some (GRPCProbe \<lparr>ga_port = 2625, ga_service = None, ga_timeout = milliseconds 1000\<rparr>)\<rparr>"

lemma egress_example_probes: "configured_probes example_api re (Egress egress_example) = map Some [example_probe]"
  by (simp add: configured_probes_def egress_example_def example_probe_config_def configured_probe_def action_of_def
      newExecAction_def newGRPCAction_def example_probe_def response_time_of_def disabled_metric_def)

lemma map_Some_eq: "map Some xs = map Some ys \<longleftrightarrow> xs = ys"
  by (rule inj_map_eq_map) (rule inj_Some)

theorem egress_config_applied_witness:
  "\<exists>st' ms'. egress_updateConfig example_api equality_regexp egress_example
      (Some ConfigStageTelemetryCompleted) 7 (initial_egress_state 0) (empty_metrics\<lparr>PromRegistry := Some ()\<rparr>)
      = Inr (st', ms')
    \<and> probes st' = [example_probe] \<and> ticker st' = Some (milliseconds 3000)"
  using egress_config_applied [of "empty_metrics\<lparr>PromRegistry := Some ()\<rparr>" "()" egress_example example_api
      equality_regexp 7 "initial_egress_state 0"] egress_example_ok
  by (auto simp: egress_example_probes map_Some_eq Let_def simp del: list.map) (auto simp: egress_example_def)

text \<open>C14: After a configuration has been applied at time \<open>t0\<close>, the ticks that follow run the
  configured probes, all of them and in order, exactly at those ticks that are handled later than
  \<open>t0\<close> plus the initial delay. The delay is the configured number of milliseconds multiplied out in 64 bits, so
  for one that does not fit a duration it is a different one, and may be negative.\<close>

theorem probes_run_after_initial_delay:
  assumes "GoEgress_loop api re
      (EgressConfigUpdate c (Some ConfigStageTelemetryCompleted) t0 # map EgressTick ts) st ms
      = Inr (ctl, st', ms', started)"
  shows "map Some started = concat (replicate
      (length (filter (\<lambda>t. t0 + sint (milliseconds (eg_InitialDelayMilliseconds (Egress c))) < t) ts))
      (configured_probes api re (Egress c)))"
proof -
  from assms obtain st1 ms1 where
    up: "egress_updateConfig api re c (Some ConfigStageTelemetryCompleted) t0 st ms = Inr (st1, ms1)"
    and started: "started = concat (replicate (length (filter (\<lambda>t. initialDelayTime st1 < t) ts)) (performProbes st1))"
    by (auto simp: go_bind_eq_Inr GoEgress_ticks)
  from egress_updateConfig_InrD [OF up] show ?thesis
    unfolding started map_concat map_replicate
    by (simp add: time_Add_def)
qed

theorem probes_run_after_initial_delay_witness:
  "\<exists>ctl st' ms' started. GoEgress_loop example_api equality_regexp
      (EgressConfigUpdate egress_example (Some ConfigStageTelemetryCompleted) 0
        # map EgressTick [1000000000, 3000000000, 6000000000])
      (initial_egress_state 0) (empty_metrics\<lparr>PromRegistry := Some ()\<rparr>) = Inr (ctl, st', ms', started)
    \<and> started = [example_probe, example_probe]"
proof -
  let ?es = "EgressConfigUpdate egress_example (Some ConfigStageTelemetryCompleted) 0
        # map EgressTick [1000000000, 3000000000, 6000000000]"
  let ?ms = "empty_metrics\<lparr>PromRegistry := Some ()\<rparr>"
  have "\<exists>r. egress_updateConfig example_api equality_regexp egress_example
      (Some ConfigStageTelemetryCompleted) 0 (initial_egress_state 0) ?ms = Inr r"
    using egress_updateConfig_eq [of ?ms "()" example_api equality_regexp egress_example 0 "initial_egress_state 0"]
      egress_example_ok by simp
  then obtain ctl st' ms' started where
    run: "GoEgress_loop example_api equality_regexp ?es (initial_egress_state 0) ?ms = Inr (ctl, st', ms', started)"
    unfolding GoEgress_loop.simps GoEgress_step.simps GoEgress_ticks by auto
  have delay: "sint (milliseconds (eg_InitialDelayMilliseconds (Egress egress_example))) = 2000000000"
    by (simp add: egress_example_def milliseconds_def)
  from probes_run_after_initial_delay [OF run] have "map Some started = map Some [example_probe, example_probe]"
    by (simp add: egress_example_probes numeral_2_eq_2 delay)
  with run show ?thesis unfolding map_Some_eq by blast
qed

end
