(* ===== verification/Ingress.thy ===== *)
theory Ingress
  imports Telemetry Go_Duration Go_HTTP
begin

text \<open>
  The package \<open>ingress\<close> (\<open>src/src/bunny/ingress\<close>): health endpoints whose answer is the verdict of a
  PromQL query (\<open>health-endpoint.go\<close>), the HTTP server that offers them, and the goroutine that
  restarts the server with every configuration (\<open>ingress.go\<close>).

  The query engine is the argument of the queries that theory \<open>Queries\<close> has; times read from the
  clock come with it in the record \<open>query_env\<close>. Listening and serving are input and output: the
  model keeps a log of the servers that were started and shut down, and \<open>serve\<close> gives the answer
  of the current server to a GET request.
\<close>

section \<open>Queries\<close>

record InstantQuery =
  qi_timeout :: duration
  qi_relativeInstantTime :: duration
  qi_query :: string

record RangeQuery =
  qr_timeout :: duration
  qr_relativeStartTime :: duration
  qr_relativeEndTime :: duration
  qr_interval :: duration
  qr_query :: string

datatype Query = QueryInstant InstantQuery | QueryRange RangeQuery

record query_env =
  qe_instant_engine :: "instant_engine option"
  qe_range_engine :: "range_engine option"
  qe_promDB :: "prom_db option"
  qe_now1 :: go_time
  qe_now2 :: go_time
  qe_start :: go_time
  qe_begin :: go_time
  qe_stop :: go_time

text \<open>The two \<open>exec\<close> methods: whether the query had an error decides about the successes metric, not
  its verdict.\<close>

definition InstantQuery_exec :: "InstantQuery \<Rightarrow> query_env \<Rightarrow> CounterMetric option
    \<Rightarrow> ResponseTimeMetric option \<Rightarrow> CounterMetric option \<Rightarrow> 'r metrics_state
    \<Rightarrow> (verdict \<times> 'r metrics_state) go" where
  "InstantQuery_exec q env attemptsMetric responseTimeMetric successesMetric ms =
     (let instantTime = time_Add (qe_now1 env) (qi_relativeInstantTime q);
          (timerStart, ms) = PreMeasurable attemptsMetric responseTimeMetric (qe_start env) ms
      in go_bind (telemetry_InstantQuery (qe_instant_engine env) (qe_promDB env) (qi_timeout q) (qi_query q)
                    instantTime (qe_begin env)) (\<lambda>(result, err).
         if err \<noteq> None
         then go_bind (PostMeasurable successesMetric responseTimeMetric timerStart False (qe_stop env) ms)
                (\<lambda>ms. Inr ((result, err), ms))
         else go_bind (PostMeasurable successesMetric responseTimeMetric timerStart True (qe_stop env) ms)
                (\<lambda>ms. Inr ((result, err), ms))))"

definition RangeQuery_exec :: "RangeQuery \<Rightarrow> query_env \<Rightarrow> CounterMetric option
    \<Rightarrow> ResponseTimeMetric option \<Rightarrow> CounterMetric option \<Rightarrow> 'r metrics_state
    \<Rightarrow> (verdict \<times> 'r metrics_state) go" where
  "RangeQuery_exec q env attemptsMetric responseTimeMetric successesMetric ms =
     (let startTime = time_Add (qe_now1 env) (qr_relativeStartTime q);
          endTime = time_Add (qe_now2 env) (qr_relativeEndTime q);
          (timerStart, ms) = PreMeasurable attemptsMetric responseTimeMetric (qe_start env) ms
      in go_bind (telemetry_RangeQuery (qe_range_engine env) (qe_promDB env) (qr_timeout q) (qr_query q)
                    startTime endTime (qr_interval q) (qe_begin env)) (\<lambda>(result, err).
         if err \<noteq> None
         then go_bind (PostMeasurable successesMetric responseTimeMetric timerStart False (qe_stop env) ms)
                (\<lambda>ms. Inr ((result, err), ms))
         else go_bind (PostMeasurable successesMetric responseTimeMetric timerStart True (qe_stop env) ms)
                (\<lambda>ms. Inr ((result, err), ms))))"

fun Query_exec :: "Query \<Rightarrow> query_env \<Rightarrow> CounterMetric option \<Rightarrow> ResponseTimeMetric option
    \<Rightarrow> CounterMetric option \<Rightarrow> 'r metrics_state \<Rightarrow> (verdict \<times> 'r metrics_state) go" where
  "Query_exec (QueryInstant q) = InstantQuery_exec q"
| "Query_exec (QueryRange q) = RangeQuery_exec q"

section \<open>Health endpoints\<close>

record HealthEndpoint =
  he_Path :: string
  he_Query :: Query
  he_AttemptsMetric :: "CounterMetric option"
  he_ResponseTimeMetric :: "ResponseTimeMetric option"
  he_SuccessesMetric :: "CounterMetric option"

definition ensureLeadingSlash :: "string \<Rightarrow> string" where
  "ensureLeadingSlash path = (if \<not> starts_with ''/'' path then ''/'' @ path else path)"

definition newInstantQuery :: "fraction_fn \<Rightarrow> HealthConfig \<Rightarrow> (go_error + Query) go" where
  "newInstantQuery fr healthConfig = go_bind (deref (hc_InstantQuery healthConfig)) (\<lambda>iq. Inr
     (case ParseDuration fr (iq_Timeout iq) of
        Inl err \<Rightarrow> Inl err
      | Inr timeout \<Rightarrow>
          (case ParseDuration fr (iq_RelativeInstantTime iq) of
             Inl err \<Rightarrow> Inl err
           | Inr relativeInstantTime \<Rightarrow> Inr (QueryInstant \<lparr>qi_timeout = timeout,
               qi_relativeInstantTime = relativeInstantTime, qi_query = iq_Query iq\<rparr>))))"

definition newRangeQuery :: "fraction_fn \<Rightarrow> HealthConfig \<Rightarrow> (go_error + Query) go" where
  "newRangeQuery fr healthConfig = go_bind (deref (hc_RangeQuery healthConfig)) (\<lambda>rq. Inr
     (case ParseDuration fr (rq_Timeout rq) of
        Inl err \<Rightarrow> Inl err
      | Inr timeout \<Rightarrow>
          (case ParseDuration fr (rq_RelativeStartTime rq) of
             Inl err \<Rightarrow> Inl err
           | Inr relativeStartTime \<Rightarrow>
               (case ParseDuration fr (rq_RelativeEndTime rq) of
                  Inl err \<Rightarrow> Inl err
                | Inr relativeEndTime \<Rightarrow>
                    (case ParseDuration fr (rq_Interval rq) of
                       Inl err \<Rightarrow> Inl err
                     | Inr interval \<Rightarrow> Inr (QueryRange \<lparr>qr_timeout = timeout,
                         qr_relativeStartTime = relativeStartTime, qr_relativeEndTime = relativeEndTime,
                         qr_interval = interval, qr_query = rq_Query rq\<rparr>))))))"

text \<open>\<open>newHealthEndpoint\<close>: an error of the query is returned beside an endpoint that the caller then
  drops; its metrics have been registered by then. The metrics block is dereferenced without a
  check.\<close>

definition newHealthEndpoint :: "'r metric_api \<Rightarrow> fraction_fn \<Rightarrow> string option \<Rightarrow> HealthConfig
    \<Rightarrow> 'r metrics_state \<Rightarrow> ((go_error + HealthEndpoint) \<times> 'r metrics_state) go" where
  "newHealthEndpoint api fr meter healthConfig ms =
     (if hc_InstantQuery healthConfig = None \<and> hc_RangeQuery healthConfig = None
      then Inr (Inl (ErrorString (''neither instantQuery nor rangeQuery set for health endpoint at path ''
             @ hc_Path healthConfig)), ms)
      else if hc_InstantQuery healthConfig \<noteq> None \<and> hc_RangeQuery healthConfig \<noteq> None
      then Inr (Inl (ErrorString (''both instantQuery and rangeQuery set for health endpoint at path ''
             @ hc_Path healthConfig)), ms)
      else go_bind (if hc_InstantQuery healthConfig \<noteq> None then newInstantQuery fr healthConfig
                    else newRangeQuery fr healthConfig) (\<lambda>query.
        go_bind (deref (hc_Metrics healthConfig)) (\<lambda>metrics.
        go_bind (NewCounterMetric api (im_Attempts metrics) meter ms) (\<lambda>(attempts, ms).
        go_bind (NewResponseTimeMetric api (im_ResponseTime metrics) meter ms) (\<lambda>(time, ms).
        go_bind (NewCounterMetric api (im_Successes metrics) meter ms) (\<lambda>(successes, ms).
          Inr (case query of
                 Inl err \<Rightarrow> Inl err
               | Inr q \<Rightarrow> Inr \<lparr>he_Path = ensureLeadingSlash (hc_Path healthConfig), he_Query = q,
                   he_AttemptsMetric = attempts, he_ResponseTimeMetric = time,
                   he_SuccessesMetric = successes\<rparr>, ms)))))))"

section \<open>The server\<close>

datatype mux_handler = HealthEndpointHandler | OpenTelemetryMetricsHandler | PrometheusMetricsHandler

record http_server =
  sv_Addr :: string
  sv_ReadTimeout :: duration
  sv_ReadHeaderTimeout :: duration
  sv_WriteTimeout :: duration
  sv_IdleTimeout :: duration
  sv_MaxHeaderBytes :: go_int
  sv_Handler :: "mux_handler mux"

text \<open>Servers are numbered in the order in which they are started.\<close>

datatype server_event = ServerListen nat | ServerShutdown nat

record ingress_state =
  ingressConfig :: "IngressConfig option"
  ig_meter :: "string option"
  httpServer :: "(nat \<times> http_server) option"
  healthEndpoints :: "HealthEndpoint list"
  ig_servers :: "server_event list"
  ig_next :: nat

definition initial_ingress_state :: ingress_state where
  "initial_ingress_state = \<lparr>ingressConfig = None, ig_meter = None, httpServer = None,
     healthEndpoints = [], ig_servers = [], ig_next = 0\<rparr>"

definition shutdownHTTPServer :: "ingress_state \<Rightarrow> ingress_state" where
  "shutdownHTTPServer st = (case httpServer st of
     None \<Rightarrow> st
   | Some (i, server) \<Rightarrow> st\<lparr>ig_servers := ig_servers st @ [ServerShutdown i]\<rparr>)"

text \<open>The patterns and handlers in the order of registration.\<close>

definition server_patterns :: "HTTPServerConfig \<Rightarrow> (string \<times> mux_handler) list" where
  "server_patterns cfg =
     map (\<lambda>hc. (ensureLeadingSlash (hc_Path hc), HealthEndpointHandler)) (hs_Health cfg)
     @ [(ensureLeadingSlash (hs_OpenTelemetryMetricsPath cfg), OpenTelemetryMetricsHandler),
        (ensureLeadingSlash (hs_PrometheusMetricsPath cfg), PrometheusMetricsHandler)]"

definition startHTTPServer :: "ingress_state \<Rightarrow> ingress_state go" where
  "startHTTPServer st = go_bind (deref (ingressConfig st)) (\<lambda>ic.
     let cfg = in_HTTPServerConfig ic in
     go_bind (go_for (\<lambda>(p, h). mux_Handle p h) (server_patterns cfg) []) (\<lambda>m.
       let server = \<lparr>sv_Addr = '':'' @ show_int (sint (hs_Port cfg)),
             sv_ReadTimeout = milliseconds (hs_ReadTimeoutMilliseconds cfg),
             sv_ReadHeaderTimeout = milliseconds (hs_ReadHeaderTimeoutMilliseconds cfg),
             sv_WriteTimeout = milliseconds (hs_WriteTimeoutMilliseconds cfg),
             sv_IdleTimeout = milliseconds (hs_IdleTimeoutMilliseconds cfg),
             sv_MaxHeaderBytes = hs_MaxHeaderBytes cfg, sv_Handler = m\<rparr>
       in Inr (st\<lparr>httpServer := Some (ig_next st, server), ig_next := ig_next st + 1,
                 ig_servers := ig_servers st @ [ServerListen (ig_next st)]\<rparr>)))"

text \<open>The loop of \<open>healthEndpointHandler\<close> over the endpoints.\<close>

fun healthEndpointHandler :: "HealthEndpoint list \<Rightarrow> string \<Rightarrow> query_env \<Rightarrow> http_response
    \<Rightarrow> 'r metrics_state \<Rightarrow> (http_response \<times> 'r metrics_state) go" where
  "healthEndpointHandler [] path env w ms = Inr (w, ms)"
| "healthEndpointHandler (e # es) path env w ms =
     (if he_Path e = path
      then go_bind (Query_exec (he_Query e) env (he_AttemptsMetric e) (he_ResponseTimeMetric e)
                      (he_SuccessesMetric e) ms) (\<lambda>((result, err), ms).
        let queryResult = (if err \<noteq> None then False else result)
        in if queryResult then Inr (Fprintln ''healthy'' (WriteHeader 200 w), ms)
           else Inr (Fprintln ''unhealthy'' (WriteHeader 503 w), ms))
      else healthEndpointHandler es path env w ms)"

datatype http_answer = Answered go_int string | Redirected string | PageNotFound | MetricsPage mux_handler

text \<open>The answer of the current server to a GET request.\<close>

definition serve :: "ingress_state \<Rightarrow> string \<Rightarrow> query_env \<Rightarrow> 'r metrics_state
    \<Rightarrow> (http_answer \<times> 'r metrics_state) go" where
  "serve st path env ms = go_bind (deref (httpServer st)) (\<lambda>(i, server).
     case mux_route (sv_Handler server) path of
       Handler HealthEndpointHandler \<Rightarrow>
         go_bind (healthEndpointHandler (healthEndpoints st) path env empty_response ms) (\<lambda>(w, ms).
           Inr (case finish_response w of (code, body) \<Rightarrow> Answered code body, ms))
     | Handler h \<Rightarrow> Inr (MetricsPage h, ms)
     | RedirectTo p \<Rightarrow> Inr (Redirected p, ms)
     | NotFound \<Rightarrow> Inr (PageNotFound, ms))"

section \<open>The goroutine\<close>

definition add_endpoint :: "'r metric_api \<Rightarrow> fraction_fn \<Rightarrow> string option \<Rightarrow> HealthConfig
    \<Rightarrow> HealthEndpoint list \<times> 'r metrics_state \<Rightarrow> (HealthEndpoint list \<times> 'r metrics_state) go" where
  "add_endpoint api fr meter healthConfig acc = (case acc of (es, ms) \<Rightarrow>
     go_bind (newHealthEndpoint api fr meter healthConfig ms) (\<lambda>(endpoint, ms).
       Inr (case endpoint of Inl err \<Rightarrow> es | Inr e \<Rightarrow> es @ [e], ms)))"

datatype ingress_event =
    IngressConfigUpdate BunnyConfig "ConfigStage option"
  | IngressConfigClosed
  | IngressSignal

fun GoIngress_step :: "'r metric_api \<Rightarrow> fraction_fn \<Rightarrow> ingress_event \<Rightarrow> ingress_state \<Rightarrow> 'r metrics_state
    \<Rightarrow> (loop_control \<times> ingress_state \<times> 'r metrics_state) go" where
  "GoIngress_step api fr (IngressConfigUpdate c stage) st ms =
     (let st = st\<lparr>ingressConfig := Some (Ingress c)\<rparr> in
      case stage of
        None \<Rightarrow> Inr (Return, st, ms)
      | Some configStage \<Rightarrow>
          if configStage \<noteq> ConfigStageTelemetryCompleted then Inr (Return, st, ms)
          else let st = st\<lparr>ig_meter := Some ''bunny/ingress''\<rparr> in
            go_bind (go_for (add_endpoint api fr (ig_meter st))
                       (hs_Health (in_HTTPServerConfig (Ingress c))) ([], ms)) (\<lambda>(es, ms).
            go_bind (startHTTPServer (shutdownHTTPServer (st\<lparr>healthEndpoints := es\<rparr>))) (\<lambda>st.
              Inr (Continue, st, ms))))"
| "GoIngress_step api fr IngressConfigClosed st ms = Inr (Continue, st, ms)"
| "GoIngress_step api fr IngressSignal st ms = Inr (Return, shutdownHTTPServer st, ms)"

fun GoIngress_loop :: "'r metric_api \<Rightarrow> fraction_fn \<Rightarrow> ingress_event list \<Rightarrow> ingress_state \<Rightarrow> 'r metrics_state
    \<Rightarrow> (loop_control \<times> ingress_state \<times> 'r metrics_state) go" where
  "GoIngress_loop api fr [] st ms = Inr (Continue, st, ms)"
| "GoIngress_loop api fr (e # es) st ms =
     go_bind (GoIngress_step api fr e st ms) (\<lambda>(ctl, st, ms).
       case ctl of Return \<Rightarrow> Inr (Return, st, ms) | Continue \<Rightarrow> GoIngress_loop api fr es st ms)"

section \<open>Executing a query\<close>

text \<open>The outcome of a query apart from what it does to the metrics.\<close>

definition query_outcome :: "Query \<Rightarrow> query_env \<Rightarrow> verdict go" where
  "query_outcome q env = map_sum id fst (Query_exec q env None None None (empty_metrics :: unit metrics_state))"

definition query_elapsed :: "query_env \<Rightarrow> duration" where
  "query_elapsed env = time_Sub (qe_stop env) (qe_start env)"

lemma InstantQuery_exec_eq:
  "InstantQuery_exec q env a r s ms = go_bind (telemetry_InstantQuery (qe_instant_engine env) (qe_promDB env)
       (qi_timeout q) (qi_query q) (time_Add (qe_now1 env) (qi_relativeInstantTime q)) (qe_begin env)) (\<lambda>v.
     Inr (v, measured_effect True (snd v = None) (query_elapsed env) a r s ms))"
  by (auto simp: InstantQuery_exec_def go_bind_def query_elapsed_def measurable_eqs measured_effect_def Let_def
      split: prod.splits sum.splits)

lemma RangeQuery_exec_eq:
  "RangeQuery_exec q env a r s ms = go_bind (telemetry_RangeQuery (qe_range_engine env) (qe_promDB env)
       (qr_timeout q) (qr_query q) (time_Add (qe_now1 env) (qr_relativeStartTime q))
       (time_Add (qe_now2 env) (qr_relativeEndTime q)) (qr_interval q) (qe_begin env)) (\<lambda>v.
     Inr (v, measured_effect True (snd v = None) (query_elapsed env) a r s ms))"
  by (auto simp: RangeQuery_exec_def go_bind_def query_elapsed_def measurable_eqs measured_effect_def Let_def
      split: prod.splits sum.splits)

lemma Query_exec_eq:
  "Query_exec q env a r s ms = go_bind (query_outcome q env) (\<lambda>v.
     Inr (v, measured_effect True (snd v = None) (query_elapsed env) a r s ms))"
  by (cases q) (simp_all add: query_outcome_def InstantQuery_exec_eq RangeQuery_exec_eq go_bind_def split: sum.split)

interpretation query: measured_call "Query_exec q" "\<lambda>env. \<exists>v. query_outcome q env = Inr v" "\<lambda>_. True"
    "\<lambda>env. \<exists>ok. query_outcome q env = Inr (ok, None)" query_elapsed
  for q
  by unfold_locales (auto simp: Query_exec_eq)

section \<open>From the configuration to the endpoints\<close>

definition one_query :: "HealthConfig \<Rightarrow> bool" where
  "one_query hc \<longleftrightarrow> (hc_InstantQuery hc = None) \<noteq> (hc_RangeQuery hc = None)"

text \<open>The query that a configuration describes, if it describes one.\<close>

definition query_of :: "fraction_fn \<Rightarrow> HealthConfig \<Rightarrow> Query option" where
  "query_of fr hc =
     (if \<not> one_query hc then None
      else case (if hc_InstantQuery hc \<noteq> None then newInstantQuery fr hc else newRangeQuery fr hc) of
        Inr (Inr q) \<Rightarrow> Some q
      | _ \<Rightarrow> None)"

definition endpoint_specs :: "fraction_fn \<Rightarrow> HealthConfig list \<Rightarrow> (string \<times> Query) list" where
  "endpoint_specs fr hcs = List.map_filter
     (\<lambda>hc. map_option (\<lambda>q. (ensureLeadingSlash (hc_Path hc), q)) (query_of fr hc)) hcs"

definition endpoint_spec :: "HealthEndpoint \<Rightarrow> string \<times> Query" where
  "endpoint_spec e = (he_Path e, he_Query e)"

lemma new_query_total:
  "one_query hc \<Longrightarrow> \<exists>r. (if hc_InstantQuery hc \<noteq> None then newInstantQuery fr hc else newRangeQuery fr hc) = Inr r"
  by (auto simp: one_query_def newInstantQuery_def newRangeQuery_def)

text \<open>The endpoint that a health block describes, with its metrics, and all of a configuration.\<close>

definition configured_endpoint :: "'r metric_api \<Rightarrow> fraction_fn \<Rightarrow> HealthConfig \<Rightarrow> HealthEndpoint option" where
  "configured_endpoint api fr hc = map_option (\<lambda>q. let metrics = the (hc_Metrics hc) in
     \<lparr>he_Path = ensureLeadingSlash (hc_Path hc), he_Query = q, he_AttemptsMetric = counter_of api (im_Attempts metrics),
      he_ResponseTimeMetric = response_time_of api (im_ResponseTime metrics),
      he_SuccessesMetric = counter_of api (im_Successes metrics)\<rparr>) (query_of fr hc)"

definition configured_endpoints :: "'r metric_api \<Rightarrow> fraction_fn \<Rightarrow> HTTPServerConfig \<Rightarrow> HealthEndpoint list" where
  "configured_endpoints api fr cfg = List.map_filter (configured_endpoint api fr) (hs_Health cfg)"

lemma configured_endpoint_specs:
  "map endpoint_spec (configured_endpoints api fr cfg) = endpoint_specs fr (hs_Health cfg)"
proof -
  have "map endpoint_spec (List.map_filter (configured_endpoint api fr) hcs) = endpoint_specs fr hcs" for hcs
    by (induction hcs) (auto simp: endpoint_specs_def configured_endpoint_def endpoint_spec_def Let_def List.map_filter_simps
      split: option.split)
  then show ?thesis by (simp add: configured_endpoints_def)
qed

text \<open>The query of a health block with exactly one is read first, then its metrics are made.\<close>

definition made_endpoint :: "'r metric_api \<Rightarrow> HealthConfig \<Rightarrow> go_error + Query \<Rightarrow> string option \<Rightarrow> 'r metrics_state
    \<Rightarrow> ((go_error + HealthEndpoint) \<times> 'r metrics_state) go" where
  "made_endpoint api hc x meter ms = go_bind (deref (hc_Metrics hc)) (\<lambda>metrics.
        go_bind (NewCounterMetric api (im_Attempts metrics) meter ms) (\<lambda>(attempts, ms).
        go_bind (NewResponseTimeMetric api (im_ResponseTime metrics) meter ms) (\<lambda>(time, ms).
        go_bind (NewCounterMetric api (im_Successes metrics) meter ms) (\<lambda>(successes, ms).
          Inr (case x of Inl err \<Rightarrow> Inl err
               | Inr q \<Rightarrow> Inr \<lparr>he_Path = ensureLeadingSlash (hc_Path hc), he_Query = q,
                   he_AttemptsMetric = attempts, he_ResponseTimeMetric = time,
                   he_SuccessesMetric = successes\<rparr>, ms)))))"

lemma newHealthEndpoint_one:
  assumes "one_query hc"
  shows "\<exists>x. query_of fr hc = (case x of Inl err \<Rightarrow> None | Inr q \<Rightarrow> Some q)
    \<and> newHealthEndpoint api fr meter hc ms = made_endpoint api hc x meter ms"
proof -
  obtain x where x: "(if hc_InstantQuery hc \<noteq> None then newInstantQuery fr hc else newRangeQuery fr hc) = Inr x"
    using new_query_total [OF assms] by blast
  have no: "\<not> (hc_InstantQuery hc = None \<and> hc_RangeQuery hc = None)"
    "\<not> (hc_InstantQuery hc \<noteq> None \<and> hc_RangeQuery hc \<noteq> None)"
    using assms by (auto simp: one_query_def)
  have "query_of fr hc = (case x of Inl err \<Rightarrow> None | Inr q \<Rightarrow> Some q)"
    using assms unfolding query_of_def x by (simp split: sum.split)
  moreover have "newHealthEndpoint api fr meter hc ms = made_endpoint api hc x meter ms"
    unfolding newHealthEndpoint_def made_endpoint_def if_not_P [OF no(1)] if_not_P [OF no(2)] x by simp
  ultimately show ?thesis by blast
qed

lemma newHealthEndpoint_none:
  assumes "\<not> one_query hc"
  shows "query_of fr hc = None" and "\<exists>err. newHealthEndpoint api fr meter hc ms = Inr (Inl err, ms)"
  using assms by (auto simp: newHealthEndpoint_def query_of_def one_query_def)

lemma newHealthEndpoint_InrD:
  assumes "newHealthEndpoint api fr meter hc ms = Inr (r, ms')"
  shows "configured_endpoint api fr hc = (case r of Inl err \<Rightarrow> None | Inr e \<Rightarrow> Some e)"
proof (cases "one_query hc")
  case True
  from newHealthEndpoint_one [OF True, of fr api meter ms] obtain x where
    "query_of fr hc = (case x of Inl err \<Rightarrow> None | Inr q \<Rightarrow> Some q)"
    "newHealthEndpoint api fr meter hc ms = made_endpoint api hc x meter ms" by blast
  with assms show ?thesis
    by (cases "hc_Metrics hc"; cases x) (auto simp: made_endpoint_def configured_endpoint_def Let_def go_bind_eq_Inr
        dest!: NewCounterMetric_InrD NewResponseTimeMetric_InrD)
next
  case False
  with newHealthEndpoint_none(1) [OF False, of fr] newHealthEndpoint_none(2) [OF False, of api fr meter ms] assms show ?thesis
    by (auto simp: configured_endpoint_def)
qed

text \<open>What the metrics of a health block ask for; a block without exactly one query has none, and one
  with exactly one and no metrics cannot be read.\<close>

definition health_ok :: "HealthConfig \<Rightarrow> bool" where
  "health_ok hc \<longleftrightarrow> one_query hc \<longrightarrow> hc_Metrics hc \<noteq> None"

definition health_descs :: "'r metric_api \<Rightarrow> HealthConfig \<Rightarrow> prom_desc list" where
  "health_descs api hc = (if one_query hc then case hc_Metrics hc of None \<Rightarrow> []
     | Some m \<Rightarrow> metric_descs api (im_Attempts m) (im_ResponseTime m) (im_Successes m) else [])"

definition health_callbacks :: "'r metric_api \<Rightarrow> HealthConfig \<Rightarrow> (string \<times> (string \<times> string) list) list" where
  "health_callbacks api hc = (if one_query hc then case hc_Metrics hc of None \<Rightarrow> []
     | Some m \<Rightarrow> time_callbacks api (im_ResponseTime m) else [])"

definition ingress_descs :: "'r metric_api \<Rightarrow> HTTPServerConfig \<Rightarrow> prom_desc list" where
  "ingress_descs api cfg = concat (map (health_descs api) (takeWhile health_ok (hs_Health cfg)))"

lemma add_endpoint_eq:
  assumes "PromRegistry ms = Some r"
  shows "add_endpoint api fr (Some meter) hc (es, ms) =
    (if health_ok hc then go_bind (register_all api (health_descs api hc) r) (\<lambda>r'.
       Inr (es @ (case configured_endpoint api fr hc of None \<Rightarrow> [] | Some e \<Rightarrow> [e]), metrics_made (health_callbacks api hc) r' ms))
     else Inl NilDereference)"
proof (cases "one_query hc")
  case True
  from newHealthEndpoint_one [OF True, of fr api "Some meter" ms] obtain x where
    "query_of fr hc = (case x of Inl err \<Rightarrow> None | Inr q \<Rightarrow> Some q)"
    "newHealthEndpoint api fr (Some meter) hc ms = made_endpoint api hc x (Some meter) ms" by blast
  then show ?thesis
    by (cases "hc_Metrics hc"; cases "register_all api (health_descs api hc) r"; cases x)
      (simp_all add: add_endpoint_def made_endpoint_def new_metrics_eq [OF assms] True health_ok_def health_descs_def
        health_callbacks_def metrics_made_def configured_endpoint_def Let_def List.map_filter_simps)
next
  case False
  with newHealthEndpoint_none(1) [OF False, of fr] newHealthEndpoint_none(2) [OF False, of api fr "Some meter" ms] show ?thesis
    by (auto simp: add_endpoint_def health_ok_def health_descs_def health_callbacks_def configured_endpoint_def
        List.map_filter_simps metrics_made_Nil [OF assms])
qed

lemma add_endpoints_eq:
  assumes "PromRegistry ms = Some r"
  shows "go_for (add_endpoint api fr (Some meter)) hcs (es, ms) =
    go_bind (register_all api (concat (map (health_descs api) (takeWhile health_ok hcs))) r) (\<lambda>r'.
      if \<forall>hc \<in> set hcs. health_ok hc
      then Inr (es @ List.map_filter (configured_endpoint api fr) hcs,
        metrics_made (concat (map (health_callbacks api) hcs)) r' ms)
      else Inl NilDereference)"
  using assms
proof (induction hcs arbitrary: es ms r)
  case Nil
  then show ?case by (simp add: metrics_made_Nil List.map_filter_simps)
next
  case (Cons hc hcs)
  show ?case
  proof (cases "health_ok hc")
    case True
    let ?es = "es @ (case configured_endpoint api fr hc of None \<Rightarrow> [] | Some e \<Rightarrow> [e])"
    show ?thesis
    proof (cases "register_all api (health_descs api hc) r")
      case (Inr r1)
      with Cons.IH [of "metrics_made (health_callbacks api hc) r1 ms" r1 ?es] True show ?thesis
        by (cases "configured_endpoint api fr hc")
          (simp_all add: add_endpoint_eq [OF Cons.prems] register_all_append List.map_filter_simps cong: if_cong)
    qed (simp add: add_endpoint_eq [OF Cons.prems] True register_all_append)
  qed (simp add: add_endpoint_eq [OF Cons.prems])
qed

lemma add_endpoints_InrD:
  assumes "go_for (add_endpoint api fr meter) hcs (es, ms) = Inr (es', ms')"
  shows "es' = es @ List.map_filter (configured_endpoint api fr) hcs"
  using assms
proof (induction hcs arbitrary: es ms)
  case (Cons hc hcs)
  from Cons.prems obtain es1 ms1 where step: "add_endpoint api fr meter hc (es, ms) = Inr (es1, ms1)"
    and rest: "go_for (add_endpoint api fr meter) hcs (es1, ms1) = Inr (es', ms')"
    by (auto simp: go_bind_eq_Inr)
  from step obtain r where 1: "newHealthEndpoint api fr meter hc ms = Inr (r, ms1)"
    and 2: "es1 = (case r of Inl err \<Rightarrow> es | Inr e \<Rightarrow> es @ [e])"
    by (auto simp: add_endpoint_def go_bind_eq_Inr)
  from newHealthEndpoint_InrD [OF 1] Cons.IH [OF rest] 2 show ?case
    by (cases r) (auto simp: List.map_filter_simps)
qed (simp add: List.map_filter_simps)

section \<open>Answering requests\<close>

lemma handler_missing: "path \<notin> he_Path ` set es \<Longrightarrow> healthEndpointHandler es path env w ms = Inr (w, ms)"
  by (induction es) auto

lemma handler_found:
  assumes "distinct (map he_Path es)" and "e \<in> set es"
  shows "healthEndpointHandler es (he_Path e) env w ms = healthEndpointHandler [e] (he_Path e) env w ms"
  using assms by (induction es) (auto simp: image_iff)

lemma handler_single:
  "healthEndpointHandler [e] (he_Path e) env empty_response ms = go_bind (query_outcome (he_Query e) env) (\<lambda>v.
     Inr (if v = (True, None) then Fprintln ''healthy'' (WriteHeader 200 empty_response)
          else Fprintln ''unhealthy'' (WriteHeader 503 empty_response),
          measured_effect True (snd v = None) (query_elapsed env) (he_AttemptsMetric e)
            (he_ResponseTimeMetric e) (he_SuccessesMetric e) ms))"
proof (cases "query_outcome (he_Query e) env")
  case (Inr v)
  obtain ok err where "v = (ok, err)" by fastforce
  with Inr show ?thesis by (cases ok; cases err) (simp_all add: Query_exec_eq Let_def)
qed (simp add: Query_exec_eq)

text \<open>The server that a configuration describes: its routes are those registered, no others. The
  patterns can be registered if they are distinct and have no space or tab.\<close>

definition server_of :: "HTTPServerConfig \<Rightarrow> http_server" where
  "server_of cfg = \<lparr>sv_Addr = '':'' @ show_int (sint (hs_Port cfg)),
     sv_ReadTimeout = milliseconds (hs_ReadTimeoutMilliseconds cfg),
     sv_ReadHeaderTimeout = milliseconds (hs_ReadHeaderTimeoutMilliseconds cfg),
     sv_WriteTimeout = milliseconds (hs_WriteTimeoutMilliseconds cfg),
     sv_IdleTimeout = milliseconds (hs_IdleTimeoutMilliseconds cfg),
     sv_MaxHeaderBytes = hs_MaxHeaderBytes cfg, sv_Handler = server_patterns cfg\<rparr>"

definition routes_ok :: "HTTPServerConfig \<Rightarrow> bool" where
  "routes_ok cfg \<longleftrightarrow> distinct (map fst (server_patterns cfg)) \<and> (\<forall>p \<in> set (map fst (server_patterns cfg)). valid_pattern p)"

definition plain_routes :: "HTTPServerConfig \<Rightarrow> bool" where
  "plain_routes cfg \<longleftrightarrow> (\<forall>p \<in> set (map fst (server_patterns cfg)). plain_pattern p)"

text \<open>The panic of registering one of some patterns.\<close>

definition pattern_panic :: "string list \<Rightarrow> go_panic \<Rightarrow> bool" where
  "pattern_panic ps p \<longleftrightarrow> (\<exists>q. q \<in> set ps \<and>
     (\<not> distinct ps \<and> p = MultipleRegistrations q \<or> \<not> valid_pattern q \<and> p = InvalidPattern q))"

lemma routes_registered:
  "if routes_ok cfg then go_for (\<lambda>(p, h). mux_Handle p h) (server_patterns cfg) [] = Inr (server_patterns cfg)
   else \<exists>p. go_for (\<lambda>(p, h). mux_Handle p h) (server_patterns cfg) [] = Inl p
     \<and> pattern_panic (map fst (server_patterns cfg)) p"
proof (cases "routes_ok cfg")
  case True
  with mux.handle_all_total [of "[]" "server_patterns cfg"] mux_Handle_all [of "server_patterns cfg" "[]"] show ?thesis
    by (auto simp: routes_ok_def mux.handle_all_def mux_patterns_def)
next
  case False
  then have "\<not> (distinct (mux_patterns [] @ map fst (server_patterns cfg)) \<and> (\<forall>p \<in> set (map fst (server_patterns cfg)). valid_pattern p))"
    by (auto simp: routes_ok_def mux_patterns_def)
  from mux.handle_all_total [of "[]" "server_patterns cfg", unfolded if_not_P [OF this] mux.handle_all_def]
  obtain q where "q \<in> set (map fst (server_patterns cfg))"
    "go_for (\<lambda>(p, h). mux_Handle p h) (server_patterns cfg) [] = Inl (MultipleRegistrations q)
       \<and> \<not> distinct (mux_patterns [] @ map fst (server_patterns cfg))
     \<or> go_for (\<lambda>(p, h). mux_Handle p h) (server_patterns cfg) [] = Inl (InvalidPattern q) \<and> \<not> valid_pattern q"
    by (auto simp: mux_patterns_def)
  with False show ?thesis by (auto simp: pattern_panic_def mux_patterns_def simp del: set_map)
qed

lemma startHTTPServer_total:
  assumes "ingressConfig st = Some ic"
  shows "let cfg = in_HTTPServerConfig ic in if routes_ok cfg
    then startHTTPServer st = Inr (st\<lparr>httpServer := Some (ig_next st, server_of cfg), ig_next := ig_next st + 1,
                 ig_servers := ig_servers st @ [ServerListen (ig_next st)]\<rparr>)
    else \<exists>p. startHTTPServer st = Inl p \<and> pattern_panic (map fst (server_patterns cfg)) p"
  using routes_registered [of "in_HTTPServerConfig ic"] assms
  by (auto simp: startHTTPServer_def server_of_def Let_def split: if_splits)

lemma startHTTPServer_InrD:
  assumes "startHTTPServer st = Inr st'" and "ingressConfig st = Some ic"
  shows "routes_ok (in_HTTPServerConfig ic) \<and> healthEndpoints st' = healthEndpoints st
    \<and> httpServer st' = Some (ig_next st, server_of (in_HTTPServerConfig ic))"
  using startHTTPServer_total [OF assms(2)] assms(1) by (auto simp: Let_def split: if_splits)

lemma server_routes:
  assumes "routes_ok cfg" and "(p, h) \<in> set (server_patterns cfg)" and "clean_path p"
  shows "mux_route (sv_Handler (server_of cfg)) p = Handler h"
  using assms by (simp add: routes_ok_def server_of_def mux_route_exact)

lemma shutdown_frame [simp]:
  "ingressConfig (shutdownHTTPServer st) = ingressConfig st"
  "healthEndpoints (shutdownHTTPServer st) = healthEndpoints st"
  "httpServer (shutdownHTTPServer st) = httpServer st"
  "ig_next (shutdownHTTPServer st) = ig_next st"
  by (auto simp: shutdownHTTPServer_def split: option.split)

lemma GoIngress_update_InrD:
  assumes "GoIngress_step api fr (IngressConfigUpdate c (Some ConfigStageTelemetryCompleted)) st ms
      = Inr (ctl, st', ms')"
  shows "ctl = Continue \<and> routes_ok (in_HTTPServerConfig (Ingress c))
    \<and> healthEndpoints st' = configured_endpoints api fr (in_HTTPServerConfig (Ingress c))
    \<and> httpServer st' = Some (ig_next st, server_of (in_HTTPServerConfig (Ingress c)))"
proof -
  let ?st = "st\<lparr>ingressConfig := Some (Ingress c), ig_meter := Some ''bunny/ingress''\<rparr>"
  from assms obtain es where
    es: "go_for (add_endpoint api fr (Some ''bunny/ingress'')) (hs_Health (in_HTTPServerConfig (Ingress c))) ([], ms)
      = Inr (es, ms')"
    and start: "startHTTPServer (shutdownHTTPServer (?st\<lparr>healthEndpoints := es\<rparr>)) = Inr st'" and "ctl = Continue"
    by (auto simp: go_bind_eq_Inr Let_def)
  with startHTTPServer_InrD [OF start] add_endpoints_InrD [OF es] show ?thesis
    by (auto simp: configured_endpoints_def)
qed

lemma distinct_inj: "distinct (map f xs) \<Longrightarrow> x \<in> set xs \<Longrightarrow> y \<in> set xs \<Longrightarrow> f x = f y \<Longrightarrow> x = y"
  by (metis distinct_map inj_onD)

lemma endpoint_specs_paths: "distinct (map (\<lambda>hc. ensureLeadingSlash (hc_Path hc)) hcs)
  \<Longrightarrow> distinct (map fst (endpoint_specs fr hcs))"
  by (induction hcs)
    (auto simp: endpoint_specs_def List.map_filter_simps List.map_filter_def split: option.splits)

lemma endpoint_specs_iff:
  "(p, q) \<in> set (endpoint_specs fr hcs) \<longleftrightarrow> (\<exists>hc \<in> set hcs. p = ensureLeadingSlash (hc_Path hc) \<and> query_of fr hc = Some q)"
  by (force simp: endpoint_specs_def List.map_filter_def)

lemma serve_health:
  assumes "httpServer st = Some (i, server)" and "mux_route (sv_Handler server) path = Handler HealthEndpointHandler"
  shows "serve st path env ms = go_bind (healthEndpointHandler (healthEndpoints st) path env empty_response ms)
    (\<lambda>(w, ms). Inr (case finish_response w of (code, body) \<Rightarrow> Answered code body, ms))"
  using assms by (simp add: serve_def)

definition healthy_answer :: http_answer where
  "healthy_answer = Answered 200 (''healthy'' @ [CHR 0x0A])"

definition unhealthy_answer :: http_answer where
  "unhealthy_answer = Answered 503 (''unhealthy'' @ [CHR 0x0A])"

lemmas response_defs = finish_response_def Fprintln_def WriteHeader_def empty_response_def
  healthy_answer_def unhealthy_answer_def

text \<open>What the handler makes of a request for the path of a health block.\<close>

lemma health_handler:
  assumes "map endpoint_spec es = endpoint_specs fr hcs" and "distinct (map (\<lambda>hc. ensureLeadingSlash (hc_Path hc)) hcs)"
    and "hc \<in> set hcs"
  shows "let path = ensureLeadingSlash (hc_Path hc);
      answer = go_bind (healthEndpointHandler es path env empty_response ms)
        (\<lambda>(w, ms). Inr (case finish_response w of (code, body) \<Rightarrow> Answered code body, ms))
    in case query_of fr hc of
        None \<Rightarrow> answer = Inr (Answered 200 [], ms)
      | Some q \<Rightarrow> map_sum id fst answer =
          go_bind (query_outcome q env) (\<lambda>v. Inr (if v = (True, None) then healthy_answer else unhealthy_answer))"
proof -
  let ?path = "ensureLeadingSlash (hc_Path hc)"
  have paths: "map he_Path es = map fst (endpoint_specs fr hcs)"
    using arg_cong [OF assms(1), of "map fst"] by (simp add: endpoint_spec_def comp_def)
  show ?thesis
  proof (cases "query_of fr hc")
    case None
    have "?path \<notin> set (map fst (endpoint_specs fr hcs))"
      using distinct_inj [OF assms(2,3)] None by (auto simp: endpoint_specs_iff)
    then have "?path \<notin> he_Path ` set es" by (simp add: paths [symmetric])
    from handler_missing [OF this, of env empty_response ms] None show ?thesis by (simp add: response_defs)
  next
    case (Some q)
    then have "(?path, q) \<in> set (map endpoint_spec es)"
      using assms(3) by (auto simp: assms(1) endpoint_specs_iff)
    then obtain e where e: "e \<in> set es" "he_Path e = ?path" "he_Query e = q"
      by (auto simp: endpoint_spec_def)
    have "distinct (map he_Path es)" unfolding paths using assms(2) by (rule endpoint_specs_paths)
    from handler_found [OF this e(1), of env empty_response ms] handler_single [of e env ms] Some e
    show ?thesis by (cases "query_outcome q env") (auto simp: response_defs)
  qed
qed

section \<open>The life of the servers\<close>

text \<open>The servers that run after a log of starts and shutdowns.\<close>

definition running :: "server_event list \<Rightarrow> nat list" where
  "running evs = fold (\<lambda>e xs. case e of ServerListen i \<Rightarrow> xs @ [i] | ServerShutdown i \<Rightarrow> removeAll i xs) evs []"

lemma running_simps [simp]:
  "running [] = []" "running (evs @ [ServerListen i]) = running evs @ [i]"
  "running (evs @ [ServerShutdown i]) = removeAll i (running evs)"
  by (simp_all add: running_def)

definition servers_ok :: "ingress_state \<Rightarrow> bool" where
  "servers_ok st \<longleftrightarrow> running (ig_servers st) = (case httpServer st of None \<Rightarrow> [] | Some (i, _) \<Rightarrow> [i])
     \<and> (\<forall>n. length (running (take n (ig_servers st))) \<le> 1)"

lemma take_snoc: "take n (xs @ [x]) = (if n \<le> length xs then take n xs else xs @ [x])"
  by simp

lemma servers_ok_shutdown:
  assumes "servers_ok st"
  shows "running (ig_servers (shutdownHTTPServer st)) = []"
    and "length (running (take n (ig_servers (shutdownHTTPServer st)))) \<le> 1"
  using assms
  by (auto simp: servers_ok_def shutdownHTTPServer_def take_snoc simp del: take_append split: option.splits)

lemma servers_ok_start:
  assumes "startHTTPServer (shutdownHTTPServer st) = Inr st'" and "servers_ok st"
  shows "servers_ok st'"
proof -
  from assms(1) obtain server where
    "ig_servers st' = ig_servers (shutdownHTTPServer st) @ [ServerListen (ig_next st)]"
    "httpServer st' = Some (ig_next st, server)"
    by (auto simp: startHTTPServer_def go_bind_eq_Inr Let_def)
  with servers_ok_shutdown [OF assms(2)] show ?thesis
    by (auto simp: servers_ok_def take_snoc simp del: take_append)
qed

lemma servers_ok_step:
  assumes "GoIngress_step api fr e st ms = Inr (Continue, st', ms')" and "servers_ok st"
  shows "servers_ok st'"
proof (cases e)
  case (IngressConfigUpdate c stage)
  with assms obtain es where
    "startHTTPServer (shutdownHTTPServer (st\<lparr>ingressConfig := Some (Ingress c),
       ig_meter := Some ''bunny/ingress'', healthEndpoints := es\<rparr>)) = Inr st'"
    by (auto simp: go_bind_eq_Inr Let_def split: option.splits if_splits)
  with servers_ok_start [OF this] assms(2) show ?thesis by (simp add: servers_ok_def)
qed (use assms in auto)

lemma servers_ok_loop:
  assumes "GoIngress_loop api fr es st ms = Inr (Continue, st', ms')" and "servers_ok st"
  shows "servers_ok st'"
  using assms
proof (induction es arbitrary: st ms)
  case (Cons e es)
  from Cons.prems(1) obtain ctl st1 ms1 where step: "GoIngress_step api fr e st ms = Inr (ctl, st1, ms1)"
    by (auto simp: go_bind_eq_Inr)
  with Cons.prems(1) have ctl: "ctl = Continue" and rest: "GoIngress_loop api fr es st1 ms1 = Inr (Continue, st', ms')"
    by (cases ctl; simp)+
  show ?case by (rule Cons.IH [OF rest servers_ok_step [OF step [unfolded ctl] Cons.prems(2)]])
qed simp

section \<open>Properties\<close>

text \<open>C12: After a configuration has been applied whose paths have no braces or percent signs, a GET
  request for the path of one of its health endpoints is answered as follows. If the path is not clean (it has a
  double slash or a dot segment, say), the request is redirected and no query is run. Otherwise it is
  answered by that endpoint's query: 200 and "healthy" if the query ran without error
  and its verdict is true, 503 and "unhealthy" if it failed or its verdict is false. For a health
  block that describes no query (none or both kinds given, a duration that does not parse) the
  server nevertheless answers 200, with an empty body.\<close>

theorem health_endpoint_answers:
  assumes "GoIngress_step api fr (IngressConfigUpdate c (Some ConfigStageTelemetryCompleted)) st ms
      = Inr (ctl, st', ms')"
    and "plain_routes (in_HTTPServerConfig (Ingress c))"
    and "hc \<in> set (hs_Health (in_HTTPServerConfig (Ingress c)))"
  shows "let path = ensureLeadingSlash (hc_Path hc) in
    if \<not> clean_path path
    then \<exists>p \<in> {cleanPath path, cleanPath path @ ''/''}. serve st' path env ms0 = Inr (Redirected p, ms0)
    else case query_of fr hc of
      None \<Rightarrow> serve st' path env ms0 = Inr (Answered 200 [], ms0)
    | Some q \<Rightarrow> map_sum id fst (serve st' path env ms0) =
        go_bind (query_outcome q env) (\<lambda>v. Inr (if v = (True, None) then healthy_answer else unhealthy_answer))"
proof -
  let ?path = "ensureLeadingSlash (hc_Path hc)"
  let ?cfg = "in_HTTPServerConfig (Ingress c)"
  from GoIngress_update_InrD [OF assms(1)] have endpoints: "healthEndpoints st' = configured_endpoints api fr ?cfg"
    and routes: "routes_ok ?cfg" and server: "httpServer st' = Some (ig_next st, server_of ?cfg)" by auto
  note specs = configured_endpoint_specs [of api fr ?cfg, folded endpoints]
  have unclean: "\<exists>p \<in> {cleanPath ?path, cleanPath ?path @ ''/''}. serve st' ?path env ms0 = Inr (Redirected p, ms0)"
    if "\<not> clean_path ?path"
    using mux_route_unclean [OF that, of "sv_Handler (server_of ?cfg)"] server by (auto simp: serve_def)
  have answer: "case query_of fr hc of
      None \<Rightarrow> serve st' ?path env ms0 = Inr (Answered 200 [], ms0)
    | Some q \<Rightarrow> map_sum id fst (serve st' ?path env ms0) =
        go_bind (query_outcome q env) (\<lambda>v. Inr (if v = (True, None) then healthy_answer else unhealthy_answer))"
    if clean: "clean_path ?path"
  proof -
    have "mux_route (sv_Handler (server_of ?cfg)) ?path = Handler HealthEndpointHandler"
      using assms(3) routes clean by (intro server_routes) (auto simp: server_patterns_def)
    note serve = serve_health [OF server this, of env ms0]
    have paths: "distinct (map (\<lambda>hc. ensureLeadingSlash (hc_Path hc)) (hs_Health ?cfg))"
      using routes by (simp add: routes_ok_def server_patterns_def comp_def)
    show ?thesis using health_handler [OF specs paths assms(3), of env ms0] unfolding serve Let_def .
  qed
  from unclean answer show ?thesis by (simp add: Let_def)
qed

definition example_health :: "HealthConfig list" where
  "example_health =
     [\<lparr>hc_Path = ''live'', hc_InstantQuery = Some \<lparr>iq_Timeout = ''5s'', iq_RelativeInstantTime = ''-5s'',
         iq_Query = ''up''\<rparr>, hc_RangeQuery = None, hc_Metrics = Some \<lparr>im_Attempts = enabled_metric ''a'',
           im_ResponseTime = enabled_metric ''r'', im_Successes = disabled_metric\<rparr>\<rparr>,
      \<lparr>hc_Path = ''bad'', hc_InstantQuery = None, hc_RangeQuery = None, hc_Metrics = None\<rparr>]"

definition ingress_example :: BunnyConfig where
  "ingress_example = generateDefaultConfig\<lparr>Ingress := \<lparr>in_HTTPServerConfig =
     (in_HTTPServerConfig (Ingress generateDefaultConfig))\<lparr>hs_Health := example_health\<rparr>\<rparr>\<rparr>"

text \<open>An engine that gives the scalar 1 to every instant query.\<close>

definition one_engine :: query_env where
  "one_engine = \<lparr>qe_instant_engine = Some (\<lambda>db deadline query instant. Inr (Inr \<lparr>result_Err = None,
       result_Value = Some \<lparr>value_Type = ValueTypeScalar, value_Scalar = Inr one_point_zero,
         value_Vector = Inr [], value_Matrix = Inr [], value_String = []\<rparr>, result_Warnings = []\<rparr>)),
     qe_range_engine = None, qe_promDB = None, qe_now1 = 0, qe_now2 = 0, qe_start = 0, qe_begin = 0, qe_stop = 0\<rparr>"

lemma example_queries:
  "query_of fr (example_health ! 0) = Some (QueryInstant \<lparr>qi_timeout = 5000000000,
     qi_relativeInstantTime = - 5000000000, qi_query = ''up''\<rparr>)"
  "query_of fr (example_health ! 1) = None"
proof -
  have 5: "show_nat 5 = ''5''" by code_simp
  have "ParseDuration fr ''5s'' = Inr 5000000000" "ParseDuration fr ''-5s'' = Inr (- 5000000000)"
    using ParseDuration_number [of "''s''" 1000000000 5 fr] unfolding 5 by (simp_all add: unitMap_def two63_def)
  then show "query_of fr (example_health ! 0) = Some (QueryInstant \<lparr>qi_timeout = 5000000000,
     qi_relativeInstantTime = - 5000000000, qi_query = ''up''\<rparr>)"
    by (simp add: query_of_def one_query_def example_health_def newInstantQuery_def)
  show "query_of fr (example_health ! 1) = None"
    by (simp add: query_of_def one_query_def example_health_def)
qed

lemma GoIngress_update_total:
  assumes "PromRegistry ms = Some r"
  shows "let cfg = in_HTTPServerConfig (Ingress c);
      result = GoIngress_step api fr (IngressConfigUpdate c (Some ConfigStageTelemetryCompleted)) st ms
    in case register_all api (ingress_descs api cfg) r of
        Inl p \<Rightarrow> result = Inl p
      | Inr r' \<Rightarrow>
          if \<exists>hc \<in> set (hs_Health cfg). \<not> health_ok hc then result = Inl NilDereference
          else if \<not> routes_ok cfg
          then \<exists>p. result = Inl p \<and> pattern_panic (map fst (server_patterns cfg)) p
          else \<exists>st'. result = Inr (Continue, st', metrics_made (concat (map (health_callbacks api) (hs_Health cfg))) r' ms)"
proof -
  let ?cfg = "in_HTTPServerConfig (Ingress c)"
  let ?st = "st\<lparr>ingressConfig := Some (Ingress c), ig_meter := Some ''bunny/ingress'',
    healthEndpoints := List.map_filter (configured_endpoint api fr) (hs_Health ?cfg)\<rparr>"
  note add = add_endpoints_eq [OF assms, of api fr "''bunny/ingress''" "hs_Health ?cfg" "[]", folded ingress_descs_def]
  show ?thesis
  proof (cases "register_all api (ingress_descs api ?cfg) r")
    case (Inr r')
    show ?thesis
    proof (cases "\<forall>hc \<in> set (hs_Health ?cfg). health_ok hc")
      case True
      with add Inr startHTTPServer_total [of "shutdownHTTPServer ?st" "Ingress c"] show ?thesis
        by (simp add: Let_def) (auto split: if_splits)
    qed (use add Inr in \<open>auto simp: Let_def\<close>)
  qed (use add in \<open>simp add: Let_def\<close>)
qed

lemma ingress_example_routes:
  "routes_ok (in_HTTPServerConfig (Ingress ingress_example))" "plain_routes (in_HTTPServerConfig (Ingress ingress_example))"
  "\<forall>hc \<in> set (hs_Health (in_HTTPServerConfig (Ingress ingress_example))). health_ok hc"
  by (simp_all add: ingress_example_def example_health_def one_query_def health_ok_def server_patterns_def routes_ok_def
      valid_pattern_def plain_routes_def plain_pattern_def generateDefaultConfig_def ensureLeadingSlash_def starts_with_def)

lemma ingress_example_runs:
  "\<exists>st' ms'. GoIngress_step example_api fr (IngressConfigUpdate ingress_example (Some ConfigStageTelemetryCompleted))
     initial_ingress_state (empty_metrics\<lparr>PromRegistry := Some ()\<rparr>) = Inr (Continue, st', ms')"
  using GoIngress_update_total [of "empty_metrics\<lparr>PromRegistry := Some ()\<rparr>" "()" ingress_example example_api fr
      initial_ingress_state] ingress_example_routes
  by (auto simp: Let_def simp del: GoIngress_step.simps)

lemma one_engine_outcome:
  "query_outcome (QueryInstant q) one_engine = Inr (True, None)"
  by (simp add: query_outcome_def InstantQuery_exec_eq telemetry_InstantQuery_def one_engine_def
      handleQueryResult_def value_verdict_def one_point_zero_def)

theorem health_endpoint_answers_witness:
  "\<exists>st' ms'. GoIngress_step example_api (\<lambda>f u k. 0)
      (IngressConfigUpdate ingress_example (Some ConfigStageTelemetryCompleted))
      initial_ingress_state (empty_metrics\<lparr>PromRegistry := Some ()\<rparr>) = Inr (Continue, st', ms')
    \<and> map_sum id fst (serve st' ''/live'' one_engine ms') = Inr healthy_answer
    \<and> serve st' ''/bad'' one_engine ms' = Inr (Answered 200 [], ms')"
proof -
  obtain st' ms' where run: "GoIngress_step example_api (\<lambda>f u k. 0)
      (IngressConfigUpdate ingress_example (Some ConfigStageTelemetryCompleted))
      initial_ingress_state (empty_metrics\<lparr>PromRegistry := Some ()\<rparr>) = Inr (Continue, st', ms')"
    using ingress_example_runs by blast
  have mem: "example_health ! i \<in> set (hs_Health (in_HTTPServerConfig (Ingress ingress_example)))" if "i < 2" for i
    using that by (auto simp: ingress_example_def example_health_def less_2_cases_iff)
  have path: "ensureLeadingSlash (hc_Path (example_health ! 0)) = ''/live''"
    "ensureLeadingSlash (hc_Path (example_health ! 1)) = ''/bad''"
    by (simp_all add: example_health_def ensureLeadingSlash_def starts_with_def)
  have clean: "clean_path ''/live''" "clean_path ''/bad''"
    by (simp_all add: clean_path_def cleanPath_def path_Clean_def starts_with_def ends_slash_def Let_def)
  have "map_sum id fst (serve st' ''/live'' one_engine ms') = Inr healthy_answer"
    using health_endpoint_answers [OF run ingress_example_routes(2) mem, of 0 one_engine ms', unfolded path example_queries Let_def]
      clean by (simp add: one_engine_outcome)
  moreover have "serve st' ''/bad'' one_engine ms' = Inr (Answered 200 [], ms')"
    using health_endpoint_answers [OF run ingress_example_routes(2) mem, of 1 one_engine ms', unfolded path example_queries Let_def]
      clean by simp
  ultimately show ?thesis using run by blast
qed


text \<open>A path with a space.\<close>

definition spaced_example :: BunnyConfig where
  "spaced_example = generateDefaultConfig\<lparr>Ingress := \<lparr>in_HTTPServerConfig =
     (in_HTTPServerConfig (Ingress generateDefaultConfig))\<lparr>hs_PrometheusMetricsPath := ''prom metrics''\<rparr>\<rparr>\<rparr>"


text \<open>C26: However often the configuration changes, at no moment two servers are up: a server is
  shut down before the next one is started, and after the shutdown that follows a signal no server
  is left.\<close>

theorem one_server_at_a_time:
  assumes "GoIngress_loop api fr es initial_ingress_state ms = Inr (Continue, st, ms')"
  shows "(\<forall>n. length (running (take n (ig_servers st))) \<le> 1)
    \<and> GoIngress_step api fr IngressSignal st ms' = Inr (Return, shutdownHTTPServer st, ms')
    \<and> running (ig_servers (shutdownHTTPServer st)) = []"
proof -
  have "servers_ok initial_ingress_state" by (simp add: servers_ok_def initial_ingress_state_def)
  with assms have "servers_ok st" by (rule servers_ok_loop)
  then show ?thesis using servers_ok_shutdown(1) by (auto simp: servers_ok_def)
qed

theorem one_server_at_a_time_witness:
  "\<exists>st ms'. GoIngress_loop example_api (\<lambda>f u k. 0)
      [IngressConfigUpdate ingress_example (Some ConfigStageTelemetryCompleted)] initial_ingress_state
      (empty_metrics\<lparr>PromRegistry := Some ()\<rparr>) = Inr (Continue, st, ms')
    \<and> ig_servers st \<noteq> [] \<and> running (ig_servers (shutdownHTTPServer st)) = []"
proof -
  obtain st ms' where run: "GoIngress_step example_api (\<lambda>f u k. 0)
      (IngressConfigUpdate ingress_example (Some ConfigStageTelemetryCompleted))
      initial_ingress_state (empty_metrics\<lparr>PromRegistry := Some ()\<rparr>) = Inr (Continue, st, ms')"
    using ingress_example_runs by blast
  then have "ig_servers st \<noteq> []"
    by (auto simp: go_bind_eq_Inr startHTTPServer_def Let_def)
  moreover have loop: "GoIngress_loop example_api (\<lambda>f u k. 0)
      [IngressConfigUpdate ingress_example (Some ConfigStageTelemetryCompleted)] initial_ingress_state
      (empty_metrics\<lparr>PromRegistry := Some ()\<rparr>) = Inr (Continue, st, ms')"
    using run by (simp del: GoIngress_step.simps)
  ultimately show ?thesis using one_server_at_a_time [OF loop] by blast
qed

text \<open>C33: The times of an instant query mean what they say. For whole numbers \<open>n\<close> and \<open>m\<close> of any of the
  units of the language, small enough for 64 bits, the timeout \<open>n\<close> and the relative time \<open>-m\<close> are read
  exactly, whatever the treatment of fractions, and executing the query asks the engine, with the database there
  is, for the instant \<open>m\<close> units before the time of the request, with a deadline \<open>n\<close> units after the query
  was begun; the verdict is that on the engine's reply, and the execution is counted as an attempt, and as a success if there was no error.\<close>

theorem instant_query_times:
  assumes "unitMap u = Some unit" and "n * unit < two63" and "unitMap v = Some unit'" and "m * unit' < two63"
    and "hc_InstantQuery hc = Some \<lparr>iq_Timeout = show_nat n @ u,
      iq_RelativeInstantTime = CHR ''-'' # show_nat m @ v, iq_Query = text\<rparr>"
    and "qe_instant_engine env = Some engine"
  shows "\<exists>q. newInstantQuery fr hc = Inr (Inr (QueryInstant q))
    \<and> InstantQuery_exec q env a r s ms =
        go_bind (engine (qe_promDB env) (qe_begin env + int (n * unit)) text (qe_now1 env - int (m * unit'))) (\<lambda>reply.
        go_bind (case reply of Inl err \<Rightarrow> Inr (False, Some err) | Inr result \<Rightarrow> handleQueryResult result) (\<lambda>v.
          Inr (v, measured_effect True (snd v = None) (time_Sub (qe_stop env) (qe_start env)) a r s ms)))"
proof -
  have s: "sint (of_nat k :: 64 word) = int k" "sint (- of_nat k :: 64 word) = - int k" if "k < two63" for k
  proof -
    have "sint (word_of_int (int k) :: 64 word) = int k" "sint (word_of_int (- int k) :: 64 word) = - int k"
      by (rule sint_word_of_int64; use that in \<open>simp add: two63_def minDuration_def maxDuration_def\<close>)+
    then show "sint (of_nat k :: 64 word) = int k" "sint (- of_nat k :: 64 word) = - int k" by simp_all
  qed
  show ?thesis
    using ParseDuration_number(1) [OF assms(1,2), of fr] ParseDuration_number(2) [OF assms(3,4), of fr]
      assms(5,6) s [OF assms(2)] s [OF assms(4)]
    by (simp add: newInstantQuery_def InstantQuery_exec_eq telemetry_InstantQuery_def time_Add_def query_elapsed_def Let_def
        go_bind_def del: of_nat_mult split: sum.split)
qed

theorem instant_query_times_witness:
  "\<exists>q. newInstantQuery (\<lambda>f u k. 0) (example_health ! 0) = Inr (Inr (QueryInstant q))
     \<and> map_sum id fst (InstantQuery_exec q one_engine None None None (empty_metrics :: unit metrics_state)) = Inr (True, None)"
proof -
  have 5: "show_nat 5 = ''5''" by code_simp
  have unit: "unitMap ''s'' = Some 1000000000" "5 * 1000000000 < two63" by (simp_all add: unitMap_def two63_def)
  have iq: "hc_InstantQuery (example_health ! 0) = Some \<lparr>iq_Timeout = show_nat 5 @ ''s'',
      iq_RelativeInstantTime = CHR ''-'' # show_nat 5 @ ''s'', iq_Query = ''up''\<rparr>"
    unfolding 5 by (simp add: example_health_def)
  obtain engine where engine: "qe_instant_engine one_engine = Some engine" by (simp add: one_engine_def)
  from instant_query_times [OF unit unit iq engine, of "\<lambda>f u k. 0" None None None "empty_metrics :: unit metrics_state"] engine
  show ?thesis
    by (auto simp: one_engine_def handleQueryResult_def value_verdict_def one_point_zero_def)
qed

text \<open>C34: Over any sequence of executions of a health query that do not panic, the attempts counter of
  its endpoint grows by their number and the successes counter by the number of those that ran
  without an error. An execution that found the endpoint unhealthy counts as a success too, although the
  README calls a query successful only if all its values are 1.0.\<close>

theorem health_query_counts:
  assumes "\<And>env. env \<in> set envs \<Longrightarrow> \<exists>v. query_outcome q env = Inr v"
    and "cm_PromCounter ca \<noteq> cm_PromCounter cs"
  shows "\<exists>ms'. go_for (\<lambda>env ms. map_sum id snd (Query_exec q env (Some ca) r (Some cs) ms)) envs ms = Inr ms'
    \<and> prom_incs (cm_PromCounter ca) (ms_events ms') = prom_incs (cm_PromCounter ca) (ms_events ms) + length envs
    \<and> prom_incs (cm_PromCounter cs) (ms_events ms') = prom_incs (cm_PromCounter cs) (ms_events ms)
        + length (filter (\<lambda>env. \<exists>ok. query_outcome q env = Inr (ok, None)) envs)"
  using query.run_all_counts [where r = r and ms = ms, OF assms] by (auto simp: query.run_all_def)

theorem health_query_counts_witness:
  "\<exists>ms' :: unit metrics_state. go_for (\<lambda>env ms. map_sum id snd (Query_exec
      (QueryInstant \<lparr>qi_timeout = 5, qi_relativeInstantTime = 0, qi_query = ''up''\<rparr>) env
      (Some (example_counter ''a'')) None (Some (example_counter ''s'')) ms)) [one_engine, one_engine] empty_metrics = Inr ms'
    \<and> prom_incs (cm_PromCounter (example_counter ''s'')) (ms_events ms') = 2"
proof -
  let ?q = "QueryInstant \<lparr>qi_timeout = 5, qi_relativeInstantTime = 0, qi_query = ''up''\<rparr>"
  have out: "query_outcome ?q one_engine = Inr (True, None)" by (rule one_engine_outcome)
  have ne: "cm_PromCounter (example_counter ''a'') \<noteq> cm_PromCounter (example_counter ''s'')"
    by (simp add: example_counter_def)
  have safe: "\<exists>v. query_outcome ?q env = Inr v" if "env \<in> set [one_engine, one_engine]" for env
    using that out by auto
  have n: "length (filter (\<lambda>env. \<exists>ok. query_outcome ?q env = Inr (ok, None)) [one_engine, one_engine]) = 2"
    using out by auto
  have 0: "prom_incs d (ms_events (empty_metrics :: unit metrics_state)) = 0" for d by (simp add: empty_metrics_def)
  from health_query_counts [where q = ?q and envs = "[one_engine, one_engine]" and r = None
      and ms = "empty_metrics :: unit metrics_state", OF safe ne]
  show ?thesis unfolding n 0 add_0 by blast
qed

end
