(* ===== verification/Signals.thy ===== *)
theory Signals
  imports Config
begin

text \<open>
  The package \<open>signals\<close> (\<open>src/src/bunny/signals/signals.go\<close>): the goroutine that receives SIGINT and
  SIGTERM, waits until no process matches the watched expression, and then passes the signal on to
  the other goroutines.

  The process table is the environment: \<open>table i\<close> gives the command lines at the \<open>i\<close>-th look (the empty
  string for a process whose command line cannot be read, no process if the table cannot be read).
  The loop that waits may run forever; then the result is \<open>None\<close>.
\<close>

datatype os_signal = SIGINT | SIGTERM

record signals_state =
  signalsConfig :: "SignalsConfig option"
  watchedProcessCommandLineRegEx :: "string option"
  osSignalListenerChannels :: nat

definition initial_signals_state :: signals_state where
  "initial_signals_state = \<lparr>signalsConfig = None, watchedProcessCommandLineRegEx = None,
     osSignalListenerChannels = 0\<rparr>"

definition signals_AddChannelListener :: "signals_state \<Rightarrow> signals_state" where
  "signals_AddChannelListener st = st\<lparr>osSignalListenerChannels := Suc (osSignalListenerChannels st)\<rparr>"

text \<open>A configuration: \<open>regexp.Compile\<close> assigns nil together with its error; a configuration without
  an expression assigns nothing.\<close>

definition signals_updateConfig :: "regexp_api \<Rightarrow> BunnyConfig \<Rightarrow> signals_state \<Rightarrow> signals_state" where
  "signals_updateConfig re c st =
     (let st = st\<lparr>signalsConfig := Some (Signals c)\<rparr> in
      case WatchedProcessCommandLineRegEx (Signals c) of
        None \<Rightarrow> st
      | Some r \<Rightarrow> st\<lparr>watchedProcessCommandLineRegEx :=
          (case re_Compile re r of Some err \<Rightarrow> None | None \<Rightarrow> Some r)\<rparr>)"

type_synonym process_table = "nat \<Rightarrow> string list"

text \<open>The inner loop, which stops at the first match.\<close>

fun processExists :: "regexp_api \<Rightarrow> string \<Rightarrow> string list \<Rightarrow> bool" where
  "processExists re r [] = False"
| "processExists re r (commandLine # rest) =
     (if re_MatchString re r commandLine then True else processExists re r rest)"

text \<open>The outer loop from the \<open>i\<close>-th look on; the result is the number of looks.\<close>

partial_function (option) wait_loop :: "regexp_api \<Rightarrow> string \<Rightarrow> process_table \<Rightarrow> nat \<Rightarrow> nat option" where
  "wait_loop re r table i =
     (if processExists re r (table i) then wait_loop re r table (Suc i) else Some (Suc i))"

declare wait_loop.simps [code]

definition waitForProcess :: "regexp_api \<Rightarrow> process_table \<Rightarrow> signals_state \<Rightarrow> nat option" where
  "waitForProcess re table st = (case watchedProcessCommandLineRegEx st of
     None \<Rightarrow> Some 0
   | Some r \<Rightarrow> wait_loop re r table 0)"

datatype signals_event =
    SignalsConfigUpdate BunnyConfig
  | SignalsConfigClosed
  | SignalsSignal os_signal process_table

type_synonym signal_sends = "(nat \<times> os_signal) list"

fun GoSignals_step :: "regexp_api \<Rightarrow> signals_event \<Rightarrow> signals_state
    \<Rightarrow> (loop_control \<times> signals_state \<times> signal_sends) option" where
  "GoSignals_step re (SignalsConfigUpdate c) st = Some (Continue, signals_updateConfig re c st, [])"
| "GoSignals_step re SignalsConfigClosed st = Some (Continue, st, [])"
| "GoSignals_step re (SignalsSignal signal table) st =
     (case waitForProcess re table st of
        None \<Rightarrow> None
      | Some _ \<Rightarrow> Some (Return, st, map (\<lambda>i. (i, signal)) [0 ..< osSignalListenerChannels st]))"

fun GoSignals_loop :: "regexp_api \<Rightarrow> signals_event list \<Rightarrow> signals_state
    \<Rightarrow> (loop_control \<times> signals_state \<times> signal_sends) option" where
  "GoSignals_loop re [] st = Some (Continue, st, [])"
| "GoSignals_loop re (e # es) st =
     (case GoSignals_step re e st of
        None \<Rightarrow> None
      | Some (Return, st, sends) \<Rightarrow> Some (Return, st, sends)
      | Some (Continue, st, sends) \<Rightarrow>
          (case GoSignals_loop re es st of
             None \<Rightarrow> None
           | Some (ctl, st, sends') \<Rightarrow> Some (ctl, st, sends @ sends')))"

section \<open>The loops\<close>

lemma processExists_iff: "processExists re r cs \<longleftrightarrow> (\<exists>c \<in> set cs. re_MatchString re r c)"
  by (induction re r cs rule: processExists.induct) auto

lemma wait_loop_returns:
  assumes "\<And>j. i \<le> j \<Longrightarrow> j < n \<Longrightarrow> processExists re r (table j)" and "\<not> processExists re r (table n)" and "i \<le> n"
  shows "wait_loop re r table i = Some (Suc n)"
  using assms(3,1,2)
proof (induction i rule: inc_induct)
  case base
  then show ?case by (simp add: wait_loop.simps)
next
  case (step i)
  then have "wait_loop re r table (Suc i) = Some (Suc n)" by simp
  with step show ?case by (simp add: wait_loop.simps [of re r table i])
qed

lemma wait_loop_someD: "wait_loop re r table i = Some n \<Longrightarrow> \<exists>j \<ge> i. \<not> processExists re r (table j)"
proof (rule wait_loop.raw_induct [of "\<lambda>re r table i n. \<exists>j \<ge> i. \<not> processExists re r (table j)", rotated])
  fix loop re r table i n
  assume IH: "\<And>re r table i n. loop re r table i = Some n \<Longrightarrow> \<exists>j \<ge> i. \<not> processExists re r (table j)"
    and eq: "(if processExists re r (table i) then loop re r table (Suc i) else Some (Suc i)) = Some n"
  show "\<exists>j \<ge> i. \<not> processExists re r (table j)"
  proof (cases "processExists re r (table i)")
    case True
    with eq IH [of re r table "Suc i" n] show ?thesis by (auto dest: Suc_leD)
  qed auto
qed

lemma wait_loop_diverges:
  "(\<And>j. i \<le> j \<Longrightarrow> processExists re r (table j)) \<Longrightarrow> wait_loop re r table i = None"
  using wait_loop_someD [of re r table i] by (cases "wait_loop re r table i") blast+

text \<open>The expression in force after a sequence of configurations: the last one that is given, if it
  compiles.\<close>

definition given :: "BunnyConfig list \<Rightarrow> string list" where
  "given cs = List.map_filter (\<lambda>c. WatchedProcessCommandLineRegEx (Signals c)) cs"

definition in_force :: "regexp_api \<Rightarrow> string option \<Rightarrow> BunnyConfig list \<Rightarrow> string option" where
  "in_force re before cs = (if given cs = [] then before
     else if re_Compile re (last (given cs)) = None then Some (last (given cs)) else None)"

lemma update_sel [simp]:
  "osSignalListenerChannels (signals_updateConfig re c st) = osSignalListenerChannels st"
  "watchedProcessCommandLineRegEx (signals_updateConfig re c st) = in_force re (watchedProcessCommandLineRegEx st) [c]"
  by (auto simp: signals_updateConfig_def in_force_def given_def List.map_filter_simps Let_def split: option.split)

lemma in_force_Cons: "in_force re before (c # cs) = in_force re (in_force re before [c]) cs"
  by (auto simp: in_force_def given_def List.map_filter_simps split: option.splits)

lemma GoSignals_updates:
  "\<exists>st'. GoSignals_loop re (map SignalsConfigUpdate cs @ es) st =
      GoSignals_loop re es st'
    \<and> watchedProcessCommandLineRegEx st' = in_force re (watchedProcessCommandLineRegEx st) cs
    \<and> osSignalListenerChannels st' = osSignalListenerChannels st"
proof (induction cs arbitrary: st)
  case Nil
  show ?case by (auto simp: in_force_def given_def List.map_filter_simps)
next
  case (Cons c cs)
  from Cons.IH [of "signals_updateConfig re c st"] show ?case
    by (auto simp: in_force_Cons [of re _ c cs] split: option.split)
qed

section \<open>Properties\<close>

text \<open>C29: After any sequence of configurations, a signal is passed on to every registered listener
  exactly once and in order, and the goroutine ends, if no expression is in force or at some look
  at the process table no command line matches it. While a process matches at every look nothing is
  ever sent and the goroutine never ends. In force is the last expression that some configuration
  gave, if it compiles; a later configuration without an expression does not withdraw it.\<close>

theorem shutdown_waits_for_process:
  "let result = GoSignals_loop re (map SignalsConfigUpdate cs @ [SignalsSignal signal table]) st;
       watched = in_force re (watchedProcessCommandLineRegEx st) cs
   in if \<exists>r. watched = Some r \<and> (\<forall>n. \<exists>commandLine. commandLine \<in> set (table n) \<and> re_MatchString re r commandLine)
      then result = None
      else \<exists>st'. result = Some (Return, st', map (\<lambda>i. (i, signal)) [0 ..< osSignalListenerChannels st])"
proof -
  obtain st' where st':
    "GoSignals_loop re (map SignalsConfigUpdate cs @ [SignalsSignal signal table]) st = GoSignals_loop re [SignalsSignal signal table] st'"
    "watchedProcessCommandLineRegEx st' = in_force re (watchedProcessCommandLineRegEx st) cs"
    "osSignalListenerChannels st' = osSignalListenerChannels st"
    using GoSignals_updates [of re cs "[SignalsSignal signal table]" st] by blast
  show ?thesis
  proof (cases "in_force re (watchedProcessCommandLineRegEx st) cs")
    case None
    with st' show ?thesis by (simp add: waitForProcess_def)
  next
    case (Some r)
    show ?thesis
    proof (cases "\<forall>n. processExists re r (table n)")
      case True
      then have "wait_loop re r table 0 = None" by (intro wait_loop_diverges) blast
      with True Some st' show ?thesis by (auto simp: waitForProcess_def processExists_iff)
    next
      case False
      define n where "n = (LEAST n. \<not> processExists re r (table n))"
      have "\<not> processExists re r (table n)" using False LeastI_ex [of "\<lambda>n. \<not> processExists re r (table n)"] by (simp add: n_def)
      moreover have "processExists re r (table j)" if "j < n" for j
        using not_less_Least [OF that [unfolded n_def]] by simp
      ultimately have "wait_loop re r table 0 = Some (Suc n)" by (intro wait_loop_returns) auto
      with False Some st' show ?thesis by (auto simp: waitForProcess_def processExists_iff)
    qed
  qed
qed

theorem shutdown_waits_for_process_witness:
  "GoSignals_loop equality_regexp
     [SignalsConfigUpdate (generateDefaultConfig\<lparr>Signals := \<lparr>WatchedProcessCommandLineRegEx = Some ''app''\<rparr>\<rparr>),
      SignalsConfigUpdate generateDefaultConfig, SignalsSignal SIGTERM (\<lambda>n. [''app''])] initial_signals_state = None"
  using shutdown_waits_for_process [of equality_regexp
      "[generateDefaultConfig\<lparr>Signals := \<lparr>WatchedProcessCommandLineRegEx = Some ''app''\<rparr>\<rparr>, generateDefaultConfig]"
      SIGTERM "\<lambda>n. [''app'']" initial_signals_state]
  by (simp add: in_force_def given_def List.map_filter_simps generateDefaultConfig_def zero_SignalsConfig_def
      equality_regexp_def Let_def del: GoSignals_step.simps)

end
