(* ===== verification/Logging.thy ===== *)
theory Logging
  imports Go_Prelude
begin

text \<open>
  The package \<open>logging\<close> (\<open>src/src/bunny/logging/logging.go\<close>): the loggers of the packages and the
  adapters through which Prometheus and OpenTelemetry log.

  Values are given by what \<open>fmt.Sprint\<close> makes of them; a record is what the handler is handed, its
  attributes as a map since the code iterates over a Go map, whose order is not fixed. Whether a
  handler fails, and whether a text is JSON, are arguments.
\<close>

datatype log_level = LevelDebug | LevelInfo | LevelWarn | LevelError

datatype log_handler = DevSlogHandler | JSONHandler

record logger =
  lg_Level :: log_level
  lg_Handler :: log_handler

text \<open>The two \<open>switch\<close> statements on the name of a level.\<close>

definition level_of :: "string \<Rightarrow> log_level" where
  "level_of s =
     (if s \<in> {''INFO'', ''info''} then LevelInfo
      else if s \<in> {''DEBUG'', ''debug''} then LevelDebug
      else if s \<in> {''WARN'', ''warn''} then LevelWarn
      else if s \<in> {''ERROR'', ''error''} then LevelError
      else LevelInfo)"

definition ConfigureLogger :: "(string \<Rightarrow> string) \<Rightarrow> string \<Rightarrow> logger" where
  "ConfigureLogger getenv packageName =
     (let logLevelEnvVar = getenv (ToUpper packageName @ ''_LOG_LEVEL'');
          logLevel = (if logLevelEnvVar \<noteq> [] then level_of logLevelEnvVar else LevelInfo);
          logHandlerEnvVar = getenv ''LOG_HANDLER''
      in \<lparr>lg_Level = logLevel,
          lg_Handler = (if logHandlerEnvVar \<in> {''TEXT'', ''text'', ''CONSOLE'', ''console''}
                        then DevSlogHandler else JSONHandler)\<rparr>)"

fun level_num :: "log_level \<Rightarrow> int" where
  "level_num LevelDebug = - 4"
| "level_num LevelInfo = 0"
| "level_num LevelWarn = 4"
| "level_num LevelError = 8"

instantiation log_level :: linorder
begin

definition less_eq_log_level :: "log_level \<Rightarrow> log_level \<Rightarrow> bool" where
  "less_eq_log_level l k \<longleftrightarrow> level_num l \<le> level_num k"

definition less_log_level :: "log_level \<Rightarrow> log_level \<Rightarrow> bool" where
  "less_log_level l k \<longleftrightarrow> level_num l < level_num k"

instance
proof
  fix x y z :: log_level
  show "x \<le> y \<Longrightarrow> y \<le> x \<Longrightarrow> x = y"
    by (cases x; cases y) (simp_all add: less_eq_log_level_def)
qed (auto simp: less_eq_log_level_def less_log_level_def)

end

text \<open>\<open>Logger.Enabled\<close>.\<close>

definition Enabled :: "logger \<Rightarrow> log_level \<Rightarrow> bool" where
  "Enabled lg level \<longleftrightarrow> lg_Level lg \<le> level"

record log_record =
  lr_Level :: log_level
  lr_Message :: string
  lr_Attrs :: "string \<rightharpoonup> string"

section \<open>The adapter for Prometheus\<close>

text \<open>The loop that collects keys and values; a key without a value gets \<open>MISSING\<close>.\<close>

fun keyvals_map :: "string list \<Rightarrow> (string \<rightharpoonup> string) \<Rightarrow> (string \<rightharpoonup> string)" where
  "keyvals_map [] m = m"
| "keyvals_map [k] m = m(k \<mapsto> ''MISSING'')"
| "keyvals_map (k # v # rest) m = keyvals_map rest (m(k \<mapsto> v))"

text \<open>\<open>Log\<close>: the record that reaches the handler, if any, and the error it returns.\<close>

definition slogAdapterLogger_Log :: "logger \<Rightarrow> (log_record \<Rightarrow> go_error option) \<Rightarrow> string list
    \<Rightarrow> log_record option \<times> go_error option" where
  "slogAdapterLogger_Log l handle keyvals =
     (if \<not> Enabled l LevelInfo then (None, None)
      else
        let m = keyvals_map keyvals Map.empty;
            level = (case m ''level'' of None \<Rightarrow> ''info'' | Some v \<Rightarrow> v);
            msg = (case m ''msg'' of None \<Rightarrow> [] | Some v \<Rightarrow> v);
            m = m(''level'' := None, ''msg'' := None, ''caller'' := None);
            r = \<lparr>lr_Level = level_of level, lr_Message = msg, lr_Attrs = m\<rparr>
        in (Some r, handle r))"

section \<open>The adapters for OpenTelemetry\<close>

definition OtelEncoder_Encode :: "(log_record \<Rightarrow> go_error option) \<Rightarrow> string \<Rightarrow> log_record \<times> go_error option" where
  "OtelEncoder_Encode handle value =
     (let r = \<lparr>lr_Level = LevelInfo, lr_Message = ''stdoutmetric'', lr_Attrs = [''value'' \<mapsto> value]\<rparr>
      in (r, handle r))"

definition OtelWriter_Write :: "(string \<Rightarrow> go_error option) \<Rightarrow> (log_record \<Rightarrow> go_error option) \<Rightarrow> string
    \<Rightarrow> nat \<times> go_error option \<times> log_record option" where
  "OtelWriter_Write json_Unmarshal handle p =
     (case json_Unmarshal p of
        Some err \<Rightarrow> (length p, Some err, None)
      | None \<Rightarrow> (let r = \<lparr>lr_Level = LevelInfo, lr_Message = p, lr_Attrs = Map.empty\<rparr>
                in (length p, handle r, Some r)))"

section \<open>Lemmas\<close>

text \<open>The key and value pairs of a call.\<close>

fun keyval_pairs :: "string list \<Rightarrow> (string \<times> string) list" where
  "keyval_pairs [] = []"
| "keyval_pairs [k] = [(k, ''MISSING'')]"
| "keyval_pairs (k # v # rest) = (k, v) # keyval_pairs rest"

lemma keyvals_map_eq: "keyvals_map kvs m = m ++ map_of (rev (keyval_pairs kvs))"
  by (induction kvs m rule: keyvals_map.induct)
    (simp_all add: map_add_def fun_upd_def fun_eq_iff split: option.split)

lemma keyval_pairs_even: "keyval_pairs (concat (map (\<lambda>(k, v). [k, v]) ps)) = ps"
  by (induction ps) auto

section \<open>Properties\<close>

text \<open>C40: A message of Prometheus, given as keys and values, reaches the handler exactly if the logger
  is enabled for the level info: then with the level named by its key \<open>level\<close> (info if there is
  none or the name is unknown), the text of its key \<open>msg\<close>, and all other keys but \<open>caller\<close> as
  attributes; of a key that is given twice the last value counts. The level of the message itself
  plays no part in whether it is logged.\<close>

theorem adapter_logs_keyvals:
  "fst (slogAdapterLogger_Log l handle (concat (map (\<lambda>(k, v). [k, v]) ps))) =
     (if lg_Level l \<le> LevelInfo
      then Some \<lparr>lr_Level = (case map_of (rev ps) ''level'' of None \<Rightarrow> LevelInfo | Some v \<Rightarrow> level_of v),
        lr_Message = (case map_of (rev ps) ''msg'' of None \<Rightarrow> [] | Some v \<Rightarrow> v),
        lr_Attrs = map_of (rev (filter (\<lambda>(k, v). k \<notin> {''level'', ''msg'', ''caller''}) ps))\<rparr>
      else None)"
proof -
  have filter: "map_of (filter (\<lambda>(k, v). k \<notin> A) qs) = (map_of qs) |` (- A)" for A and qs :: "(string \<times> string) list"
    by (induction qs) (auto simp: restrict_map_def fun_eq_iff)
  have attrs: "map_of (rev (filter (\<lambda>(k, v). k \<notin> {''level'', ''msg'', ''caller''}) ps)) =
      (map_of (rev ps))(''level'' := None, ''msg'' := None, ''caller'' := None)"
    unfolding rev_filter filter by (simp add: restrict_map_def fun_eq_iff)
  have level: "level_of (case x of None \<Rightarrow> ''info'' | Some v \<Rightarrow> v) = (case x of None \<Rightarrow> LevelInfo | Some v \<Rightarrow> level_of v)" for x
    by (simp add: level_of_def split: option.split)
  show ?thesis
    unfolding attrs slogAdapterLogger_Log_def keyvals_map_eq keyval_pairs_even Enabled_def Let_def empty_map_add level
    by (simp only: fst_conv if_distrib [of fst] if_not_P if_P not_not split: if_split) blast
qed

end
