(* ===== verification/Bee.thy ===== *)
theory Bee
  imports Complex_Main "HOL-Library.Multiset" Go_IO Go_HTTP
begin

text \<open>
  The program \<open>bee\<close> (\<open>src/src/bee/main.go\<close>), the application that \<open>bunny\<close> probes in the examples of
  the repository: a TCP server that holds a fixed conversation, HTTP servers for \<open>/hello\<close> and
  \<open>/healthz\<close>, and the tree of spans that a health check produces.

  Whether listening succeeds and what \<open>Accept\<close> returns are inputs of the model. Floating point numbers
  are read as real numbers. The readings of the clock and the random numbers of \<open>timeWaster\<close> come
  from the record \<open>waster_env\<close>, indexed by the name of the span, which identifies a call.
\<close>

section \<open>The TCP server\<close>

definition newline :: char where
  "newline = CHR 0x0A"

definition tcpRead :: "string \<Rightarrow> buffered_conn \<Rightarrow> bool \<times> buffered_conn" where
  "tcpRead words b = (case bufio_ReadString newline b of
     (wordsSent, Some err, b) \<Rightarrow> (False, b)
   | (wordsSent, None, b) \<Rightarrow> (words @ [newline] = wordsSent, b))"

definition tcpWrite :: "string \<Rightarrow> buffered_conn \<Rightarrow> bool \<times> buffered_conn" where
  "tcpWrite words b = (case write_and_flush True (words @ [newline]) b of (ok, err, b) \<Rightarrow> (ok, b))"

text \<open>The conjunction stops at the first part that is false; the result is the status of the span.\<close>

definition handleTCPConnection :: "conn \<Rightarrow> bool \<times> buffered_conn" where
  "handleTCPConnection c =
     (let (r1, b) = tcpRead ''hello'' (new_buffered_conn c) in
      if \<not> r1 then (False, b)
      else let (w1, b) = tcpWrite ''yellow'' b in
        if \<not> w1 then (False, b)
        else let (r2, b) = tcpRead ''how're ya now?'' b in
          if \<not> r2 then (False, b)
          else tcpWrite ''can't complain'' b)"

section \<open>The tree of spans\<close>

definition makeChildName :: "string \<Rightarrow> nat \<Rightarrow> string" where
  "makeChildName parentName i =
     (if parentName = ''timeWaster'' then parentName @ ''-'' @ show_nat i else parentName @ show_nat i)"

record waster_env =
  we_available :: "string \<Rightarrow> int"
  we_rand :: "string \<Rightarrow> int \<times> int"
  we_shuffle :: "string \<Rightarrow> int list \<Rightarrow> int list"

definition delays :: "waster_env \<Rightarrow> string \<Rightarrow> int list" where
  "delays env name =
     (let t = we_available env name;
          d0 = fst (we_rand env name) * 40 div 100;
          d1 = snd (we_rand env name) * 40 div 100
      in we_shuffle env name [d0, d1, t - d0 - d1])"

lemma length_makeChildName: "length name < length (makeChildName name i)"
  by (simp add: makeChildName_def show_nat.simps [of i])

text \<open>The calls that one call makes, with the delays each computes.\<close>

function timeWaster :: "waster_env \<Rightarrow> string \<Rightarrow> (string \<times> int list) list" where
  "timeWaster env childName =
     (if we_available env childName \<le> 10 then [(childName, [])]
      else if length childName > 20 then [(childName, [])]
      else (childName, delays env childName)
        # timeWaster env (makeChildName childName 0) @ timeWaster env (makeChildName childName 1))"
  by pat_completeness auto
termination
  by (relation "measure (\<lambda>(env, name). 21 - length name)")
    (use length_makeChildName in \<open>auto intro: diff_less_mono2\<close>)

declare timeWaster.simps [simp del]

section \<open>The HTTP servers\<close>

definition check_y :: "int \<Rightarrow> real" where
  "check_y unix =
     (let percent = real_of_int (unix smod 100) / 100; x = 2 * pi * percent in (sin x + 1) / 2)"

definition checkHealth :: "waster_env \<Rightarrow> int \<Rightarrow> bool \<times> (string \<times> int list) list" where
  "checkHealth env unix = (check_y unix > 0, timeWaster env ''timeWaster'')"

definition bee_healthEndpoint :: "waster_env \<Rightarrow> int \<Rightarrow> http_response \<Rightarrow> http_response" where
  "bee_healthEndpoint env unix w =
     (if fst (checkHealth env unix) then Fprintln ''healthy'' (WriteHeader 200 w)
      else Fprintln ''unhealthy'' (WriteHeader 408 w))"

definition helloEndpoint :: "http_response \<Rightarrow> http_response" where
  "helloEndpoint w = Fprintln ''hello'' (WriteHeader 200 w)"

datatype bee_handler = HealthHandler | HelloHandler

definition startHTTPEndpointForHealth :: "bee_handler mux go" where
  "startHTTPEndpointForHealth = mux_Handle ''/healthz'' HealthHandler []"

definition startHTTPEndpointForHello :: "bee_handler mux go" where
  "startHTTPEndpointForHello = mux_Handle ''/hello'' HelloHandler []"

fun bee_handle :: "waster_env \<Rightarrow> int \<Rightarrow> bee_handler \<Rightarrow> http_response \<Rightarrow> http_response" where
  "bee_handle env unix HealthHandler w = bee_healthEndpoint env unix w"
| "bee_handle env unix HelloHandler w = helloEndpoint w"

text \<open>The answer of a server with a given router to a GET request, as a status code.\<close>

definition bee_status :: "bee_handler mux \<Rightarrow> waster_env \<Rightarrow> int \<Rightarrow> string \<Rightarrow> go_int" where
  "bee_status m env unix path = (case mux_route m path of
     Handler h \<Rightarrow> fst (finish_response (bee_handle env unix h empty_response))
   | RedirectTo p \<Rightarrow> 301
   | NotFound \<Rightarrow> 404)"

section \<open>Starting up\<close>

text \<open>The services the gRPC health server is told to report as serving, if it could listen.\<close>

definition startGRPCEndpoint :: "go_error option \<Rightarrow> string list option" where
  "startGRPCEndpoint listenErr = (case listenErr of Some err \<Rightarrow> None | None \<Rightarrow> Some [''health''])"

text \<open>The goroutine of the TCP endpoint on a sequence of results of \<open>Accept\<close>. The error of \<open>net.Listen\<close> is
  only logged, and the listener is nil then.\<close>

fun accept_loop :: "bool \<Rightarrow> (go_error + conn) list \<Rightarrow> (bool \<times> buffered_conn) list go" where
  "accept_loop listening [] = (if listening then Inr [] else Inl NilDereference)"
| "accept_loop listening (r # rs) =
     (if \<not> listening then Inl NilDereference
      else go_bind (accept_loop listening rs) (\<lambda>handled.
        Inr (case r of Inl err \<Rightarrow> handled | Inr connection \<Rightarrow> handleTCPConnection connection # handled)))"

definition startTCPEndpoint :: "go_error option \<Rightarrow> (go_error + conn) list \<Rightarrow> (bool \<times> buffered_conn) list go" where
  "startTCPEndpoint listenErr accepted = accept_loop (listenErr = None) accepted"

text \<open>What \<open>main\<close> meets, and what it has running until the signal comes; \<open>None\<close> if it returned at once.\<close>

record bee_world =
  bw_exporter :: "go_error option"
  bw_grpc_Listen :: "go_error option"
  bw_tcp_Listen :: "go_error option"
  bw_Accept :: "(go_error + conn) list"

record bee_servers =
  bs_grpc :: "string list option"
  bs_health :: "bee_handler mux"
  bs_hello :: "bee_handler mux"
  bs_conversations :: "(bool \<times> buffered_conn) list"

definition bee_main :: "bee_world \<Rightarrow> bee_servers option go" where
  "bee_main w =
     (if bw_exporter w \<noteq> None then Inr None
      else let grpc = startGRPCEndpoint (bw_grpc_Listen w) in
        go_bind startHTTPEndpointForHealth (\<lambda>health.
        go_bind startHTTPEndpointForHello (\<lambda>hello.
        go_bind (startTCPEndpoint (bw_tcp_Listen w) (bw_Accept w)) (\<lambda>conversations.
          Inr (Some \<lparr>bs_grpc = grpc, bs_health = health, bs_hello = hello, bs_conversations = conversations\<rparr>)))))"

section \<open>Lemmas\<close>

lemma tcpRead_spec:
  assumes "quiet b"
  shows "\<exists>ok b'. tcpRead words b = (ok, b') \<and> quiet b'
    \<and> (ok \<longleftrightarrow> newline \<in> set (conn_in (bc_conn b)) \<and> takeWhile (\<lambda>c. c \<noteq> newline) (conn_in (bc_conn b)) = words)
    \<and> limit (bc_conn b') = limit (bc_conn b) \<and> conn_out (bc_conn b') = conn_out (bc_conn b)
    \<and> (ok \<longrightarrow> conn_in (bc_conn b) = words @ newline # conn_in (bc_conn b'))"
proof -
  have "s = takeWhile (\<lambda>c. c \<noteq> newline) s @ newline # drop (Suc (length (takeWhile (\<lambda>c. c \<noteq> newline) s))) s"
    if "newline \<in> set s" for s
    using that by (induction s) auto
  with assms show ?thesis
    by (auto simp: tcpRead_def bufio_ReadString_eq Let_def limit_def)
qed

lemma tcpWrite_spec:
  fixes words :: string
  assumes "quiet b"
  defines "l \<equiv> limit (bc_conn b)" and "s \<equiv> conn_out (bc_conn b) @ words @ [newline]"
  shows "\<exists>b'. tcpWrite words b = (fits l s, b') \<and> conn_in (bc_conn b') = conn_in (bc_conn b)
    \<and> limit (bc_conn b') = l \<and> conn_out (bc_conn b') = cut_at l s \<and> (fits l s \<longrightarrow> quiet b')"
  using write_and_flush_spec [OF assms(1), of True "words @ [newline]"]
  by (auto simp: tcpWrite_def l_def s_def same_peer_def)

text \<open>The conversation without buffers: what the server writes for the bytes it gets.\<close>

definition first_line :: "string \<Rightarrow> string option" where
  "first_line i = (if newline \<in> set i then Some (takeWhile (\<lambda>c. c \<noteq> newline) i) else None)"

definition rest_lines :: "string \<Rightarrow> string" where
  "rest_lines i = drop (Suc (length (takeWhile (\<lambda>c. c \<noteq> newline) i))) i"

definition bee_conversation :: "string \<Rightarrow> bool \<times> string" where
  "bee_conversation i =
     (if first_line i \<noteq> Some ''hello'' then (False, [])
      else if first_line (rest_lines i) \<noteq> Some ''how're ya now?'' then (False, ''yellow'' @ [newline])
      else (True, ''yellow'' @ [newline] @ ''can't complain'' @ [newline]))"

lemma tcpRead_unlimited:
  assumes "quiet b"
  shows "\<exists>b'. tcpRead words b = (first_line (conn_in (bc_conn b)) = Some words, b') \<and> quiet b'
    \<and> limit (bc_conn b') = limit (bc_conn b) \<and> conn_out (bc_conn b') = conn_out (bc_conn b)
    \<and> conn_in (bc_conn b') = rest_lines (conn_in (bc_conn b))"
proof -
  have "newline \<notin> set s \<Longrightarrow> length s \<le> Suc (length (takeWhile (\<lambda>c. c \<noteq> newline) s))" for s
    by (subst takeWhile_eq_all_conv [THEN iffD2]) auto
  with assms show ?thesis
    by (auto simp: tcpRead_def bufio_ReadString_eq first_line_def rest_lines_def Let_def limit_def)
qed

lemma handleTCPConnection_spec:
  assumes "conn_room c = None" and "conn_out c = []"
  shows "\<exists>b. handleTCPConnection c = (fst (bee_conversation (conn_in c)), b)
    \<and> conn_out (bc_conn b) = snd (bee_conversation (conn_in c))"
proof -
  have lim: "limit c = None" using assms(1) by (simp add: limit_def)
  have 0: "quiet (new_buffered_conn c)" "bc_conn (new_buffered_conn c) = c"
    by (simp_all add: quiet_def new_buffered_conn_def lim fits_def)
  obtain b1 where 1: "tcpRead ''hello'' (new_buffered_conn c) = (first_line (conn_in c) = Some ''hello'', b1)" "quiet b1"
    "limit (bc_conn b1) = None" "conn_out (bc_conn b1) = []" "conn_in (bc_conn b1) = rest_lines (conn_in c)"
    using tcpRead_unlimited [OF 0(1), of "''hello''"] 0(2) lim assms(2) by auto
  obtain b2 where 2: "tcpWrite ''yellow'' b1 = (True, b2)" "quiet b2" "limit (bc_conn b2) = None"
    "conn_out (bc_conn b2) = ''yellow'' @ [newline]" "conn_in (bc_conn b2) = rest_lines (conn_in c)"
    using tcpWrite_spec [OF 1(2), of "''yellow''"] 1 by (auto simp: fits_def cut_at_def)
  obtain b3 where 3: "tcpRead ''how're ya now?'' b2 = (first_line (rest_lines (conn_in c)) = Some ''how're ya now?'', b3)"
    "quiet b3" "limit (bc_conn b3) = None" "conn_out (bc_conn b3) = ''yellow'' @ [newline]"
    using tcpRead_unlimited [OF 2(2), of "''how're ya now?''"] 2 by auto
  obtain b4 where 4: "tcpWrite ''can't complain'' b3 = (True, b4)"
    "conn_out (bc_conn b4) = ''yellow'' @ [newline] @ ''can't complain'' @ [newline]"
    using tcpWrite_spec [OF 3(2), of "''can't complain''"] 3 by (auto simp: fits_def cut_at_def)
  show ?thesis
    using 1 2 3 4 by (simp add: handleTCPConnection_def bee_conversation_def)
qed

section \<open>The spans\<close>

definition spans :: "waster_env \<Rightarrow> string \<Rightarrow> string list" where
  "spans env name = map fst (timeWaster env name)"

lemma spans_simps:
  "spans env name = (if we_available env name \<le> 10 \<or> length name > 20 then [name]
     else name # spans env (makeChildName name 0) @ spans env (makeChildName name 1))"
  by (simp add: spans_def timeWaster.simps [of env name])

lemma show_01: "show_nat 0 = ''0''" "show_nat 1 = ''1''"
  by code_simp+

lemma makeChildName_01:
  "makeChildName name 0 = name @ (if name = ''timeWaster'' then ''-0'' else ''0'')"
  "makeChildName name (Suc 0) = name @ (if name = ''timeWaster'' then ''-1'' else ''1'')"
  by (simp_all add: makeChildName_def show_01 [unfolded One_nat_def])

lemma spans_prefix: "n \<in> set (spans env name) \<Longrightarrow> \<exists>s. n = name @ s"
proof (induction env name rule: timeWaster.induct)
  case (1 env name)
  show ?case
  proof (cases "we_available env name \<le> 10 \<or> length name > 20")
    case True
    with "1.prems" show ?thesis by (simp add: spans_simps [of env name])
  next
    case False
    with "1.prems" consider "n = name" | "n \<in> set (spans env (makeChildName name 0))" | "n \<in> set (spans env (makeChildName name 1))"
      by (auto simp: spans_simps [of env name])
    then show ?thesis
    proof cases
      case 2
      with "1.IH"(1) False show ?thesis by (auto simp: makeChildName_01)
    next
      case 3
      with "1.IH"(2) False show ?thesis by (auto simp: makeChildName_01)
    qed simp
  qed
qed

lemma spans_distinct: "distinct (spans env name)"
proof (induction env name rule: timeWaster.induct)
  case (1 env name)
  show ?case
  proof (cases "we_available env name \<le> 10 \<or> length name > 20")
    case True
    then show ?thesis by (simp add: spans_simps [of env name])
  next
    case False
    moreover have "name \<notin> set (spans env (makeChildName name 0))" "name \<notin> set (spans env (makeChildName name 1))"
      by (auto dest!: spans_prefix simp: makeChildName_01 split: if_splits)
    moreover have "set (spans env (makeChildName name 0)) \<inter> set (spans env (makeChildName name 1)) = {}"
      by (auto dest!: spans_prefix simp: makeChildName_01 split: if_splits)
    ultimately show ?thesis using "1.IH" by (simp add: spans_simps [of env name])
  qed
qed

lemma spans_bound: "length name \<le> 21 \<Longrightarrow> length (spans env name) \<le> 2 ^ (22 - length name) - 1"
proof (induction env name rule: timeWaster.induct)
  case (1 env name)
  show ?case
  proof (cases "we_available env name \<le> 10 \<or> length name > 20")
    case True
    have "(2 :: nat) ^ 1 \<le> 2 ^ (22 - length name)" using "1.prems" by (intro power_increasing) auto
    with True show ?thesis by (simp add: spans_simps [of env name])
  next
    case False
    have "length name \<noteq> 20" if "name = ''timeWaster''" using that by simp
    with False have len: "length (makeChildName name 0) \<le> 21" "length (makeChildName name 1) \<le> 21"
      by (auto simp: makeChildName_01)
    have pow: "(2 :: nat) ^ (22 - length (makeChildName name i)) - 1 \<le> 2 ^ (21 - length name) - 1" for i
      using length_makeChildName [of name i] by (intro diff_le_mono power_increasing) auto
    have "length (spans env (makeChildName name 0)) \<le> 2 ^ (21 - length name) - 1"
      using "1.IH"(1) False len(1) pow [of 0] by (meson le_trans)
    moreover have "length (spans env (makeChildName name 1)) \<le> 2 ^ (21 - length name) - 1"
      using "1.IH"(2) False len(2) pow [of 1] by (meson le_trans)
    moreover have "(2 :: nat) ^ (22 - length name) = 2 * 2 ^ (21 - length name)"
    proof -
      have "22 - length name = Suc (21 - length name)" using False by arith
      then show ?thesis by simp
    qed
    ultimately have "1 + length (spans env (makeChildName name 0)) + length (spans env (makeChildName name 1))
        \<le> 2 ^ (22 - length name) - 1"
      using one_le_power [of "2 :: nat" "21 - length name"] by linarith
    then show ?thesis using False by (simp add: spans_simps [of env name])
  qed
qed

lemma check_y_zero:
  assumes "0 \<le> unix"
  shows "check_y unix \<le> 0 \<longleftrightarrow> unix mod 100 = 75"
proof -
  define k where "k = unix mod 100"
  have k: "0 \<le> k" "k < 100" by (simp_all add: k_def)
  have smod: "unix smod 100 = k" using assms by (cases "unix = 0") (auto simp: k_def signed_modulo_int_def)
  have y: "check_y unix = (sin (2 * pi * (real_of_int k / 100)) + 1) / 2"
    by (simp add: check_y_def smod)
  have "check_y unix \<le> 0 \<longleftrightarrow> sin (2 * pi * (real_of_int k / 100)) = - 1"
  proof -
    have "((z + 1) / 2 \<le> 0) = (z = - 1)" if "- 1 \<le> z" for z :: real using that by auto
    from this [OF sin_ge_minus_one] show ?thesis unfolding y .
  qed
  also have "\<dots> \<longleftrightarrow> cos (2 * pi * (real_of_int k / 100) + pi / 2) = 1" by (auto simp: cos_add)
  also have "\<dots> \<longleftrightarrow> (\<exists>n :: int. 2 * pi * (real_of_int k / 100) + pi / 2 = n * 2 * pi)" by (rule cos_one_2pi_int)
  also have "\<dots> \<longleftrightarrow> (\<exists>n :: int. real_of_int k = real_of_int (100 * n - 25))"
  proof -
    have "2 * pi * (real_of_int k / 100) + pi / 2 = n * 2 * pi \<longleftrightarrow> real_of_int k = real_of_int (100 * n - 25)" for n :: int
    proof -
      have "2 * pi * (real_of_int k / 100) + pi / 2 = n * 2 * pi \<longleftrightarrow> pi * (2 * (real_of_int k / 100) + 1 / 2) = pi * (n * 2)"
        by (simp add: field_simps)
      also have "\<dots> \<longleftrightarrow> 2 * (real_of_int k / 100) + 1 / 2 = n * 2" by simp
      also have "\<dots> \<longleftrightarrow> real_of_int k = real_of_int (100 * n - 25)" by (auto simp: field_simps)
      finally show ?thesis .
    qed
    then show ?thesis by simp
  qed
  also have "\<dots> \<longleftrightarrow> (\<exists>n :: int. k = 100 * n - 25)" by (simp only: of_int_eq_iff)
  also have "\<dots> \<longleftrightarrow> k = 75" using k by presburger
  finally show ?thesis by (simp add: k_def)
qed

section \<open>Properties\<close>

text \<open>C36: The TCP server holds its conversation: over a connection that takes what is written, it
  answers \<open>yellow\<close> to a first line \<open>hello\<close> and \<open>can't complain\<close> to a second line \<open>how're ya now?\<close>, each
  line ended by a newline; it says nothing more at the first line that is different or does not
  come, and counts the conversation as successful exactly if both lines came.\<close>

theorem bee_tcp_conversation:
  assumes "conn_room c = None" and "conn_out c = []"
  shows "(let (ok, b) = handleTCPConnection c in (ok, conn_out (bc_conn b))) =
     (if first_line (conn_in c) \<noteq> Some ''hello'' then (False, [])
      else if first_line (rest_lines (conn_in c)) \<noteq> Some ''how're ya now?'' then (False, ''yellow'' @ [newline])
      else (True, ''yellow'' @ [newline] @ ''can't complain'' @ [newline]))"
  using handleTCPConnection_spec [OF assms] by (auto simp: bee_conversation_def)

theorem bee_tcp_conversation_witness:
  "(let (ok, b) = handleTCPConnection \<lparr>conn_in = ''hello'' @ [newline] @ ''bye'' @ [newline], conn_in_err = ErrEOF,
        conn_out = [], conn_room = None, conn_out_err = ErrEOF\<rparr>
    in (ok, conn_out (bc_conn b))) = (False, ''yellow'' @ [newline])"
  by (subst bee_tcp_conversation) (simp_all add: first_line_def rest_lines_def newline_def)

text \<open>C37: Whatever the clock and the random numbers give, the recursion of \<open>timeWaster\<close> ends: one
  health check makes at most 2047 calls, and no two of their spans have the same name.\<close>

theorem timeWaster_bounded:
  "length (timeWaster env ''timeWaster'') \<le> 2047 \<and> distinct (map fst (timeWaster env ''timeWaster''))"
proof
  show "distinct (map fst (timeWaster env ''timeWaster''))"
    using spans_distinct [of env "''timeWaster''"] by (simp add: spans_def)
  have "length (spans env ''timeWaster-0'') \<le> 1023" "length (spans env ''timeWaster-1'') \<le> 1023"
    using spans_bound [of "''timeWaster-0''" env] spans_bound [of "''timeWaster-1''" env] by simp_all
  then have "length (spans env ''timeWaster'') \<le> 2047"
    by (simp add: spans_simps [of env "''timeWaster''"] makeChildName_01)
  then show "length (timeWaster env ''timeWaster'') \<le> 2047" by (simp add: spans_def)
qed

text \<open>The three delays a call of \<open>timeWaster\<close> computes share out the time available exactly: none is
  negative and together they are the whole of it, for all random numbers in the range that is
  asked for and every shuffling.\<close>

theorem delays_share_time:
  assumes "10 < we_available env name"
    and "0 \<le> fst (we_rand env name)" and "fst (we_rand env name) < we_available env name"
    and "0 \<le> snd (we_rand env name)" and "snd (we_rand env name) < we_available env name"
    and "\<And>xs. mset (we_shuffle env name xs) = mset xs"
  shows "(\<forall>d \<in> set (delays env name). 0 \<le> d) \<and> sum_list (delays env name) = we_available env name"
proof -
  let ?t = "we_available env name"
  let ?d0 = "fst (we_rand env name) * 40 div 100" and ?d1 = "snd (we_rand env name) * 40 div 100"
  have m: "mset (delays env name) = mset [?d0, ?d1, ?t - ?d0 - ?d1]"
    by (simp add: delays_def assms(6) Let_def del: mset.simps)
  have div: "(r * 40 div 100) * 100 \<le> r * 40" for r :: int by (simp add: minus_mod_eq_div_mult [symmetric])
  have "0 \<le> ?d0" "0 \<le> ?d1" using assms(2,4) by simp_all
  moreover have "?d0 + ?d1 \<le> ?t"
    using div [of "fst (we_rand env name)"] div [of "snd (we_rand env name)"] assms(1,3,5) by linarith
  moreover have "set (delays env name) = {?d0, ?d1, ?t - ?d0 - ?d1}" using mset_eq_setD [OF m] by simp
  moreover have "sum_list (delays env name) = sum_mset (mset (delays env name))" by (rule sum_mset_sum_list [symmetric])
  ultimately show ?thesis unfolding m by auto
qed

theorem delays_share_time_witness:
  "let env = \<lparr>we_available = (\<lambda>_. 500), we_rand = (\<lambda>_. (300, 499)), we_shuffle = (\<lambda>_. rev)\<rparr>
   in (\<forall>d \<in> set (delays env ''timeWaster''). 0 \<le> d) \<and> sum_list (delays env ''timeWaster'') = 500"
  unfolding Let_def
  using delays_share_time [of "\<lparr>we_available = (\<lambda>_. 500), we_rand = (\<lambda>_. (300, 499)), we_shuffle = (\<lambda>_. rev)\<rparr>" "''timeWaster''"]
  by simp

text \<open>The health check of \<open>bee\<close> fails in exactly one second out of a hundred: it answers 408 when the
  Unix time ends in 75 and 200 at all other times.\<close>

theorem bee_health_wave:
  assumes "0 \<le> unix"
  shows "fst (finish_response (bee_healthEndpoint env unix empty_response)) = (if unix mod 100 = 75 then 408 else 200)"
  using check_y_zero [OF assms]
  by (auto simp: bee_healthEndpoint_def checkHealth_def finish_response_def Fprintln_def WriteHeader_def empty_response_def)

theorem bee_health_wave_witness:
  "let env = \<lparr>we_available = (\<lambda>_. 0), we_rand = (\<lambda>_. (0, 0)), we_shuffle = (\<lambda>_ xs. xs)\<rparr>
   in fst (finish_response (bee_healthEndpoint env 1700000075 empty_response)) = 408
    \<and> fst (finish_response (bee_healthEndpoint env 1700000000 empty_response)) = 200"
  using bee_health_wave [of 1700000075] bee_health_wave [of 1700000000] by simp

lemma accept_loop_eq:
  "accept_loop listening rs = (if listening then Inr (List.map_filter
     (\<lambda>r. case r of Inl err \<Rightarrow> None | Inr c \<Rightarrow> Some (handleTCPConnection c)) rs) else Inl NilDereference)"
  by (induction listening rs rule: accept_loop.induct) (auto simp: map_filter_simps split: sum.splits)

text \<open>What stops \<open>bee\<close> from serving. Without the trace exporter it returns at once and serves nothing. If
  the TCP port cannot be listened on, the whole program panics on the nil listener, although the
  error is logged and the same error of the gRPC port only leaves that server out. Otherwise all
  servers run, and every connection that was accepted is handled, whatever failed before it.\<close>

theorem bee_start_up:
  "bee_main w = (if bw_exporter w \<noteq> None then Inr None
     else if bw_tcp_Listen w \<noteq> None then Inl NilDereference
     else Inr (Some \<lparr>bs_grpc = (if bw_grpc_Listen w = None then Some [''health''] else None),
       bs_health = [(''/healthz'', HealthHandler)], bs_hello = [(''/hello'', HelloHandler)],
       bs_conversations = List.map_filter
         (\<lambda>r. case r of Inl err \<Rightarrow> None | Inr c \<Rightarrow> Some (handleTCPConnection c)) (bw_Accept w)\<rparr>))"
  by (auto simp: bee_main_def startGRPCEndpoint_def startHTTPEndpointForHealth_def startHTTPEndpointForHello_def
    startTCPEndpoint_def accept_loop_eq mux_Handle_def valid_pattern_def Let_def split: option.splits)

end
