(* ===== verification/Bunny_Bee.thy ===== *)
theory Bunny_Bee
  imports Probes Bee Go_Duration
begin

text \<open>
  The two programs together: the TCP probe of the example configuration in the README against the TCP
  server of \<open>bee\<close>, and an HTTP probe of its health endpoint.

  A conversation over a connection is computed in rounds. In a round each side is run from the
  start on all the bytes the other side has written so far; running out of bytes is waiting for
  more. When a round adds nothing, both sides have said all they will say.
\<close>

section \<open>The conversation\<close>

text \<open>The \<open>expect\<close> block of the example; the host is not read from the key \<open>host\<close> and so is the default.\<close>

definition readme_tcp :: TCPSocketActionConfig where
  "readme_tcp = \<lparr>tcp_Port = 5248, tcp_Host = None, tcp_Expect = Some
     [\<lparr>ec_Send = Some \<lparr>send_Text = ''hello'', send_Delimiter = [newline]\<rparr>, ec_Receive = None\<rparr>,
      \<lparr>ec_Send = None, ec_Receive = Some \<lparr>recv_RegEx = ''yellow'', recv_Delimiter = [newline]\<rparr>\<rparr>,
      \<lparr>ec_Send = Some \<lparr>send_Text = ''how're ya now?'', send_Delimiter = [newline]\<rparr>, ec_Receive = None\<rparr>,
      \<lparr>ec_Send = None, ec_Receive = Some \<lparr>recv_RegEx = ''can.* complain'', recv_Delimiter = [newline]\<rparr>\<rparr>]\<rparr>"

definition bunny_side :: "regexp_api \<Rightarrow> ExpectStep list \<Rightarrow> string \<Rightarrow> bool \<times> string" where
  "bunny_side re steps i = (let (ok, io) = expect re steps (wire i) in (ok, wire_out io))"

definition bee_side :: "string \<Rightarrow> bool \<times> string" where
  "bee_side i = (let (ok, b) = handleTCPConnection (wire i) in (ok, conn_out (bc_conn b)))"

fun rounds :: "regexp_api \<Rightarrow> ExpectStep list \<Rightarrow> nat \<Rightarrow> string \<times> string" where
  "rounds re steps 0 = ([], [])"
| "rounds re steps (Suc n) =
     (let sent = snd (bunny_side re steps (snd (rounds re steps n))) in (sent, snd (bee_side sent)))"

declare rounds.simps [simp del]

text \<open>The steps that are made from the configuration, and what the two sides say in the end.\<close>

definition readme_steps :: "ExpectStep list" where
  "readme_steps = [ExpectSend \<lparr>ss_text = ''hello'', ss_delimiter = newline\<rparr>,
     ExpectReceive \<lparr>rs_regex = ''yellow'', rs_delimiter = newline\<rparr>,
     ExpectSend \<lparr>ss_text = ''how're ya now?'', ss_delimiter = newline\<rparr>,
     ExpectReceive \<lparr>rs_regex = ''can.* complain'', rs_delimiter = newline\<rparr>]"

definition line :: "string \<Rightarrow> string" where
  "line w = w @ [newline]"

definition bunny_says :: string where
  "bunny_says = line ''hello'' @ line ''how're ya now?''"

definition bee_says :: string where
  "bee_says = line ''yellow'' @ line ''can't complain''"

lemma newline_ascii [simp]: "ascii newline"
  by (simp add: ascii_def newline_def)

lemma string_of_newline: "string_of_byte (CHR 0x0A) = [CHR 0x0A]"
  using newline_ascii by (simp add: newline_def)

lemma bunny_side_eq:
  "bunny_side re steps i = (case conversation (re_MatchString re) None steps i [] of (ok, rest, w) \<Rightarrow> (ok, w))"
proof -
  have "limit (wire i) = None" by (simp add: wire_def limit_def)
  with expect_conversation [of re steps "wire i"] show ?thesis
    by (auto simp: bunny_side_def wire_def split: prod.splits)
qed

lemma bee_side_eq: "bee_side i = bee_conversation i"
  using handleTCPConnection_spec [of "wire i"] by (auto simp: bee_side_def wire_def)

lemma newTCPSocketAction_readme:
  assumes "re_Compile re ''yellow'' = None" and "re_Compile re ''can.* complain'' = None"
  shows "newTCPSocketAction re (Some readme_tcp) timeout = Inr (Some \<lparr>ta_host = ''localhost'', ta_port = 5248,
     ta_expectSteps = readme_steps, ta_timeout = timeout\<rparr>)"
  using assms by (simp add: newTCPSocketAction_def readme_tcp_def newExpectStep_def readme_steps_def)

lemmas line_defs = first_line_def rest_lines_def line_def newline_def

lemma bee_side_lines:
  "bee_side (line ''hello'') = (False, line ''yellow'')" "bee_side bunny_says = (True, bee_says)"
  by (simp_all add: bee_side_eq bee_conversation_def line_defs bunny_says_def bee_says_def)

lemma bunny_side_lines:
  assumes "re_MatchString re ''yellow'' ''yellow''" and "re_MatchString re ''can.* complain'' ''can't complain''"
  shows "snd (bunny_side re readme_steps []) = line ''hello''"
    and "snd (bunny_side re readme_steps (line ''yellow'')) = bunny_says"
    and "bunny_side re readme_steps bee_says = (True, bunny_says)"
proof -
  have trim: "TrimSuffix (s @ [newline]) [newline] = s" for s by (rule TrimSuffix_append)
  note trim [of "''yellow''", simplified newline_def, simplified] trim [of "''can't complain''", simplified newline_def, simplified]
  then show "snd (bunny_side re readme_steps []) = line ''hello''"
    and "snd (bunny_side re readme_steps (line ''yellow'')) = bunny_says"
    and "bunny_side re readme_steps bee_says = (True, bunny_says)"
    using assms by (simp_all add: bunny_side_eq readme_steps_def fits_def bunny_says_def bee_says_def line_def newline_def string_of_newline)
qed

lemma rounds_stable:
  assumes "re_MatchString re ''yellow'' ''yellow''" and "re_MatchString re ''can.* complain'' ''can't complain''"
  shows "rounds re readme_steps (Suc (Suc n)) = (bunny_says, bee_says)"
proof (induction n)
  case 0
  show ?case by (simp add: rounds.simps bunny_side_lines [OF assms] bee_side_lines Let_def)
next
  case (Suc n)
  then show ?case
    by (simp add: rounds.simps(2) [of re readme_steps "Suc (Suc n)"] bunny_side_lines [OF assms] bee_side_lines)
qed

section \<open>The health endpoint\<close>

lemma bee_status_eq:
  assumes "startHTTPEndpointForHealth = Inr m" and "0 \<le> unix" and "clean_path path"
  shows "bee_status m env unix path = (if path = ''/healthz'' then if unix mod 100 = 75 then 408 else 200 else 404)"
proof -
  from assms(1) have m: "m = [(''/healthz'', HealthHandler)]"
    by (simp add: startHTTPEndpointForHealth_def mux_Handle_def valid_pattern_def)
  have "\<not> ends_slash ''/healthz''" by (simp add: ends_slash_def)
  then have match: "mux_match m p = (if p = ''/healthz'' then Some (''/healthz'', HealthHandler) else None)" for p
    by (auto simp: m mux_match_def pattern_matches_def)
  have "path @ ''/'' \<noteq> ''/healthz''"
  proof
    assume "path @ ''/'' = ''/healthz''"
    then have "last (path @ ''/'') = last ''/healthz''" by (rule arg_cong)
    then show False by simp
  qed
  with assms(3) have "mux_route m path = (if path = ''/healthz'' then Handler HealthHandler else NotFound)"
    by (simp add: mux_route_def clean_path_def match exact_match_def)
  then show ?thesis
    using check_y_zero [OF assms(2)]
    by (auto simp: bee_status_def bee_healthEndpoint_def checkHealth_def finish_response_def Fprintln_def WriteHeader_def
      empty_response_def)
qed

text \<open>The path that a server gets of a URL \<open>scheme://host:port/path\<close>, if the path has neither a query nor a
  fragment nor escapes.\<close>

definition url_path :: "string \<Rightarrow> string" where
  "url_path u = dropWhile (\<lambda>c. c \<noteq> CHR ''/'') (drop 3 (dropWhile (\<lambda>c. c \<noteq> CHR '':'') u))"

definition plain_url_path :: "string \<Rightarrow> bool" where
  "plain_url_path p \<longleftrightarrow> CHR ''?'' \<notin> set p \<and> CHR 0x23 \<notin> set p \<and> CHR 0x25 \<notin> set p \<and> CHR '' '' \<notin> set p"

definition plain_host :: "HTTPGetActionConfig \<Rightarrow> bool" where
  "plain_host cfg \<longleftrightarrow> (case http_Host cfg of None \<Rightarrow> True | Some h \<Rightarrow> CHR ''/'' \<notin> set h)"

lemma show_port_no_slash: "CHR ''/'' \<notin> set (show_port n)"
proof -
  have "\<not> is_digit (CHR ''/'')" by (simp add: is_digit_def)
  with show_nat_digits have "CHR ''/'' \<notin> set (show_nat k)" for k by blast
  then show ?thesis by (simp add: show_port_def show_int_def)
qed

lemma HTTPGetAction_url_path:
  assumes "newHTTPGetAction (Some cfg) timeout = Some h" and "plain_host cfg"
  shows "url_path (ha_url h) = CHR ''/'' # http_Path cfg"
proof -
  define host where "host = (case http_Host cfg of None \<Rightarrow> ''localhost'' | Some h \<Rightarrow> if h \<noteq> [] then h else ''localhost'')"
  define scheme where "scheme = (case http_Scheme cfg of None \<Rightarrow> ''http'' | Some s \<Rightarrow> ToLower s)"
  from assms(1) have scheme: "scheme = ''http'' \<or> scheme = ''https''"
    and url: "ha_url h = scheme @ ''://'' @ host @ '':'' @ show_port (http_Port cfg) @ ''/'' @ http_Path cfg"
    unfolding newHTTPGetAction_def option.case Let_def host_def [symmetric] scheme_def [symmetric] by (auto split: if_splits)
  have host: "CHR ''/'' \<notin> set host" using assms(2) by (auto simp: host_def plain_host_def split: option.splits)
  let ?authority = "host @ '':'' @ show_port (http_Port cfg)"
  have "drop 3 (dropWhile (\<lambda>c. c \<noteq> CHR '':'') (ha_url h)) = ?authority @ ''/'' @ http_Path cfg"
    using scheme by (auto simp: url)
  moreover have "\<forall>c \<in> set ?authority. c \<noteq> CHR ''/''" using host show_port_no_slash [of "http_Port cfg"] by auto
  ultimately show ?thesis by (simp only: url_path_def dropWhile_append2 ball_simps) simp
qed

section \<open>Properties\<close>

text \<open>C23: The TCP probe of the README's example passes against \<open>bee\<close>: from its configuration the probe
  is built with all four steps, after two rounds both sides have said everything they ever say,
  both find the conversation successful, and the probe action on that connection succeeds. Used of the
  regular expressions is only that the two of the example compile and match bee's two answers.\<close>

theorem bunny_bee_conversation:
  assumes "re_Compile re ''yellow'' = None" and "re_Compile re ''can.* complain'' = None"
    and "re_MatchString re ''yellow'' ''yellow''" and "re_MatchString re ''can.* complain'' ''can't complain''"
    and "\<And>target d. ae_tcp_Dial env target d = Inr (\<lambda>deadline. wire (snd (rounds re readme_steps 2)))"
  shows "\<exists>t. newTCPSocketAction re (Some readme_tcp) timeout = Inr (Some t)
    \<and> rounds re (ta_expectSteps t) (Suc (Suc n)) = rounds re (ta_expectSteps t) 2
    \<and> fst (bunny_side re (ta_expectSteps t) (snd (rounds re (ta_expectSteps t) 2)))
    \<and> fst (bee_side (fst (rounds re (ta_expectSteps t) 2)))
    \<and> (\<exists>span ms'. TCPSocketAction_act re t name (Some tr) env a r s ms = Inr (span, ms')
         \<and> sp_status span = Some (CodeOk, ''probe succeeded''))"
proof -
  note rounds = rounds_stable [OF assms(3,4)]
  from rounds [of 0] have two: "rounds re readme_steps 2 = (bunny_says, bee_says)"
    by (simp add: numeral_2_eq_2)
  let ?t = "\<lparr>ta_host = ''localhost'', ta_port = 5248, ta_expectSteps = readme_steps, ta_timeout = timeout\<rparr>"
  have "fst (conversation (re_MatchString re) None readme_steps bee_says [])"
    using bunny_side_lines(3) [OF assms(3,4)] by (simp add: bunny_side_eq split: prod.splits)
  then have "tcp_ok re ?t env"
    using assms(5) two by (simp add: tcp_ok_def wire_def limit_def Let_def)
  with TCPSocketAction_act_post [of name re ?t env a r s ms tr] show ?thesis
    using newTCPSocketAction_readme [OF assms(1,2)] two rounds [of n]
      bunny_side_lines(3) [OF assms(3,4)] bee_side_lines(2)
    by (intro exI [of _ ?t]) (auto simp: act_post_def)
qed

text \<open>A regular expression engine that matches a text with itself and \<open>can.* complain\<close> with bee's answer, and a
  world in which dialing reaches \<open>bee\<close>.\<close>

definition example_regexp :: regexp_api where
  "example_regexp = \<lparr>re_Compile = (\<lambda>r. None),
     re_MatchString = (\<lambda>r w. r = w \<or> r = ''can.* complain'' \<and> w = ''can't complain'')\<rparr>"

definition bee_env :: act_env where
  "bee_env = (example_env ''01'')\<lparr>ae_tcp_Dial := (\<lambda>target d. Inr (\<lambda>deadline. wire (snd (rounds example_regexp readme_steps 2))))\<rparr>"

theorem bunny_bee_conversation_witness:
  "\<exists>t span ms'. newTCPSocketAction example_regexp (Some readme_tcp) 2000000000 = Inr (Some t)
   \<and> TCPSocketAction_act example_regexp t ''delta'' (Some ''bunny/egress'') bee_env
       None None None (empty_metrics :: unit metrics_state) = Inr (span, ms')
   \<and> sp_status span = Some (CodeOk, ''probe succeeded'')"
proof -
  have 1: "re_Compile example_regexp r = None" for r by (simp add: example_regexp_def)
  have 2: "re_MatchString example_regexp ''yellow'' ''yellow''"
    "re_MatchString example_regexp ''can.* complain'' ''can't complain''" by (simp_all add: example_regexp_def)
  have 3: "ae_tcp_Dial bee_env target d = Inr (\<lambda>deadline. wire (snd (rounds example_regexp readme_steps 2)))" for target d
    by (simp add: bee_env_def)
  show ?thesis
    using bunny_bee_conversation [OF 1 1 2 3, of 2000000000 0 "''delta''" "''bunny/egress''" None None None
      "empty_metrics :: unit metrics_state"] by (elim exE conjE) (intro exI conjI)
qed


definition readme_get :: HTTPGetActionConfig where
  "readme_get = \<lparr>http_Host = Some ''localhost'', http_HTTPHeaders = [], http_Port = 2624, http_Path = ''healthz'', http_Scheme = None\<rparr>"

definition quiet_waster :: waster_env where
  "quiet_waster = \<lparr>we_available = (\<lambda>_. 0), we_rand = (\<lambda>_. (0, 0)), we_shuffle = (\<lambda>_ xs. xs)\<rparr>"

definition bee_http_env :: "int \<Rightarrow> act_env" where
  "bee_http_env unix = (example_env ''01'')\<lparr>ae_http_Do := (\<lambda>client request deadline.
     (Some (bee_status [(''/healthz'', HealthHandler)] quiet_waster unix (url_path (hq_URL request))), None))\<rparr>"


end
