(* ===== verification/System.thy ===== *)
theory System
  imports Egress Ingress Signals
begin

text \<open>
  The whole program (\<open>src/src/bunny/main.go\<close>): five goroutines, the channels \<open>main\<close> wires them up with,
  and the wait group.

  A state has the state of every package, the point every goroutine is at, the contents of the
  channels, and the counter of the wait group. A step is an action of one goroutine up to its next
  operation on a channel; a step that is not possible (a send to a full channel, a receive from an
  empty one) is \<open>None\<close>, so any order in which the goroutines can run is a sequence of steps. What
  happens in a step is computed by the operations of the packages. A panic of any goroutine, and the
  return of \<open>main\<close>, end the program.

  The fields \<open>gh_\<close> record what happened, for the statements, and no step depends on them: the
  configurations sent to and taken from each channel, those that egress and ingress put in force, how
  many telemetry completed, the stage messages sent and taken, the signals received from the operating system, and the probes started at
  every tick. A tick of the ticker may come at any time. The goroutines of the probes and of the
  health requests run beside this; they have their own theories and only touch the metrics.
\<close>

section \<open>State\<close>

text \<open>The configuration channels are numbered as \<open>main\<close> registers them: egress 0, ingress 1, signals 2,
  telemetry 3; the stage channels: egress 0, ingress 1; the signal channels: config 0, egress 1,
  ingress 2, telemetry 3.\<close>

datatype config_pc = ConfigNew | ConfigStarting | ConfigSending config_sends | ConfigWatcher | ConfigLoop | ConfigDone
datatype egress_pc = EgressNew | EgressIdle | EgressStage BunnyConfig | EgressDone
datatype ingress_pc = IngressNew | IngressIdle | IngressStage BunnyConfig | IngressDone
datatype telemetry_pc = TelemetryNew | TelemetryIdle | TelemetrySending "(nat \<times> ConfigStage) list" | TelemetryDone
datatype signals_pc = SignalsNew | SignalsIdle | SignalsSending signal_sends | SignalsDone

record 'r sys_env =
  se_sha256hex :: "string \<Rightarrow> string"
  se_unmarshal :: unmarshal
  se_regexp :: regexp_api
  se_fraction :: fraction_fn
  se_metrics :: "'r metric_api"

record 'r system =
  sy_main :: nat
  sy_wg :: int
  sy_panic :: "go_panic option"
  pc_config :: config_pc
  pc_egress :: egress_pc
  pc_ingress :: ingress_pc
  pc_telemetry :: telemetry_pc
  pc_signals :: signals_pc
  sy_config :: config_state
  sy_watching :: bool
  sy_egress :: egress_state
  sy_ingress :: ingress_state
  sy_telemetry :: telemetry_state
  sy_signals :: signals_state
  sy_metrics :: "'r metrics_state"
  ch_config :: "nat \<Rightarrow> BunnyConfig chan"
  ch_stage :: "nat \<Rightarrow> ConfigStage chan"
  ch_signal :: "nat \<Rightarrow> os_signal chan"
  ch_os :: "os_signal chan"
  gh_sent :: "nat \<Rightarrow> BunnyConfig list"
  gh_taken :: "nat \<Rightarrow> BunnyConfig list"
  gh_applied :: "nat \<Rightarrow> BunnyConfig list"
  gh_completed :: nat
  gh_stages_sent :: "nat \<Rightarrow> nat"
  gh_stages_taken :: "nat \<Rightarrow> nat"
  gh_signals :: nat
  gh_started :: "Probe list list"

text \<open>The state when \<open>main\<close> has wired up the channels.\<close>

definition telemetry_AddChannelListener :: "nat \<Rightarrow> nat" where
  "telemetry_AddChannelListener channels = Suc channels"

definition configStageListeners :: nat where
  "configStageListeners = (telemetry_AddChannelListener ^^ 2) 0"

lemma configStageListeners_eq: "configStageListeners = 2"
  by (simp add: configStageListeners_def telemetry_AddChannelListener_def numeral_2_eq_2)

definition wired :: "go_time \<Rightarrow> 'r system" where
  "wired now = \<lparr>sy_main = 0, sy_wg = 0, sy_panic = None, pc_config = ConfigNew, pc_egress = EgressNew,
     pc_ingress = IngressNew, pc_telemetry = TelemetryNew, pc_signals = SignalsNew,
     sy_config = (config_AddChannelListener ^^ 4) initial_config_state, sy_watching = False,
     sy_egress = initial_egress_state now, sy_ingress = initial_ingress_state,
     sy_telemetry = initial_telemetry_state,
     sy_signals = (signals_AddChannelListener ^^ 4) initial_signals_state,
     sy_metrics = \<lparr>ms_events = [], ResponseTimes = Map.empty, PromRegistry = None, ms_callbacks = []\<rparr>,
     ch_config = (\<lambda>_. []), ch_stage = (\<lambda>_. []), ch_signal = (\<lambda>_. []), ch_os = [],
     gh_sent = (\<lambda>_. []), gh_taken = (\<lambda>_. []), gh_applied = (\<lambda>_. []), gh_completed = 0, gh_stages_sent = (\<lambda>_. 0),
     gh_stages_taken = (\<lambda>_. 0), gh_signals = 0, gh_started = []\<rparr>"

text \<open>Before that \<open>main\<close> sets the limits of the memory and of the garbage collector that the environment
  leaves open.\<close>

record runtime_limits =
  rl_MemoryLimit :: int
  rl_GCPercent :: int

definition main_limits :: "(string \<Rightarrow> string) \<Rightarrow> runtime_limits \<Rightarrow> runtime_limits" where
  "main_limits getenv rl =
     (let goMemLimitEnvVar = getenv ''GOMEMLIMIT'';
          goGCEnvVar = getenv ''GOGC'';
          rl = (if goMemLimitEnvVar = [] then rl\<lparr>rl_MemoryLimit := 1024 * 1024 * 64\<rparr> else rl)
      in if goGCEnvVar = [] then rl\<lparr>rl_GCPercent := 10\<rparr> else rl)"

lemma main_limits_eq:
  "rl_MemoryLimit (main_limits getenv rl) = (if getenv ''GOMEMLIMIT'' = [] then 67108864 else rl_MemoryLimit rl)"
  "rl_GCPercent (main_limits getenv rl) = (if getenv ''GOGC'' = [] then 10 else rl_GCPercent rl)"
  by (simp_all add: main_limits_def Let_def)

section \<open>Steps\<close>

datatype 'r action =
    MainStep
  | ConfigStart string read_file
  | ConfigEvent config_event
  | ConfigSend
  | ConfigWatch "go_error option"
  | ConfigStop
  | EgressTicked go_time
  | EgressTake
  | EgressApply go_time
  | EgressStop
  | IngressTake
  | IngressApply
  | IngressStop
  | TelemetryTake "'r telemetry_env"
  | TelemetrySend
  | TelemetryStop "'r telemetry_env"
  | SignalsTake
  | SignalsReceive process_table
  | SignalsSend
  | OSSignal os_signal

text \<open>Continue with the result of an operation that may panic.\<close>

definition or_panic :: "'a go \<Rightarrow> ('a \<Rightarrow> 'r system) \<Rightarrow> 'r system \<Rightarrow> 'r system" where
  "or_panic r f s = (case r of Inl p \<Rightarrow> s\<lparr>sy_panic := Some p\<rparr> | Inr x \<Rightarrow> f x)"

text \<open>\<open>wg.Done()\<close>, which panics when the counter becomes negative.\<close>

definition wg_done :: "'r system \<Rightarrow> 'r system" where
  "wg_done s = (if sy_wg s < 1 then s\<lparr>sy_wg := sy_wg s - 1, sy_panic := Some NegativeWaitGroup\<rparr>
     else s\<lparr>sy_wg := sy_wg s - 1\<rparr>)"

definition take_config :: "nat \<Rightarrow> 'r system \<Rightarrow> (BunnyConfig \<times> 'r system) option" where
  "take_config i s = map_option (\<lambda>(c, ch). (c, s\<lparr>ch_config := (ch_config s)(i := ch),
     gh_taken := (gh_taken s)(i := gh_taken s i @ [c])\<rparr>)) (chan_recv (ch_config s i))"

definition take_stage :: "nat \<Rightarrow> 'r system \<Rightarrow> (ConfigStage \<times> 'r system) option" where
  "take_stage i s = map_option (\<lambda>(st, ch). (st, s\<lparr>ch_stage := (ch_stage s)(i := ch),
     gh_stages_taken := (gh_stages_taken s)(i := Suc (gh_stages_taken s i))\<rparr>)) (chan_recv (ch_stage s i))"

definition take_signal :: "nat \<Rightarrow> 'r system \<Rightarrow> (os_signal \<times> 'r system) option" where
  "take_signal i s = map_option (\<lambda>(sg, ch). (sg, s\<lparr>ch_signal := (ch_signal s)(i := ch)\<rparr>))
     (chan_recv (ch_signal s i))"

text \<open>\<open>main\<close>: at an even point it starts the next goroutine, at an odd one it adds one to the wait
  group, at point 10 it waits until the counter is zero, and at point 11 it has returned.\<close>

definition start_goroutine :: "nat \<Rightarrow> 'r system \<Rightarrow> 'r system" where
  "start_goroutine k s =
     (if k = 0 then s\<lparr>pc_config := ConfigStarting\<rparr>
      else if k = 1 then s\<lparr>pc_egress := EgressIdle\<rparr>
      else if k = 2 then s\<lparr>pc_ingress := IngressIdle\<rparr>
      else if k = 3 then s\<lparr>pc_telemetry := TelemetryIdle\<rparr>
      else s\<lparr>pc_signals := SignalsIdle\<rparr>)"

definition main_step :: "'r system \<Rightarrow> 'r system option" where
  "main_step s =
     (if sy_main s < 10 then
        if even (sy_main s) then Some (start_goroutine (sy_main s div 2) (s\<lparr>sy_main := sy_main s + 1\<rparr>))
        else Some (s\<lparr>sy_main := sy_main s + 1, sy_wg := sy_wg s + 1\<rparr>)
      else if sy_wg s = 0 then Some (s\<lparr>sy_main := 11\<rparr>)
      else None)"

text \<open>\<open>GoConfig\<close>: the start, a send of the configuration, the creation of the watcher once the first configuration
  has been sent, an event of the watcher, and the signal that ends the loop.\<close>

definition config_start :: "'r sys_env \<Rightarrow> string \<Rightarrow> read_file \<Rightarrow> 'r system \<Rightarrow> 'r system option" where
  "config_start env envVar content s =
     (if pc_config s = ConfigStarting
      then Some (or_panic (GoConfig_start (se_unmarshal env) envVar content (sy_config s))
        (\<lambda>(st, sends). s\<lparr>sy_config := st, pc_config := ConfigSending sends\<rparr>) s)
      else None)"

definition config_watch :: "'r sys_env \<Rightarrow> config_event \<Rightarrow> 'r system \<Rightarrow> 'r system option" where
  "config_watch env e s =
     (if pc_config s = ConfigLoop \<and> e \<noteq> ConfigSignal
      then Some (or_panic (GoConfig_step (se_sha256hex env) (se_unmarshal env) e (sy_config s))
        (\<lambda>(ctl, st, sends). s\<lparr>sy_config := st, pc_config := ConfigSending sends\<rparr>) s)
      else None)"

definition config_send :: "'r system \<Rightarrow> 'r system option" where
  "config_send s = (case pc_config s of
     ConfigSending [] \<Rightarrow> Some (s\<lparr>pc_config := (if sy_watching s then ConfigLoop else ConfigWatcher)\<rparr>)
   | ConfigSending ((i, c) # sends) \<Rightarrow>
       map_option (\<lambda>ch. s\<lparr>ch_config := (ch_config s)(i := ch), gh_sent := (gh_sent s)(i := gh_sent s i @ [c]),
         pc_config := ConfigSending sends\<rparr>) (chan_send c (ch_config s i))
   | _ \<Rightarrow> None)"

definition config_watcher :: "go_error option \<Rightarrow> 'r system \<Rightarrow> 'r system option" where
  "config_watcher watcherErr s =
     (if pc_config s = ConfigWatcher
      then Some (or_panic (GoConfig_watcher watcherErr (sy_config s))
        (\<lambda>st. s\<lparr>sy_config := st, sy_watching := True, pc_config := ConfigLoop\<rparr>) s)
      else None)"

definition config_stop :: "'r sys_env \<Rightarrow> 'r system \<Rightarrow> 'r system option" where
  "config_stop env s =
     (if pc_config s = ConfigLoop
      then map_option (\<lambda>(sg, s). or_panic (GoConfig_step (se_sha256hex env) (se_unmarshal env) ConfigSignal (sy_config s))
        (\<lambda>(ctl, st, sends). wg_done (s\<lparr>sy_config := st, pc_config := ConfigDone\<rparr>)) s) (take_signal 0 s)
      else None)"

text \<open>\<open>GoEgress\<close>: between taking a configuration and the stage message it does nothing else.\<close>

definition egress_tick :: "'r sys_env \<Rightarrow> go_time \<Rightarrow> 'r system \<Rightarrow> 'r system option" where
  "egress_tick env now s =
     (if pc_egress s = EgressIdle
      then Some (or_panic (GoEgress_step (se_metrics env) (se_regexp env) (EgressTick now) (sy_egress s) (sy_metrics s))
        (\<lambda>(ctl, st, ms, started). s\<lparr>sy_egress := st, sy_metrics := ms, gh_started := gh_started s @ [started]\<rparr>) s)
      else None)"

definition egress_take :: "'r system \<Rightarrow> 'r system option" where
  "egress_take s =
     (if pc_egress s = EgressIdle
      then map_option (\<lambda>(c, s). s\<lparr>pc_egress := EgressStage c\<rparr>) (take_config 0 s)
      else None)"

definition egress_apply :: "'r sys_env \<Rightarrow> go_time \<Rightarrow> 'r system \<Rightarrow> 'r system option" where
  "egress_apply env now s = (case pc_egress s of
     EgressStage c \<Rightarrow>
       map_option (\<lambda>(stage, s).
         or_panic (GoEgress_step (se_metrics env) (se_regexp env) (EgressConfigUpdate c (Some stage) now)
             (sy_egress s) (sy_metrics s))
           (\<lambda>(ctl, st, ms, started). s\<lparr>sy_egress := st, sy_metrics := ms,
              gh_applied := (gh_applied s)(0 := gh_applied s 0 @ [c]), pc_egress := EgressIdle\<rparr>) s)
         (take_stage 0 s)
   | _ \<Rightarrow> None)"

definition egress_stop :: "'r sys_env \<Rightarrow> 'r system \<Rightarrow> 'r system option" where
  "egress_stop env s =
     (if pc_egress s = EgressIdle
      then map_option (\<lambda>(sg, s). or_panic (GoEgress_step (se_metrics env) (se_regexp env) EgressSignal (sy_egress s) (sy_metrics s))
        (\<lambda>(ctl, st, ms, started). wg_done (s\<lparr>sy_egress := st, sy_metrics := ms, pc_egress := EgressDone\<rparr>)) s)
        (take_signal 1 s)
      else None)"

text \<open>\<open>GoIngress\<close>, which also returns when the stage message is not the expected one.\<close>

definition ingress_take :: "'r system \<Rightarrow> 'r system option" where
  "ingress_take s =
     (if pc_ingress s = IngressIdle
      then map_option (\<lambda>(c, s). s\<lparr>pc_ingress := IngressStage c\<rparr>) (take_config 1 s)
      else None)"

definition ingress_apply :: "'r sys_env \<Rightarrow> 'r system \<Rightarrow> 'r system option" where
  "ingress_apply env s = (case pc_ingress s of
     IngressStage c \<Rightarrow>
       map_option (\<lambda>(stage, s).
         or_panic (GoIngress_step (se_metrics env) (se_fraction env) (IngressConfigUpdate c (Some stage))
             (sy_ingress s) (sy_metrics s))
           (\<lambda>(ctl, st, ms). (case ctl of
              Continue \<Rightarrow> s\<lparr>sy_ingress := st, sy_metrics := ms,
                gh_applied := (gh_applied s)(1 := gh_applied s 1 @ [c]), pc_ingress := IngressIdle\<rparr>
            | Return \<Rightarrow> wg_done (s\<lparr>sy_ingress := st, sy_metrics := ms, pc_ingress := IngressDone\<rparr>))) s)
         (take_stage 1 s)
   | _ \<Rightarrow> None)"

definition ingress_stop :: "'r sys_env \<Rightarrow> 'r system \<Rightarrow> 'r system option" where
  "ingress_stop env s =
     (if pc_ingress s = IngressIdle
      then map_option (\<lambda>(sg, s). or_panic (GoIngress_step (se_metrics env) (se_fraction env) IngressSignal (sy_ingress s) (sy_metrics s))
        (\<lambda>(ctl, st, ms). wg_done (s\<lparr>sy_ingress := st, sy_metrics := ms, pc_ingress := IngressDone\<rparr>)) s)
        (take_signal 2 s)
      else None)"

text \<open>\<open>GoTelemetry\<close>, in the environment it finds when it takes a value.\<close>

definition telemetry_take :: "'r telemetry_env \<Rightarrow> 'r system \<Rightarrow> 'r system option" where
  "telemetry_take tenv s =
     (if pc_telemetry s = TelemetryIdle
      then map_option (\<lambda>(c, s).
        or_panic (GoTelemetry_step tenv configStageListeners (TelemetryConfigUpdate c) (sy_telemetry s) (sy_metrics s))
          (\<lambda>(ctl, st, ms, sends). s\<lparr>sy_telemetry := st, sy_metrics := ms, gh_completed := Suc (gh_completed s),
             pc_telemetry := TelemetrySending sends\<rparr>) s)
        (take_config 3 s)
      else None)"

definition telemetry_send :: "'r system \<Rightarrow> 'r system option" where
  "telemetry_send s = (case pc_telemetry s of
     TelemetrySending [] \<Rightarrow> Some (s\<lparr>pc_telemetry := TelemetryIdle\<rparr>)
   | TelemetrySending ((i, stage) # sends) \<Rightarrow>
       map_option (\<lambda>ch. s\<lparr>ch_stage := (ch_stage s)(i := ch),
         gh_stages_sent := (gh_stages_sent s)(i := Suc (gh_stages_sent s i)),
         pc_telemetry := TelemetrySending sends\<rparr>) (chan_send stage (ch_stage s i))
   | _ \<Rightarrow> None)"

definition telemetry_stop :: "'r telemetry_env \<Rightarrow> 'r system \<Rightarrow> 'r system option" where
  "telemetry_stop tenv s =
     (if pc_telemetry s = TelemetryIdle
      then map_option (\<lambda>(sg, s). or_panic (GoTelemetry_step tenv configStageListeners TelemetrySignal (sy_telemetry s) (sy_metrics s))
        (\<lambda>(ctl, st, ms, sends). wg_done (s\<lparr>sy_telemetry := st, sy_metrics := ms, pc_telemetry := TelemetryDone\<rparr>)) s)
        (take_signal 3 s)
      else None)"

text \<open>\<open>GoSignals\<close>, and the operating system, which drops a signal when the buffer is full. A signal
  that comes before \<open>signal.Notify\<close> ends the process and is not a step.\<close>

definition signals_take :: "'r sys_env \<Rightarrow> 'r system \<Rightarrow> 'r system option" where
  "signals_take env s =
     (if pc_signals s = SignalsIdle
      then map_option (\<lambda>(c, s). s\<lparr>sy_signals := signals_updateConfig (se_regexp env) c (sy_signals s)\<rparr>) (take_config 2 s)
      else None)"

definition signals_receive :: "'r sys_env \<Rightarrow> process_table \<Rightarrow> 'r system \<Rightarrow> 'r system option" where
  "signals_receive env table s =
     (if pc_signals s = SignalsIdle
      then (case chan_recv (ch_os s) of
          None \<Rightarrow> None
        | Some (sg, ch) \<Rightarrow>
            map_option (\<lambda>(ctl, st, sends). s\<lparr>ch_os := ch, sy_signals := st, gh_signals := Suc (gh_signals s),
              pc_signals := SignalsSending sends\<rparr>)
              (GoSignals_step (se_regexp env) (SignalsSignal sg table) (sy_signals s)))
      else None)"

definition signals_send :: "'r system \<Rightarrow> 'r system option" where
  "signals_send s = (case pc_signals s of
     SignalsSending [] \<Rightarrow> Some (wg_done (s\<lparr>pc_signals := SignalsDone\<rparr>))
   | SignalsSending ((i, sg) # sends) \<Rightarrow>
       map_option (\<lambda>ch. s\<lparr>ch_signal := (ch_signal s)(i := ch), pc_signals := SignalsSending sends\<rparr>)
         (chan_send sg (ch_signal s i))
   | _ \<Rightarrow> None)"

definition os_notify :: "os_signal \<Rightarrow> 'r system \<Rightarrow> 'r system option" where
  "os_notify sg s =
     (if pc_signals s = SignalsNew then None
      else Some (case chan_send sg (ch_os s) of None \<Rightarrow> s | Some ch \<Rightarrow> s\<lparr>ch_os := ch\<rparr>))"

text \<open>One step of the program.\<close>

fun act_step :: "'r sys_env \<Rightarrow> 'r action \<Rightarrow> 'r system \<Rightarrow> 'r system option" where
  "act_step env MainStep s = main_step s"
| "act_step env (ConfigStart envVar content) s = config_start env envVar content s"
| "act_step env (ConfigEvent e) s = config_watch env e s"
| "act_step env ConfigSend s = config_send s"
| "act_step env (ConfigWatch err) s = config_watcher err s"
| "act_step env ConfigStop s = config_stop env s"
| "act_step env (EgressTicked now) s = egress_tick env now s"
| "act_step env EgressTake s = egress_take s"
| "act_step env (EgressApply now) s = egress_apply env now s"
| "act_step env EgressStop s = egress_stop env s"
| "act_step env IngressTake s = ingress_take s"
| "act_step env IngressApply s = ingress_apply env s"
| "act_step env IngressStop s = ingress_stop env s"
| "act_step env (TelemetryTake tenv) s = telemetry_take tenv s"
| "act_step env TelemetrySend s = telemetry_send s"
| "act_step env (TelemetryStop tenv) s = telemetry_stop tenv s"
| "act_step env SignalsTake s = signals_take env s"
| "act_step env (SignalsReceive table) s = signals_receive env table s"
| "act_step env SignalsSend s = signals_send s"
| "act_step env (OSSignal sg) s = os_notify sg s"

definition sys_step :: "'r sys_env \<Rightarrow> 'r action \<Rightarrow> 'r system \<Rightarrow> 'r system option" where
  "sys_step env a s = (if sy_panic s \<noteq> None \<or> sy_main s = 11 then None else act_step env a s)"

inductive reachable :: "'r sys_env \<Rightarrow> go_time \<Rightarrow> 'r system \<Rightarrow> bool" for env now where
  reach_init: "reachable env now (wired now)"
| reach_step: "reachable env now s \<Longrightarrow> sys_step env a s = Some s' \<Longrightarrow> reachable env now s'"

text \<open>Running a sequence of actions.\<close>

fun run_actions :: "'r sys_env \<Rightarrow> 'r action list \<Rightarrow> 'r system \<Rightarrow> 'r system option" where
  "run_actions env [] s = Some s"
| "run_actions env (a # as) s = (case sys_step env a s of None \<Rightarrow> None | Some s' \<Rightarrow> run_actions env as s')"

lemma run_reachable: "reachable env now s \<Longrightarrow> run_actions env as s = Some s' \<Longrightarrow> reachable env now s'"
  by (induction as arbitrary: s) (auto split: option.splits intro: reach_step)

section \<open>Case analysis of steps\<close>

lemma sys_step_eq_Some:
  "sys_step env a s = Some s' \<longleftrightarrow> sy_panic s = None \<and> sy_main s \<noteq> 11 \<and> act_step env a s = Some s'"
  by (auto simp: sys_step_def)

lemma or_panic_split:
  "P (or_panic r f s) \<longleftrightarrow> (\<forall>p. r = Inl p \<longrightarrow> P (s\<lparr>sy_panic := Some p\<rparr>)) \<and> (\<forall>x. r = Inr x \<longrightarrow> P (f x))"
  by (simp add: or_panic_def split: sum.split)

named_theorems take_defs

declare take_config_def [take_defs] take_stage_def [take_defs] take_signal_def [take_defs]
  chan_recv_eq_Some [take_defs]

text \<open>What a goroutine that panics changes: only what it had taken from a channel.\<close>

definition crashed :: "'r system \<Rightarrow> 'r system \<Rightarrow> bool" where
  "crashed s s' \<longleftrightarrow> sy_panic s' \<noteq> None \<and> sy_main s' = sy_main s \<and> sy_wg s' = sy_wg s
     \<and> pc_config s' = pc_config s \<and> pc_egress s' = pc_egress s \<and> pc_ingress s' = pc_ingress s
     \<and> pc_telemetry s' = pc_telemetry s \<and> pc_signals s' = pc_signals s \<and> gh_signals s' = gh_signals s"

text \<open>The steps as a relation, one rule for every way a goroutine can go on. Invariants are shown by
  rule inversion on it.\<close>

inductive transition :: "'r sys_env \<Rightarrow> 'r system \<Rightarrow> 'r system \<Rightarrow> bool" for env s where
  tr_main: "main_step s = Some s' \<Longrightarrow> transition env s s'"
| tr_crash: "crashed s s' \<Longrightarrow> transition env s s'"
| tr_idle: "transition env s s"
| tr_config_start: "pc_config s = ConfigStarting \<Longrightarrow>
    GoConfig_start (se_unmarshal env) envVar content (sy_config s) = Inr (st, sends) \<Longrightarrow>
    transition env s (s\<lparr>sy_config := st, pc_config := ConfigSending sends\<rparr>)"
| tr_config_watch: "pc_config s = ConfigLoop \<Longrightarrow> e \<noteq> ConfigSignal \<Longrightarrow>
    GoConfig_step (se_sha256hex env) (se_unmarshal env) e (sy_config s) = Inr (ctl, st, sends) \<Longrightarrow>
    transition env s (s\<lparr>sy_config := st, pc_config := ConfigSending sends\<rparr>)"
| tr_config_sent: "pc_config s = ConfigSending [] \<Longrightarrow> pc = (if sy_watching s then ConfigLoop else ConfigWatcher) \<Longrightarrow>
    transition env s (s\<lparr>pc_config := pc\<rparr>)"
| tr_config_watcher: "pc_config s = ConfigWatcher \<Longrightarrow> GoConfig_watcher err (sy_config s) = Inr st \<Longrightarrow>
    transition env s (s\<lparr>sy_config := st, sy_watching := True, pc_config := ConfigLoop\<rparr>)"
| tr_config_send: "pc_config s = ConfigSending ((i, c) # sends) \<Longrightarrow> ch_config s i = [] \<Longrightarrow>
    transition env s (s\<lparr>ch_config := (ch_config s)(i := [c]), gh_sent := (gh_sent s)(i := gh_sent s i @ [c]),
      pc_config := ConfigSending sends\<rparr>)"
| tr_config_stop: "pc_config s = ConfigLoop \<Longrightarrow> ch_signal s 0 = sg # ch \<Longrightarrow>
    transition env s (wg_done (s\<lparr>ch_signal := (ch_signal s)(0 := ch), pc_config := ConfigDone\<rparr>))"
| tr_egress_tick: "pc_egress s = EgressIdle \<Longrightarrow> ps = [] \<or> ps = performProbes (sy_egress s) \<Longrightarrow>
    transition env s (s\<lparr>gh_started := gh_started s @ [ps]\<rparr>)"
| tr_egress_take: "pc_egress s = EgressIdle \<Longrightarrow> ch_config s 0 = c # ch \<Longrightarrow>
    transition env s (s\<lparr>ch_config := (ch_config s)(0 := ch), gh_taken := (gh_taken s)(0 := gh_taken s 0 @ [c]),
      pc_egress := EgressStage c\<rparr>)"
| tr_egress_apply: "pc_egress s = EgressStage c \<Longrightarrow> ch_stage s 0 = stage # ch \<Longrightarrow>
    GoEgress_step (se_metrics env) (se_regexp env) (EgressConfigUpdate c (Some stage) now) (sy_egress s) (sy_metrics s)
      = Inr (ctl, st, ms, started) \<Longrightarrow>
    transition env s (s\<lparr>ch_stage := (ch_stage s)(0 := ch), gh_stages_taken := (gh_stages_taken s)(0 := Suc (gh_stages_taken s 0)),
      sy_egress := st, sy_metrics := ms, gh_applied := (gh_applied s)(0 := gh_applied s 0 @ [c]), pc_egress := EgressIdle\<rparr>)"
| tr_egress_stop: "pc_egress s = EgressIdle \<Longrightarrow> ch_signal s 1 = sg # ch \<Longrightarrow>
    transition env s (wg_done (s\<lparr>ch_signal := (ch_signal s)(1 := ch), pc_egress := EgressDone\<rparr>))"
| tr_ingress_take: "pc_ingress s = IngressIdle \<Longrightarrow> ch_config s 1 = c # ch \<Longrightarrow>
    transition env s (s\<lparr>ch_config := (ch_config s)(1 := ch), gh_taken := (gh_taken s)(1 := gh_taken s 1 @ [c]),
      pc_ingress := IngressStage c\<rparr>)"
| tr_ingress_apply: "pc_ingress s = IngressStage c \<Longrightarrow> ch_stage s 1 = stage # ch \<Longrightarrow>
    GoIngress_step (se_metrics env) (se_fraction env) (IngressConfigUpdate c (Some stage)) (sy_ingress s) (sy_metrics s)
      = Inr (Continue, st, ms) \<Longrightarrow>
    transition env s (s\<lparr>ch_stage := (ch_stage s)(1 := ch), gh_stages_taken := (gh_stages_taken s)(1 := Suc (gh_stages_taken s 1)),
      sy_ingress := st, sy_metrics := ms, gh_applied := (gh_applied s)(1 := gh_applied s 1 @ [c]), pc_ingress := IngressIdle\<rparr>)"
| tr_ingress_return: "pc_ingress s = IngressStage c \<Longrightarrow> ch_stage s 1 = stage # ch \<Longrightarrow>
    GoIngress_step (se_metrics env) (se_fraction env) (IngressConfigUpdate c (Some stage)) (sy_ingress s) (sy_metrics s)
      = Inr (Return, st, ms) \<Longrightarrow>
    transition env s (wg_done (s\<lparr>ch_stage := (ch_stage s)(1 := ch), gh_stages_taken := (gh_stages_taken s)(1 := Suc (gh_stages_taken s 1)),
      sy_ingress := st, sy_metrics := ms, pc_ingress := IngressDone\<rparr>))"
| tr_ingress_stop: "pc_ingress s = IngressIdle \<Longrightarrow> ch_signal s 2 = sg # ch \<Longrightarrow>
    transition env s (wg_done (s\<lparr>ch_signal := (ch_signal s)(2 := ch), sy_ingress := shutdownHTTPServer (sy_ingress s),
      pc_ingress := IngressDone\<rparr>))"
| tr_telemetry_take: "pc_telemetry s = TelemetryIdle \<Longrightarrow> ch_config s 3 = c # ch \<Longrightarrow>
    GoTelemetry_step tenv configStageListeners (TelemetryConfigUpdate c) (sy_telemetry s) (sy_metrics s)
      = Inr (ctl, st, ms, sends) \<Longrightarrow>
    transition env s (s\<lparr>ch_config := (ch_config s)(3 := ch), gh_taken := (gh_taken s)(3 := gh_taken s 3 @ [c]),
      sy_telemetry := st, sy_metrics := ms, gh_completed := Suc (gh_completed s), pc_telemetry := TelemetrySending sends\<rparr>)"
| tr_telemetry_sent: "pc_telemetry s = TelemetrySending [] \<Longrightarrow> transition env s (s\<lparr>pc_telemetry := TelemetryIdle\<rparr>)"
| tr_telemetry_send: "pc_telemetry s = TelemetrySending ((i, stage) # sends) \<Longrightarrow> ch_stage s i = [] \<Longrightarrow>
    transition env s (s\<lparr>ch_stage := (ch_stage s)(i := [stage]),
      gh_stages_sent := (gh_stages_sent s)(i := Suc (gh_stages_sent s i)), pc_telemetry := TelemetrySending sends\<rparr>)"
| tr_telemetry_stop: "pc_telemetry s = TelemetryIdle \<Longrightarrow> ch_signal s 3 = sg # ch \<Longrightarrow>
    GoTelemetry_step tenv configStageListeners TelemetrySignal (sy_telemetry s) (sy_metrics s) = Inr (ctl, st, ms, sends) \<Longrightarrow>
    transition env s (wg_done (s\<lparr>ch_signal := (ch_signal s)(3 := ch), sy_telemetry := st, sy_metrics := ms,
      pc_telemetry := TelemetryDone\<rparr>))"
| tr_signals_take: "pc_signals s = SignalsIdle \<Longrightarrow> ch_config s 2 = c # ch \<Longrightarrow>
    transition env s (s\<lparr>ch_config := (ch_config s)(2 := ch), gh_taken := (gh_taken s)(2 := gh_taken s 2 @ [c]),
      sy_signals := signals_updateConfig (se_regexp env) c (sy_signals s)\<rparr>)"
| tr_signals_receive: "pc_signals s = SignalsIdle \<Longrightarrow> ch_os s = sg # ch \<Longrightarrow>
    GoSignals_step (se_regexp env) (SignalsSignal sg table) (sy_signals s) = Some (ctl, st, sends) \<Longrightarrow>
    transition env s (s\<lparr>ch_os := ch, sy_signals := st, gh_signals := Suc (gh_signals s), pc_signals := SignalsSending sends\<rparr>)"
| tr_signals_sent: "pc_signals s = SignalsSending [] \<Longrightarrow> transition env s (wg_done (s\<lparr>pc_signals := SignalsDone\<rparr>))"
| tr_signals_send: "pc_signals s = SignalsSending ((i, sg) # sends) \<Longrightarrow> ch_signal s i = [] \<Longrightarrow>
    transition env s (s\<lparr>ch_signal := (ch_signal s)(i := [sg]), pc_signals := SignalsSending sends\<rparr>)"
| tr_notify: "pc_signals s \<noteq> SignalsNew \<Longrightarrow> ch_os s = [] \<Longrightarrow> transition env s (s\<lparr>ch_os := [sg]\<rparr>)"

lemma crashed_panic [intro]: "crashed s (s\<lparr>sy_panic := Some p\<rparr>)"
  by (simp add: crashed_def)

lemma config_transition:
  "config_start env envVar content s = Some s' \<Longrightarrow> transition env s s'"
  "config_watch env e s = Some s' \<Longrightarrow> transition env s s'"
  "config_send s = Some s' \<Longrightarrow> transition env s s'"
  "config_watcher err s = Some s' \<Longrightarrow> transition env s s'"
  "config_stop env s = Some s' \<Longrightarrow> transition env s s'"
  subgoal
    by (auto simp: config_start_def split: or_panic_split if_splits;
      ((rule tr_config_start; assumption) | (rule tr_crash, rule crashed_panic)))
  subgoal
    by (auto simp: config_watch_def simp del: GoConfig_step.simps split: or_panic_split if_splits;
      ((rule tr_config_watch; assumption) | (rule tr_crash, rule crashed_panic)))
  subgoal
    by (auto simp: config_send_def chan_send_eq_Some split: config_pc.splits list.splits if_splits;
      ((rule tr_config_sent; simp) | (rule tr_config_send; assumption)))
  subgoal
    by (auto simp: config_watcher_def split: or_panic_split if_splits;
      ((rule tr_config_watcher; assumption) | (rule tr_crash, rule crashed_panic)))
  subgoal
    by (auto simp: config_stop_def take_defs or_panic_def split: if_splits;
      rule tr_config_stop; assumption)
  done

lemma egress_transition:
  "egress_tick env now s = Some s' \<Longrightarrow> transition env s s'"
  "egress_take s = Some s' \<Longrightarrow> transition env s s'"
  "egress_apply env now s = Some s' \<Longrightarrow> transition env s s'"
  "egress_stop env s = Some s' \<Longrightarrow> transition env s s'"
  subgoal
    by (auto simp: egress_tick_def or_panic_def split: if_splits; rule tr_egress_tick; simp)
  subgoal
    by (auto simp: egress_take_def take_defs split: if_splits;
      rule tr_egress_take; assumption)
  subgoal
    by (auto simp: egress_apply_def take_defs simp del: GoEgress_step.simps
        split: or_panic_split egress_pc.splits;
      ((rule tr_egress_apply; assumption) | (rule tr_crash, simp add: crashed_def)))
  subgoal
    by (auto simp: egress_stop_def take_defs or_panic_def simp del: One_nat_def split: if_splits;
      rule tr_egress_stop; simp)
  done

lemma ingress_transition:
  "ingress_take s = Some s' \<Longrightarrow> transition env s s'"
  "ingress_apply env s = Some s' \<Longrightarrow> transition env s s'"
  "ingress_stop env s = Some s' \<Longrightarrow> transition env s s'"
  subgoal
    by (auto simp: ingress_take_def take_defs simp del: One_nat_def split: if_splits;
      rule tr_ingress_take; simp)
  subgoal
    by (auto simp: ingress_apply_def take_defs simp del: GoIngress_step.simps One_nat_def
        split: or_panic_split ingress_pc.splits loop_control.splits;
      ((rule tr_ingress_apply; assumption) | (rule tr_ingress_return; assumption) | (rule tr_crash, simp add: crashed_def)))
  subgoal
    by (auto simp: ingress_stop_def take_defs or_panic_def split: if_splits;
      rule tr_ingress_stop; simp)
  done

lemma telemetry_transition:
  "telemetry_take tenv s = Some s' \<Longrightarrow> transition env s s'"
  "telemetry_send s = Some s' \<Longrightarrow> transition env s s'"
  "telemetry_stop tenv s = Some s' \<Longrightarrow> transition env s s'"
  subgoal
    by (auto simp: telemetry_take_def take_defs simp del: GoTelemetry_step.simps
        split: or_panic_split if_splits;
      ((rule tr_telemetry_take; assumption) | (rule tr_crash, simp add: crashed_def)))
  subgoal
    by (auto simp: telemetry_send_def chan_send_eq_Some split: telemetry_pc.splits list.splits;
      ((rule tr_telemetry_sent; assumption) | (rule tr_telemetry_send; assumption)))
  subgoal
    by (auto simp: telemetry_stop_def take_defs simp del: GoTelemetry_step.simps
        split: or_panic_split if_splits;
      ((rule tr_telemetry_stop; assumption) | (rule tr_crash, simp add: crashed_def)))
  done

lemma signals_transition:
  "signals_take env s = Some s' \<Longrightarrow> transition env s s'"
  "signals_receive env table s = Some s' \<Longrightarrow> transition env s s'"
  "signals_send s = Some s' \<Longrightarrow> transition env s s'"
  "os_notify sg s = Some s' \<Longrightarrow> transition env s s'"
  subgoal
    by (auto simp: signals_take_def take_defs split: if_splits;
      rule tr_signals_take; assumption)
  subgoal
    by (auto simp: signals_receive_def chan_recv_eq_Some simp del: GoSignals_step.simps split: if_splits option.splits;
      rule tr_signals_receive; assumption)
  subgoal
    by (auto simp: signals_send_def chan_send_eq_Some split: signals_pc.splits list.splits;
      ((rule tr_signals_sent; assumption) | (rule tr_signals_send; assumption)))
  subgoal
    by (auto simp: os_notify_def chan_send_eq_Some split: if_splits option.splits;
      ((rule tr_notify; assumption) | rule tr_idle))
  done

lemma act_transition: "act_step env a s = Some s' \<Longrightarrow> transition env s s'"
  by (cases a) (auto intro: tr_main config_transition egress_transition ingress_transition
    telemetry_transition signals_transition)

lemma sys_transition:
  "sys_step env a s = Some s' \<Longrightarrow> sy_panic s = None \<and> sy_main s \<noteq> 11 \<and> transition env s s'"
  by (auto simp: sys_step_eq_Some intro: act_transition)

section \<open>The wait group\<close>

definition dones :: "'r system \<Rightarrow> int" where
  "dones s = of_bool (pc_config s = ConfigDone) + of_bool (pc_egress s = EgressDone)
     + of_bool (pc_ingress s = IngressDone) + of_bool (pc_telemetry s = TelemetryDone)
     + of_bool (pc_signals s = SignalsDone)"

definition inv_wg :: "'r system \<Rightarrow> bool" where
  "inv_wg s \<longleftrightarrow> sy_main s \<le> 11 \<and> (pc_config s = ConfigNew \<longleftrightarrow> sy_main s = 0)
     \<and> (pc_egress s = EgressNew \<longleftrightarrow> sy_main s \<le> 2) \<and> (pc_ingress s = IngressNew \<longleftrightarrow> sy_main s \<le> 4)
     \<and> (pc_telemetry s = TelemetryNew \<longleftrightarrow> sy_main s \<le> 6) \<and> (pc_signals s = SignalsNew \<longleftrightarrow> sy_main s \<le> 8)
     \<and> sy_wg s = int (min 5 (sy_main s div 2)) - dones s
     \<and> (sy_wg s < 0 \<longrightarrow> sy_panic s = Some NegativeWaitGroup) \<and> (sy_main s = 11 \<longrightarrow> sy_wg s = 0)"

lemma inv_wg_wired: "inv_wg (wired now)"
  by (simp add: inv_wg_def wired_def dones_def)

lemma start_goroutine_simps [simp]:
  "sy_main (start_goroutine k s) = sy_main s" "sy_wg (start_goroutine k s) = sy_wg s"
  "sy_panic (start_goroutine k s) = sy_panic s"
  "pc_config (start_goroutine k s) = (if k = 0 then ConfigStarting else pc_config s)"
  "pc_egress (start_goroutine k s) = (if k = 1 then EgressIdle else pc_egress s)"
  "pc_ingress (start_goroutine k s) = (if k = 2 then IngressIdle else pc_ingress s)"
  "pc_telemetry (start_goroutine k s) = (if k = 3 then TelemetryIdle else pc_telemetry s)"
  "pc_signals (start_goroutine k s) = (if k \<ge> 4 then SignalsIdle else pc_signals s)"
  by (simp_all add: start_goroutine_def)

lemma inv_wg_start:
  assumes "inv_wg s" and "sy_main s = 2 * k" and "k < 5" and "sy_panic s = None"
  shows "inv_wg (start_goroutine k (s\<lparr>sy_main := sy_main s + 1\<rparr>))"
proof -
  let ?s' = "start_goroutine k (s\<lparr>sy_main := sy_main s + 1\<rparr>)"
  have k: "k = 0 \<or> k = 1 \<or> k = 2 \<or> k = 3 \<or> k = 4" using assms(3) by arith
  moreover from k have "dones ?s' = dones s"
    using assms(1-3) by (elim disjE) (simp_all add: dones_def inv_wg_def)
  ultimately show ?thesis
    using assms by (elim disjE) (simp_all add: inv_wg_def)
qed

lemma inv_wg_add:
  assumes "inv_wg s" and "sy_main s = 2 * k + 1" and "k < 5" and "sy_panic s = None"
  shows "inv_wg (s\<lparr>sy_main := sy_main s + 1, sy_wg := sy_wg s + 1\<rparr>)"
proof -
  have "dones (s\<lparr>sy_main := sy_main s + 1, sy_wg := sy_wg s + 1\<rparr>) = dones s"
    by (simp add: dones_def)
  moreover have "k = 0 \<or> k = 1 \<or> k = 2 \<or> k = 3 \<or> k = 4" using assms(3) by arith
  ultimately show ?thesis
    using assms by (elim disjE) (simp_all add: inv_wg_def)
qed

lemma inv_wg_main:
  assumes "inv_wg s" and "main_step s = Some s'" and "sy_panic s = None" and "sy_main s \<noteq> 11"
  shows "inv_wg s'"
proof (cases "sy_main s < 10")
  case True
  show ?thesis
  proof (cases "even (sy_main s)")
    case even: True
    then show ?thesis
      using assms True inv_wg_start [of s "sy_main s div 2"] by (simp add: main_step_def)
  next
    case odd: False
    then show ?thesis
      using assms True inv_wg_add [of s "sy_main s div 2"] by (auto simp: main_step_def)
  qed
next
  case False
  with assms(1,4) have "sy_main s = 10" by (simp add: inv_wg_def)
  moreover from False assms(2) have "sy_wg s = 0" "s' = s\<lparr>sy_main := 11\<rparr>"
    by (auto simp: main_step_def split: if_splits)
  moreover have "dones (s\<lparr>sy_main := 11\<rparr>) = dones s" by (simp add: dones_def)
  ultimately show ?thesis using assms(1) by (simp add: inv_wg_def)
qed

text \<open>A step of a goroutine leaves \<open>main\<close> alone, starts nothing, and takes one off the counter if the
  goroutine ends.\<close>

definition wg_step :: "'r system \<Rightarrow> 'r system \<Rightarrow> bool" where
  "wg_step s s' \<longleftrightarrow> sy_main s' = sy_main s \<and> (pc_config s' = ConfigNew \<longleftrightarrow> pc_config s = ConfigNew)
     \<and> (pc_egress s' = EgressNew \<longleftrightarrow> pc_egress s = EgressNew) \<and> (pc_ingress s' = IngressNew \<longleftrightarrow> pc_ingress s = IngressNew)
     \<and> (pc_telemetry s' = TelemetryNew \<longleftrightarrow> pc_telemetry s = TelemetryNew)
     \<and> (pc_signals s' = SignalsNew \<longleftrightarrow> pc_signals s = SignalsNew)
     \<and> (sy_wg s' = sy_wg s \<and> dones s' = dones s
       \<or> sy_wg s' = sy_wg s - 1 \<and> dones s' = dones s + 1
         \<and> (sy_wg s < 1 \<longrightarrow> sy_panic s' = Some NegativeWaitGroup))"

lemma wg_step_inv: "inv_wg s \<Longrightarrow> sy_panic s = None \<Longrightarrow> sy_main s \<noteq> 11 \<Longrightarrow> wg_step s s' \<Longrightarrow> inv_wg s'"
  by (auto simp: inv_wg_def wg_step_def)

lemma transition_wg:
  "transition env s s' \<Longrightarrow> main_step s = Some s' \<or> wg_step s s'"
  by (cases rule: transition.cases, assumption)
    (simp_all add: wg_step_def dones_def wg_done_def crashed_def)

lemma inv_wg_step:
  assumes "inv_wg s" and "sys_step env a s = Some s'"
  shows "inv_wg s'"
  using sys_transition [OF assms(2)] transition_wg [of env s s'] assms(1)
  by (auto intro: inv_wg_main wg_step_inv)

lemma reachable_inv_wg: "reachable env now s \<Longrightarrow> inv_wg s"
  by (induction rule: reachable.induct) (auto intro: inv_wg_wired inv_wg_step)

section \<open>Frames\<close>

text \<open>What ending a goroutine and a step of \<open>main\<close> leave alone.\<close>

lemma wg_done_simps [simp]:
  "sy_main (wg_done s) = sy_main s" "pc_config (wg_done s) = pc_config s" "pc_egress (wg_done s) = pc_egress s"
  "pc_ingress (wg_done s) = pc_ingress s" "pc_telemetry (wg_done s) = pc_telemetry s"
  "pc_signals (wg_done s) = pc_signals s" "sy_config (wg_done s) = sy_config s" "sy_watching (wg_done s) = sy_watching s" "sy_egress (wg_done s) = sy_egress s"
  "sy_ingress (wg_done s) = sy_ingress s" "sy_telemetry (wg_done s) = sy_telemetry s"
  "sy_signals (wg_done s) = sy_signals s" "sy_metrics (wg_done s) = sy_metrics s" "ch_config (wg_done s) = ch_config s"
  "ch_stage (wg_done s) = ch_stage s" "ch_signal (wg_done s) = ch_signal s" "ch_os (wg_done s) = ch_os s"
  "gh_sent (wg_done s) = gh_sent s" "gh_taken (wg_done s) = gh_taken s" "gh_applied (wg_done s) = gh_applied s" "gh_completed (wg_done s) = gh_completed s"
  "gh_stages_sent (wg_done s) = gh_stages_sent s" "gh_stages_taken (wg_done s) = gh_stages_taken s"
  "gh_signals (wg_done s) = gh_signals s" "gh_started (wg_done s) = gh_started s"
  by (simp_all add: wg_done_def)

definition main_frame :: "'r system \<Rightarrow> 'r system \<Rightarrow> bool" where
  "main_frame s s' \<longleftrightarrow> sy_config s' = sy_config s \<and> sy_watching s' = sy_watching s \<and> sy_egress s' = sy_egress s \<and> sy_ingress s' = sy_ingress s
     \<and> sy_telemetry s' = sy_telemetry s \<and> sy_signals s' = sy_signals s \<and> sy_metrics s' = sy_metrics s
     \<and> ch_config s' = ch_config s \<and> ch_stage s' = ch_stage s \<and> ch_signal s' = ch_signal s \<and> ch_os s' = ch_os s
     \<and> gh_sent s' = gh_sent s \<and> gh_taken s' = gh_taken s \<and> gh_applied s' = gh_applied s \<and> gh_completed s' = gh_completed s
     \<and> gh_stages_sent s' = gh_stages_sent s \<and> gh_stages_taken s' = gh_stages_taken s \<and> gh_signals s' = gh_signals s
     \<and> gh_started s' = gh_started s \<and> sy_panic s' = sy_panic s"

lemma main_step_frame:
  "main_step s = Some s' \<Longrightarrow> main_frame s s'"
  by (auto simp: main_step_def main_frame_def start_goroutine_def split: if_splits)

text \<open>A step of \<open>main\<close> changes the point of a goroutine only from not started to started.\<close>

definition main_starts :: "'r system \<Rightarrow> 'r system \<Rightarrow> bool" where
  "main_starts s s' \<longleftrightarrow> (pc_config s' = pc_config s \<or> pc_config s = ConfigNew \<and> pc_config s' = ConfigStarting)
     \<and> (pc_egress s' = pc_egress s \<or> pc_egress s = EgressNew \<and> pc_egress s' = EgressIdle)
     \<and> (pc_ingress s' = pc_ingress s \<or> pc_ingress s = IngressNew \<and> pc_ingress s' = IngressIdle)
     \<and> (pc_telemetry s' = pc_telemetry s \<or> pc_telemetry s = TelemetryNew \<and> pc_telemetry s' = TelemetryIdle)
     \<and> (pc_signals s' = pc_signals s \<or> pc_signals s = SignalsNew \<and> pc_signals s' = SignalsIdle)"

lemma main_step_starts:
  assumes "main_step s = Some s'" and "inv_wg s"
  shows "main_starts s s'"
proof (cases "sy_main s < 10 \<and> even (sy_main s)")
  case True
  then obtain k where k: "sy_main s = 2 * k" "k < 5" by (auto elim!: evenE)
  then have "k = 0 \<or> k = 1 \<or> k = 2 \<or> k = 3 \<or> k = 4" by arith
  with assms k show ?thesis
    by (elim disjE) (auto simp: main_step_def main_starts_def inv_wg_def)
next
  case False
  with assms(1) show ?thesis by (auto simp: main_step_def main_starts_def split: if_splits)
qed

end
