(* ===== verification/System_Invariants.thy ===== *)
theory System_Invariants
  imports System
begin

text \<open>
  Invariants of the program of \<open>System\<close>: how far the stage messages of telemetry, the
  configurations of \<open>config\<close> and the signal of \<open>signals\<close> have got. They hold in every reachable state
  that is not the state of a panic.
\<close>

section \<open>Stage messages\<close>

text \<open>The channels telemetry has still to notify are those from \<open>j\<close> on.\<close>

definition stages_pending :: "telemetry_pc \<Rightarrow> nat \<Rightarrow> bool" where
  "stages_pending pc j \<longleftrightarrow> (case pc of
     TelemetrySending sends \<Rightarrow> sends = map (\<lambda>i. (i, ConfigStageTelemetryCompleted)) [j ..< configStageListeners]
   | _ \<Rightarrow> j = configStageListeners)"

lemma stages_pending_simps [simp]:
  "stages_pending TelemetryNew j \<longleftrightarrow> j = configStageListeners"
  "stages_pending TelemetryIdle j \<longleftrightarrow> j = configStageListeners"
  "stages_pending TelemetryDone j \<longleftrightarrow> j = configStageListeners"
  "stages_pending (TelemetrySending sends) j \<longleftrightarrow>
     sends = map (\<lambda>i. (i, ConfigStageTelemetryCompleted)) [j ..< configStageListeners]"
  by (simp_all add: stages_pending_def)

definition stage_balance :: "'r system \<Rightarrow> nat \<Rightarrow> bool" where
  "stage_balance s j \<longleftrightarrow> j \<le> configStageListeners
     \<and> (\<forall>i<configStageListeners. gh_stages_sent s i + (if j \<le> i then 1 else 0) = gh_completed s)"

definition stage_channels :: "'r system \<Rightarrow> bool" where
  "stage_channels s \<longleftrightarrow> (\<forall>i. length (ch_stage s i) \<le> 1 \<and> set (ch_stage s i) \<subseteq> {ConfigStageTelemetryCompleted}
     \<and> gh_stages_taken s i + length (ch_stage s i) = gh_stages_sent s i)"

definition inv_stage :: "'r system \<Rightarrow> bool" where
  "inv_stage s \<longleftrightarrow> (sy_panic s = None \<longrightarrow>
     stage_channels s \<and> (\<exists>j. stage_balance s j \<and> stages_pending (pc_telemetry s) j))"

lemma sy_panic_wg_done: "sy_panic (wg_done s) = None \<Longrightarrow> sy_panic s = None"
  by (auto simp: wg_done_def split: if_splits)

lemma map_upt_eq_Cons: "x # xs = map f [j ..< n] \<longleftrightarrow> j < n \<and> x = f j \<and> xs = map f [Suc j ..< n]"
  by (auto simp: upt_rec [of j])

lemma GoTelemetry_update_sends:
  assumes "GoTelemetry_step tenv n (TelemetryConfigUpdate c) st ms = Inr (ctl, st', ms', sends)"
  shows "sends = map (\<lambda>i. (i, ConfigStageTelemetryCompleted)) [0 ..< n]"
  using assms by (auto simp: go_bind_eq_Inr configureTelemetry_def Let_def split: option.splits)

lemma inv_stage_wired: "inv_stage (wired now)"
  by (simp add: inv_stage_def wired_def stage_balance_def stage_channels_def)

lemma balance_Suc:
  assumes "\<forall>i<n. f i + (if j \<le> i then 1 else 0) = (k::nat)" and "j < n"
  shows "\<forall>i<n. (f(j := Suc (f j))) i + (if Suc j \<le> i then 1 else 0) = k"
proof (intro allI impI)
  fix i assume "i < n"
  with assms(1) have "f i + (if j \<le> i then 1 else 0) = k" by blast
  then show "(f(j := Suc (f j))) i + (if Suc j \<le> i then 1 else 0) = k"
    by (cases "i = j") (auto split: if_splits)
qed

lemma stage_channels_take:
  assumes "stage_channels s" and "ch_stage s i = st # ch" and "ch_stage s' = (ch_stage s)(i := ch)"
    and "gh_stages_taken s' = (gh_stages_taken s)(i := Suc (gh_stages_taken s i))"
    and "gh_stages_sent s' = gh_stages_sent s"
  shows "stage_channels s'" and "st = ConfigStageTelemetryCompleted"
proof -
  from assms(1) have "length (ch_stage s i) \<le> 1" "set (ch_stage s i) \<subseteq> {ConfigStageTelemetryCompleted}"
      "gh_stages_taken s i + length (ch_stage s i) = gh_stages_sent s i"
    by (simp_all add: stage_channels_def)
  then have "ch = []" "st = ConfigStageTelemetryCompleted" "Suc (gh_stages_taken s i) = gh_stages_sent s i"
    using assms(2) by simp_all
  with assms show "stage_channels s'" "st = ConfigStageTelemetryCompleted"
    by (auto simp: stage_channels_def)
qed

lemma inv_stage_transition:
  assumes "transition env s s'" and "inv_stage s" and "inv_wg s" and "sy_panic s = None"
  shows "inv_stage s'"
  using assms(1)
proof (cases rule: transition.cases)
  case tr_main
  from main_step_starts [OF tr_main assms(3)]
  have "stages_pending (pc_telemetry s') = stages_pending (pc_telemetry s)"
    by (auto simp: main_starts_def fun_eq_iff)
  with main_step_frame [OF tr_main] assms(2) show ?thesis
    by (simp add: inv_stage_def main_frame_def stage_balance_def stage_channels_def)
next
  case (tr_egress_apply c stage ch now ctl st ms started)
  with assms(2,4) have "stage_channels s" by (simp add: inv_stage_def)
  from stage_channels_take(1) [OF this tr_egress_apply(3), of s'] tr_egress_apply have "stage_channels s'" by simp
  with tr_egress_apply assms(2,4) show ?thesis
    by (simp add: inv_stage_def stage_balance_def)
next
  case (tr_ingress_apply c stage ch st ms)
  with assms(2,4) have "stage_channels s" by (simp add: inv_stage_def)
  from stage_channels_take(1) [OF this tr_ingress_apply(3), of s'] tr_ingress_apply have "stage_channels s'" by simp
  with tr_ingress_apply assms(2,4) show ?thesis
    by (simp add: inv_stage_def stage_balance_def)
next
  case (tr_ingress_return c stage ch st ms)
  with assms(2,4) have "stage_channels s" by (simp add: inv_stage_def)
  from stage_channels_take(1) [OF this tr_ingress_return(3), of s'] tr_ingress_return have "stage_channels s'" by simp
  with tr_ingress_return assms(2,4) show ?thesis
    by (simp add: inv_stage_def stage_balance_def)
next
  case tr_crash
  then show ?thesis by (auto simp: inv_stage_def crashed_def)
next
  case tr_telemetry_sent
  with assms(2,4) have "stage_balance s configStageListeners" "stage_channels s"
    by (auto simp: inv_stage_def stage_balance_def)
  with tr_telemetry_sent show ?thesis by (simp add: inv_stage_def stage_balance_def stage_channels_def)
next
  case (tr_telemetry_take c ch tenv ctl st ms sends)
  with assms(2,4) have "stage_balance s configStageListeners" "stage_channels s"
    by (auto simp: inv_stage_def)
  then have "stage_balance s' 0" "stage_channels s'"
    using tr_telemetry_take by (simp_all add: stage_balance_def stage_channels_def)
  then show ?thesis
    using GoTelemetry_update_sends [OF tr_telemetry_take(4)] tr_telemetry_take
    by (auto simp: inv_stage_def)
next
  case (tr_telemetry_send i stage sends)
  from tr_telemetry_send(2) assms(2,4) obtain j where j: "stage_balance s j" "stage_channels s"
      "(i, stage) # sends = map (\<lambda>i. (i, ConfigStageTelemetryCompleted)) [j ..< configStageListeners]"
    by (auto simp: inv_stage_def)
  then have *: "i = j" "stage = ConfigStageTelemetryCompleted" "j < configStageListeners"
      "sends = map (\<lambda>i. (i, ConfigStageTelemetryCompleted)) [Suc j ..< configStageListeners]"
    by (auto simp: map_upt_eq_Cons)
  with j(1) tr_telemetry_send have "stage_balance s' (Suc j)"
    using balance_Suc [of configStageListeners "gh_stages_sent s" j "gh_completed s"]
    by (simp add: stage_balance_def)
  moreover from j(2) have "gh_stages_taken s j + length (ch_stage s j) = gh_stages_sent s j"
    by (simp add: stage_channels_def)
  with * j(2) tr_telemetry_send have "stage_channels s'"
    by (auto simp: stage_channels_def)
  ultimately show ?thesis using * tr_telemetry_send by (auto simp: inv_stage_def)
qed (use assms(2,4) in \<open>simp_all add: inv_stage_def stage_balance_def stage_channels_def crashed_def\<close>)

lemma inv_stage_reachable: "reachable env now s \<Longrightarrow> inv_stage s"
proof (induction rule: reachable.induct)
  case (reach_step s a s')
  with sys_transition [OF reach_step(2)] show ?case
    by (auto intro: inv_stage_transition reachable_inv_wg)
qed (rule inv_stage_wired)

section \<open>The signal\<close>

definition signal_pending :: "signals_pc \<Rightarrow> (nat \<Rightarrow> os_signal chan) \<Rightarrow> bool" where
  "signal_pending pc chs \<longleftrightarrow> (\<forall>sends. pc = SignalsSending sends \<longrightarrow>
     (\<exists>j sg. sends = map (\<lambda>i. (i, sg)) [j ..< 4] \<and> (\<forall>i\<ge>j. chs i = [])))"

definition inv_signal :: "'r system \<Rightarrow> bool" where
  "inv_signal s \<longleftrightarrow> gh_signals s = (if pc_signals s = SignalsNew \<or> pc_signals s = SignalsIdle then 0 else 1)
     \<and> (gh_signals s = 0 \<longrightarrow> pc_config s \<noteq> ConfigDone \<and> pc_egress s \<noteq> EgressDone \<and> pc_ingress s \<noteq> IngressDone
          \<and> pc_telemetry s \<noteq> TelemetryDone)
     \<and> (sy_panic s = None \<longrightarrow> osSignalListenerChannels (sy_signals s) = 4
          \<and> (gh_signals s = 0 \<longrightarrow> (\<forall>i. ch_signal s i = [])) \<and> signal_pending (pc_signals s) (ch_signal s))"

lemma signal_pendingD:
  "signal_pending (SignalsSending sends) chs \<Longrightarrow>
   \<exists>j sg. sends = map (\<lambda>i. (i, sg)) [j ..< 4] \<and> (\<forall>i\<ge>j. chs i = [])"
  by (simp add: signal_pending_def)

lemma signal_pending_simps [simp]:
  "signal_pending SignalsNew chs" "signal_pending SignalsIdle chs" "signal_pending SignalsDone chs"
  by (simp_all add: signal_pending_def)

lemma signal_pending_take:
  assumes "signal_pending pc chs" and "chs i = sg # ch"
  shows "signal_pending pc (chs(i := ch))"
  unfolding signal_pending_def
proof (intro allI impI)
  fix sends assume "pc = SignalsSending sends"
  with assms(1) have "signal_pending (SignalsSending sends) chs" by simp
  from signal_pendingD [OF this] obtain j sg' where j: "sends = map (\<lambda>i. (i, sg')) [j ..< 4]" "\<forall>i\<ge>j. chs i = []"
    by (elim exE conjE) (rule that)
  with assms(2) have "i < j" by (metis list.distinct(1) not_le)
  with j show "\<exists>j sg. sends = map (\<lambda>i. (i, sg)) [j ..< 4] \<and> (\<forall>k\<ge>j. (chs(i := ch)) k = [])"
    by (intro exI [of _ j] exI [of _ sg']) auto
qed

lemma inv_signal_wired: "inv_signal (wired now)"
  by (simp add: inv_signal_def wired_def signal_pending_def signals_AddChannelListener_def
    initial_signals_state_def numeral_eq_Suc)

lemma signals_updateConfig_listeners [simp]:
  "osSignalListenerChannels (signals_updateConfig re c st) = osSignalListenerChannels st"
  by (simp add: signals_updateConfig_def Let_def split: option.splits)

lemma GoSignals_signal:
  assumes "GoSignals_step re (SignalsSignal sg table) st = Some (ctl, st', sends)"
  shows "st' = st" and "sends = map (\<lambda>i. (i, sg)) [0 ..< osSignalListenerChannels st]"
  using assms by (auto split: option.splits)

lemma GoIngress_completed:
  "GoIngress_step api fr (IngressConfigUpdate c (Some ConfigStageTelemetryCompleted)) st ms \<noteq> Inr (Return, st', ms')"
  by (simp add: go_bind_eq_Inr)

lemma main_starts_Done:
  assumes "main_starts s s'"
  shows "pc_config s' = ConfigDone \<longleftrightarrow> pc_config s = ConfigDone" "pc_egress s' = EgressDone \<longleftrightarrow> pc_egress s = EgressDone"
    "pc_ingress s' = IngressDone \<longleftrightarrow> pc_ingress s = IngressDone"
    "pc_telemetry s' = TelemetryDone \<longleftrightarrow> pc_telemetry s = TelemetryDone"
    "(pc_signals s' = SignalsNew \<or> pc_signals s' = SignalsIdle) \<longleftrightarrow> (pc_signals s = SignalsNew \<or> pc_signals s = SignalsIdle)"
    "signal_pending (pc_signals s') chs \<longleftrightarrow> signal_pending (pc_signals s) chs"
    "pc_signals s' = SignalsDone \<longleftrightarrow> pc_signals s = SignalsDone"
proof -
  note * = assms [unfolded main_starts_def]
  show "pc_config s' = ConfigDone \<longleftrightarrow> pc_config s = ConfigDone" using conjunct1 [OF *] by auto
  note * = conjunct2 [OF *]
  show "pc_egress s' = EgressDone \<longleftrightarrow> pc_egress s = EgressDone" using conjunct1 [OF *] by auto
  note * = conjunct2 [OF *]
  show "pc_ingress s' = IngressDone \<longleftrightarrow> pc_ingress s = IngressDone" using conjunct1 [OF *] by auto
  note * = conjunct2 [OF *]
  show "pc_telemetry s' = TelemetryDone \<longleftrightarrow> pc_telemetry s = TelemetryDone" using conjunct1 [OF *] by auto
  note * = conjunct2 [OF *]
  show "(pc_signals s' = SignalsNew \<or> pc_signals s' = SignalsIdle) \<longleftrightarrow> (pc_signals s = SignalsNew \<or> pc_signals s = SignalsIdle)"
    "signal_pending (pc_signals s') chs \<longleftrightarrow> signal_pending (pc_signals s) chs"
    "pc_signals s' = SignalsDone \<longleftrightarrow> pc_signals s = SignalsDone"
    using * by (auto simp: signal_pending_def)
qed

lemma inv_signal_transition:
  assumes "transition env s s'" and "inv_signal s" and "inv_stage s" and "inv_wg s" and "sy_panic s = None"
  shows "inv_signal s'"
  using assms(1)
proof (cases rule: transition.cases)
  case tr_main
  note * = main_starts_Done [OF main_step_starts [OF tr_main assms(4)]]
  from main_step_frame [OF tr_main] assms(2) show ?thesis
    by (simp add: inv_signal_def main_frame_def *)
next
  case tr_crash
  with assms(2) show ?thesis by (auto simp: inv_signal_def crashed_def)
next
  case (tr_ingress_return c stage ch st ms)
  from assms(3,5) have "stage_channels s" by (simp add: inv_stage_def)
  from stage_channels_take(2) [OF this tr_ingress_return(3), of s'] tr_ingress_return
  have "stage = ConfigStageTelemetryCompleted" by simp
  with tr_ingress_return(4) GoIngress_completed show ?thesis by blast
next
  case (tr_signals_receive sg ch table ctl st sends)
  with GoSignals_signal [OF tr_signals_receive(4)] assms(2,5) show ?thesis
    by (auto simp: inv_signal_def signal_pending_def)
next
  case (tr_signals_send i sg sends)
  with assms(2,5) have "signal_pending (SignalsSending ((i, sg) # sends)) (ch_signal s)"
    by (simp add: inv_signal_def)
  from signal_pendingD [OF this] obtain j sg' where "(i, sg) # sends = map (\<lambda>i. (i, sg')) [j ..< 4]" "\<forall>i\<ge>j. ch_signal s i = []"
    by (elim exE conjE) (rule that)
  then have "signal_pending (SignalsSending sends) ((ch_signal s)(i := [sg]))"
    by (auto simp: map_upt_eq_Cons signal_pending_def intro!: exI [of _ "Suc j"])
  with tr_signals_send assms(2,5) show ?thesis
    by (simp add: inv_signal_def)
qed (use assms(2,5) in \<open>auto simp: inv_signal_def signal_pending_take dest!: sy_panic_wg_done\<close>)

lemma inv_signal_reachable: "reachable env now s \<Longrightarrow> inv_signal s"
proof (induction rule: reachable.induct)
  case (reach_step s a s')
  with sys_transition [OF reach_step(2)] show ?case
    by (auto intro: inv_signal_transition inv_stage_reachable reachable_inv_wg)
qed (rule inv_signal_wired)

text \<open>A package that the signal was sent to and that has not ended has it in its channel.\<close>

definition package_done :: "nat \<Rightarrow> 'r system \<Rightarrow> bool" where
  "package_done i s \<longleftrightarrow> (if i = 0 then pc_config s = ConfigDone else if i = 1 then pc_egress s = EgressDone
     else if i = 2 then pc_ingress s = IngressDone else pc_telemetry s = TelemetryDone)"

definition signal_sent :: "signals_pc \<Rightarrow> nat \<Rightarrow> bool" where
  "signal_sent pc i \<longleftrightarrow> (case pc of SignalsDone \<Rightarrow> True | SignalsSending sends \<Rightarrow> i \<notin> fst ` set sends | _ \<Rightarrow> False)"

lemma signal_sent_simps [simp]:
  "\<not> signal_sent SignalsNew i" "\<not> signal_sent SignalsIdle i" "signal_sent SignalsDone i"
  "signal_sent (SignalsSending sends) i \<longleftrightarrow> i \<notin> fst ` set sends"
  by (simp_all add: signal_sent_def)

definition inv_delivery :: "'r system \<Rightarrow> bool" where
  "inv_delivery s \<longleftrightarrow> (sy_panic s = None \<longrightarrow>
     (\<forall>i<4. signal_sent (pc_signals s) i \<and> \<not> package_done i s \<longrightarrow> ch_signal s i \<noteq> []))"

lemma inv_delivery_transition:
  assumes "transition env s s'" and "inv_delivery s" and "inv_signal s" and "inv_wg s" and "sy_panic s = None"
  shows "inv_delivery s'"
  using assms(1)
proof (cases rule: transition.cases)
  case tr_main
  note starts = main_step_starts [OF tr_main assms(4)]
  have "package_done i s' = package_done i s" for i
    by (simp add: package_done_def main_starts_Done [OF starts])
  moreover from starts have "signal_sent (pc_signals s') = signal_sent (pc_signals s)"
    unfolding main_starts_def fun_eq_iff by (metis signal_sent_simps(1,2))
  ultimately show ?thesis
    using main_step_frame [OF tr_main] assms(2) by (simp add: inv_delivery_def main_frame_def)
next
  case (tr_signals_receive sg ch table ctl st sends)
  with GoSignals_signal [OF tr_signals_receive(4)] assms(3,5) show ?thesis
    by (auto simp: inv_delivery_def inv_signal_def image_image)
qed (use assms(2,5) in \<open>auto simp: inv_delivery_def package_done_def crashed_def dest!: sy_panic_wg_done\<close>)

lemma inv_delivery_reachable: "reachable env now s \<Longrightarrow> inv_delivery s"
proof (induction rule: reachable.induct)
  case (reach_step s a s')
  with sys_transition [OF reach_step(2)] show ?case
    by (auto intro: inv_delivery_transition inv_signal_reachable reachable_inv_wg)
qed (simp add: inv_delivery_def wired_def)

section \<open>The registry\<close>

text \<open>Once there is a registry, applying a configuration in egress or ingress keeps one.\<close>

definition has_registry :: "'r metrics_state \<Rightarrow> bool" where
  "has_registry ms \<longleftrightarrow> PromRegistry ms \<noteq> None"

lemma has_registry_callbacks [simp]: "has_registry (ms\<lparr>ms_callbacks := x\<rparr>) = has_registry ms"
  by (simp add: has_registry_def)

lemma reregister_registry: "reregister api d ms = Inr ms' \<Longrightarrow> has_registry ms'"
  by (auto simp: has_registry_def reregister_def go_bind_def split: sum.split_asm)

lemma NewCounterMetric_registry:
  "NewCounterMetric api c meter ms = Inr (m, ms') \<Longrightarrow> has_registry ms \<Longrightarrow> has_registry ms'"
  by (auto simp: NewCounterMetric_def Let_def go_bind_eq_Inr dest!: reregister_registry split: if_splits option.splits)

lemma NewResponseTimeMetric_registry:
  "NewResponseTimeMetric api c meter ms = Inr (m, ms') \<Longrightarrow> has_registry ms \<Longrightarrow> has_registry ms'"
  by (auto simp: NewResponseTimeMetric_def Let_def go_bind_eq_Inr dest!: reregister_registry split: if_splits option.splits)

lemma three_metrics_registry:
  assumes "NewCounterMetric api c1 meter ms = Inr (a, ms1)" and "NewResponseTimeMetric api c2 meter ms1 = Inr (t, ms2)"
    and "NewCounterMetric api c3 meter ms2 = Inr (b, ms3)" and "has_registry ms"
  shows "has_registry ms3"
  using NewCounterMetric_registry [OF assms(3)] NewResponseTimeMetric_registry [OF assms(2)]
    NewCounterMetric_registry [OF assms(1)] assms(4) by blast

lemma newProbe_registry:
  assumes "newProbe api re meter cfg timeout ms = Inr (p, ms')" and "has_registry ms"
  shows "has_registry ms'"
  using assms by (auto simp: newProbe_def Let_def go_bind_eq_Inr split: option.splits dest: three_metrics_registry)

lemma newHealthEndpoint_registry:
  assumes "newHealthEndpoint api fr meter hc ms = Inr (r, ms')" and "has_registry ms"
  shows "has_registry ms'"
  using assms by (auto simp: newHealthEndpoint_def go_bind_eq_Inr split: if_splits dest: three_metrics_registry)

lemma add_probes_registry:
  assumes "go_for (add_probe api re meter timeout) cfgs acc = Inr acc'" and "has_registry (snd acc)"
  shows "has_registry (snd acc')"
  using assms
proof (rule go_for_invariant [where P = "\<lambda>acc. has_registry (snd acc)"])
  fix cfg acc acc'
  assume "add_probe api re meter timeout cfg acc = Inr acc'" and "has_registry (snd acc)"
  then show "has_registry (snd acc')"
    by (cases acc) (auto simp: add_probe_def go_bind_eq_Inr dest: newProbe_registry)
qed

lemma add_endpoints_registry:
  assumes "go_for (add_endpoint api fr meter) hcs acc = Inr acc'" and "has_registry (snd acc)"
  shows "has_registry (snd acc')"
  using assms
proof (rule go_for_invariant [where P = "\<lambda>acc. has_registry (snd acc)"])
  fix hc acc acc'
  assume "add_endpoint api fr meter hc acc = Inr acc'" and "has_registry (snd acc)"
  then show "has_registry (snd acc')"
    by (cases acc) (auto simp: add_endpoint_def go_bind_eq_Inr dest: newHealthEndpoint_registry)
qed

lemma GoEgress_step_registry:
  assumes "GoEgress_step api re (EgressConfigUpdate c stage now) st ms = Inr (ctl, st', ms', started)"
    and "has_registry ms"
  shows "has_registry ms'"
  using assms by (auto simp: egress_updateConfig_def Let_def go_bind_eq_Inr split: option.splits if_splits
    dest!: add_probes_registry)

lemma GoIngress_step_registry:
  assumes "GoIngress_step api fr (IngressConfigUpdate c stage) st ms = Inr (ctl, st', ms')"
    and "has_registry ms"
  shows "has_registry ms'"
  using assms by (auto simp: Let_def go_bind_eq_Inr split: option.splits if_splits dest!: add_endpoints_registry)

text \<open>What a package that was told to go on relies on.\<close>

definition telemetry_ready :: "telemetry_state \<Rightarrow> 'r metrics_state \<Rightarrow> bool" where
  "telemetry_ready st ms \<longleftrightarrow> has_registry ms \<and> promQueryEngine st \<noteq> None
     \<and> meterProvider (ts_providers st) \<noteq> None \<and> traceProvider (ts_providers st) \<noteq> None"

lemma GoTelemetry_update_ready:
  assumes "GoTelemetry_step tenv n (TelemetryConfigUpdate c) st ms = Inr (ctl, st', ms', sends)"
  shows "telemetry_ready st' ms'"
proof -
  from GoTelemetry_updateD [OF assms] have "meterProvider (ts_providers st') \<noteq> None" "traceProvider (ts_providers st') \<noteq> None"
    by auto
  moreover from assms have "has_registry ms'" "promQueryEngine st' \<noteq> None"
    by (auto simp: has_registry_def go_bind_eq_Inr configureTelemetry_def Let_def split: option.splits)
  ultimately show ?thesis by (simp add: telemetry_ready_def)
qed

lemma GoTelemetry_signal_ready:
  assumes "GoTelemetry_step tenv n TelemetrySignal st ms = Inr (ctl, st', ms', sends)" and "telemetry_ready st ms"
  shows "telemetry_ready st' ms'"
  using assms by (auto simp: go_bind_eq_Inr shutdown_provider_def telemetry_ready_def)

definition inv_ready :: "'r system \<Rightarrow> bool" where
  "inv_ready s \<longleftrightarrow> (sy_panic s = None \<and> 0 < gh_completed s \<longrightarrow> telemetry_ready (sy_telemetry s) (sy_metrics s))"

lemma inv_ready_transition:
  assumes "transition env s s'" and "inv_ready s" and "sy_panic s = None"
  shows "inv_ready s'"
  using assms(1)
proof (cases rule: transition.cases)
  case tr_main
  from main_step_frame [OF tr_main] assms(2) show ?thesis by (simp add: inv_ready_def main_frame_def)
next
  case (tr_egress_apply c stage ch now ctl st ms started)
  with assms(2,3) GoEgress_step_registry [OF tr_egress_apply(4)] show ?thesis
    by (auto simp: inv_ready_def telemetry_ready_def simp del: GoEgress_step.simps)
next
  case (tr_ingress_apply c stage ch st ms)
  with assms(2,3) GoIngress_step_registry [OF tr_ingress_apply(4)] show ?thesis
    by (auto simp: inv_ready_def telemetry_ready_def simp del: GoIngress_step.simps)
next
  case (tr_ingress_return c stage ch st ms)
  with assms(2,3) GoIngress_step_registry [OF tr_ingress_return(4)] show ?thesis
    by (auto simp: inv_ready_def telemetry_ready_def simp del: GoIngress_step.simps)
next
  case (tr_telemetry_take c ch tenv ctl st ms sends)
  with GoTelemetry_update_ready [OF tr_telemetry_take(4)] show ?thesis
    by (simp add: inv_ready_def del: GoTelemetry_step.simps)
next
  case (tr_telemetry_stop sg ch tenv ctl st ms sends)
  with assms(2,3) GoTelemetry_signal_ready [OF tr_telemetry_stop(4)] show ?thesis
    by (auto simp: inv_ready_def simp del: GoTelemetry_step.simps)
qed (use assms(2,3) in \<open>auto simp: inv_ready_def crashed_def\<close>)

lemma inv_ready_reachable: "reachable env now s \<Longrightarrow> inv_ready s"
proof (induction rule: reachable.induct)
  case (reach_step s a s')
  with sys_transition [OF reach_step(2)] show ?case by (auto intro: inv_ready_transition)
qed (simp add: inv_ready_def wired_def)

section \<open>Configurations\<close>

text \<open>The channels that have still to get the configuration \<open>c\<close> are those from \<open>j\<close> on.\<close>

definition configs_pending :: "config_pc \<Rightarrow> BunnyConfig \<Rightarrow> nat \<Rightarrow> bool" where
  "configs_pending pc c j \<longleftrightarrow> j \<le> 4
     \<and> (case pc of ConfigSending sends \<Rightarrow> sends = map (\<lambda>i. (i, c)) [j ..< 4] | _ \<Rightarrow> j = 4)"

lemma configs_pending_simps [simp]:
  "configs_pending ConfigNew c j \<longleftrightarrow> j = 4" "configs_pending ConfigStarting c j \<longleftrightarrow> j = 4"
  "configs_pending ConfigWatcher c j \<longleftrightarrow> j = 4"
  "configs_pending ConfigLoop c j \<longleftrightarrow> j = 4" "configs_pending ConfigDone c j \<longleftrightarrow> j = 4"
  "configs_pending (ConfigSending sends) c j \<longleftrightarrow> j \<le> 4 \<and> sends = map (\<lambda>i. (i, c)) [j ..< 4]"
  by (auto simp: configs_pending_def)

text \<open>The configurations that were read are \<open>cs\<close>: those a channel was sent, and for the channels from
  \<open>j\<close> on the one that is being sent.\<close>

definition config_history :: "'r system \<Rightarrow> BunnyConfig list \<Rightarrow> BunnyConfig \<Rightarrow> nat \<Rightarrow> bool" where
  "config_history s cs c j \<longleftrightarrow> (\<forall>i<4. gh_sent s i @ (if j \<le> i then [c] else []) = cs)"

definition config_channels :: "'r system \<Rightarrow> bool" where
  "config_channels s \<longleftrightarrow> configUpdateChannels (sy_config s) = 4
     \<and> (\<forall>i. length (ch_config s i) \<le> 1 \<and> gh_sent s i = gh_taken s i @ ch_config s i)"

definition inv_config :: "'r system \<Rightarrow> bool" where
  "inv_config s \<longleftrightarrow> (sy_panic s = None \<longrightarrow> config_channels s
     \<and> (\<exists>cs c j. configs_pending (pc_config s) c j \<and> config_history s cs c j))"

lemma inv_configI:
  "config_channels s \<Longrightarrow> configs_pending (pc_config s) c j \<Longrightarrow> config_history s cs c j \<Longrightarrow> inv_config s"
  by (auto simp: inv_config_def)

lemma inv_configE:
  assumes "inv_config s" and "sy_panic s = None"
  obtains cs c j where "config_channels s" "configs_pending (pc_config s) c j" "config_history s cs c j"
  using assms unfolding inv_config_def by blast

lemma inv_config_wired: "inv_config (wired now)"
proof (rule inv_configI)
  show "config_channels (wired now)"
    by (simp add: config_channels_def wired_def config_AddChannelListener_def initial_config_state_def numeral_eq_Suc)
  show "configs_pending (pc_config (wired now)) c 4" "config_history (wired now) [] c 4" for c
    by (simp_all add: wired_def config_history_def)
qed

text \<open>What \<open>GoConfig\<close> sends is one configuration to every channel, or nothing.\<close>

lemma notify_channels_Inr:
  assumes "notify_channels st = Inr sends" and "0 < configUpdateChannels st"
  shows "\<exists>c. sends = map (\<lambda>i. (i, c)) [0 ..< configUpdateChannels st]"
  using assms by (cases "bunnyConfig st") (auto simp: notify_channels_None)

lemma GoConfig_start_sends:
  assumes "GoConfig_start unmarshal envVar content st = Inr (st', sends)" and "0 < configUpdateChannels st"
  shows "configUpdateChannels st' = configUpdateChannels st
    \<and> (\<exists>c. sends = map (\<lambda>i. (i, c)) [0 ..< configUpdateChannels st])"
  using assms by (auto simp: GoConfig_start_def Let_def go_bind_eq_Inr dest!: notify_channels_Inr split: if_splits)

lemma GoConfig_step_sends:
  assumes "GoConfig_step sha unmarshal e st = Inr (ctl, st', sends)" and "0 < configUpdateChannels st"
  shows "configUpdateChannels st' = configUpdateChannels st
    \<and> (sends = [] \<or> (\<exists>c. sends = map (\<lambda>i. (i, c)) [0 ..< configUpdateChannels st]))"
  using assms by (cases e) (auto simp: Let_def go_bind_eq_Inr dest!: notify_channels_Inr split: if_splits)

lemma config_history_next:
  assumes "config_history s cs c 4" and "gh_sent s' = gh_sent s"
  shows "config_history s' (cs @ [c']) c' 0"
  using assms by (simp add: config_history_def)

lemma config_history_frame:
  "gh_sent s' = gh_sent s \<Longrightarrow> config_history s' = config_history s"
  by (simp add: config_history_def fun_eq_iff)

lemma config_history_send:
  assumes "config_history s cs c j" and "j < 4" and "gh_sent s' = (gh_sent s)(j := gh_sent s j @ [c])"
  shows "config_history s' cs c (Suc j)"
  unfolding config_history_def
proof (intro allI impI)
  fix i :: nat assume "i < 4"
  with assms(1) have "gh_sent s i @ (if j \<le> i then [c] else []) = cs" by (simp add: config_history_def)
  then show "gh_sent s' i @ (if Suc j \<le> i then [c] else []) = cs"
    using assms(3) by (cases "i = j") (auto split: if_splits)
qed

lemma config_channels_take:
  assumes "config_channels s" and "ch_config s i = c # ch" and "ch_config s' = (ch_config s)(i := ch)"
    and "gh_taken s' = (gh_taken s)(i := gh_taken s i @ [c])" and "gh_sent s' = gh_sent s" and "sy_config s' = sy_config s"
  shows "config_channels s'"
proof -
  from assms(1) have "length (ch_config s i) \<le> 1" "gh_sent s i = gh_taken s i @ ch_config s i"
    by (simp_all add: config_channels_def)
  with assms show ?thesis by (simp add: config_channels_def)
qed

lemma inv_config_take:
  assumes "inv_config s" and "sy_panic s = None" and "ch_config s i = c # ch" and "ch_config s' = (ch_config s)(i := ch)"
    and "gh_taken s' = (gh_taken s)(i := gh_taken s i @ [c])" and "gh_sent s' = gh_sent s" and "sy_config s' = sy_config s"
    and "pc_config s' = pc_config s"
  shows "inv_config s'"
proof -
  from assms(1,2) obtain cs c0 j where *: "config_channels s" "configs_pending (pc_config s) c0 j" "config_history s cs c0 j"
    by (rule inv_configE)
  show ?thesis
  proof (rule inv_configI)
    show "config_channels s'" using *(1) assms(3-7) by (rule config_channels_take)
    show "configs_pending (pc_config s') c0 j" "config_history s' cs c0 j"
      using * assms(6,8) by (simp_all add: config_history_frame [of s' s])
  qed
qed

lemma inv_config_begin:
  assumes "config_channels s" and "config_history s cs c 4" and "configUpdateChannels st = 4"
    and "sends = [] \<or> (\<exists>c. sends = map (\<lambda>i. (i, c)) [0 ..< 4])"
  shows "inv_config (s\<lparr>sy_config := st, pc_config := ConfigSending sends\<rparr>)" (is "inv_config ?s")
  using assms(4)
proof
  assume "sends = []"
  with assms show ?thesis
    by (intro inv_configI [of _ c 4 cs]) (simp_all add: config_channels_def config_history_def)
next
  assume "\<exists>c. sends = map (\<lambda>i. (i, c)) [0 ..< 4]"
  then obtain c' where "sends = map (\<lambda>i. (i, c')) [0 ..< 4]" by (elim exE)
  with assms config_history_next [of s cs c ?s c'] show ?thesis
    by (intro inv_configI [of _ c' 0 "cs @ [c']"]) (simp_all add: config_channels_def)
qed

lemma inv_config_send:
  assumes "config_channels s" and "configs_pending (pc_config s) c j" and "config_history s cs c j"
    and "pc_config s = ConfigSending ((i, c') # sends)" and "ch_config s i = []"
  shows "inv_config (s\<lparr>ch_config := (ch_config s)(i := [c']), gh_sent := (gh_sent s)(i := gh_sent s i @ [c']),
      pc_config := ConfigSending sends\<rparr>)" (is "inv_config ?s")
proof (rule inv_configI)
  from assms(2,4) have i: "i = j" "c' = c" "j < 4" "sends = map (\<lambda>i. (i, c)) [Suc j ..< 4]"
    by (auto simp: map_upt_eq_Cons)
  then show "configs_pending (pc_config ?s) c (Suc j)" by simp
  from assms(1,5) i show "config_channels ?s" by (auto simp: config_channels_def)
  from assms(3) i show "config_history ?s cs c (Suc j)" by (intro config_history_send [of s]) simp_all
qed

lemma inv_config_transition:
  assumes "transition env s s'" and "inv_config s" and "inv_wg s" and "sy_panic s = None"
  shows "inv_config s'"
proof -
  from assms(2,4) obtain cs c j where *: "config_channels s" "configs_pending (pc_config s) c j" "config_history s cs c j"
    by (rule inv_configE)
  from assms(1) show ?thesis
  proof (cases rule: transition.cases)
    case tr_main
    note f = main_step_frame [OF tr_main, unfolded main_frame_def]
    from main_step_starts [OF tr_main assms(3), unfolded main_starts_def, THEN conjunct1]
    have "configs_pending (pc_config s') c j" using *(2) by auto
    then show ?thesis using * f
      by (intro inv_configI [of _ c j cs]) (simp_all add: config_channels_def config_history_def)
  next
    case tr_crash
    then show ?thesis by (auto simp: inv_config_def crashed_def)
  next
    case (tr_config_start envVar content st sends)
    with * show ?thesis using GoConfig_start_sends [OF tr_config_start(3)] inv_config_begin [of s cs c st sends]
      by (simp add: config_channels_def)
  next
    case (tr_config_watch e ctl st sends)
    with * show ?thesis using GoConfig_step_sends [OF tr_config_watch(4)] inv_config_begin [of s cs c st sends]
      by (simp add: config_channels_def)
  next
    case (tr_config_sent pc)
    with * show ?thesis
      by (intro inv_configI [of _ c 4 cs]) (auto simp: config_channels_def config_history_def)
  next
    case (tr_config_watcher err st)
    with * GoConfig_watcher_hash [OF tr_config_watcher(3)] show ?thesis
      by (intro inv_configI [of _ c 4 cs]) (auto simp: config_channels_def config_history_def)
  next
    case (tr_config_send i c' sends)
    from inv_config_send [OF * tr_config_send(2,3)] show ?thesis unfolding tr_config_send(1) .
  next
    case (tr_egress_take c ch)
    then show ?thesis by (intro inv_config_take [OF assms(2,4)]) simp_all
  next
    case (tr_ingress_take c ch)
    then show ?thesis by (intro inv_config_take [OF assms(2,4)]) simp_all
  next
    case (tr_telemetry_take c ch tenv ctl st ms sends)
    then show ?thesis by (intro inv_config_take [OF assms(2,4)]) simp_all
  next
    case (tr_signals_take c ch)
    then show ?thesis by (intro inv_config_take [OF assms(2,4)]) simp_all
  next
    case (tr_config_stop sg ch)
    with * show ?thesis
      by (intro inv_configI [of _ c 4 cs]) (simp_all add: config_channels_def config_history_def)
  qed (use * in \<open>intro inv_configI [of _ c j cs]; simp add: config_channels_def config_history_def\<close>)+
qed

lemma inv_config_reachable: "reachable env now s \<Longrightarrow> inv_config s"
proof (induction rule: reachable.induct)
  case (reach_step s a s')
  with sys_transition [OF reach_step(2)] show ?case by (auto intro: inv_config_transition reachable_inv_wg)
qed (rule inv_config_wired)

section \<open>Applied configurations\<close>

text \<open>Egress and ingress take one stage message for every configuration, after it.\<close>

definition waiting :: "nat \<Rightarrow> 'r system \<Rightarrow> nat" where
  "waiting i s = (if i = 0 then (case pc_egress s of EgressStage c \<Rightarrow> 1 | _ \<Rightarrow> 0)
     else (case pc_ingress s of IngressStage c \<Rightarrow> 1 | _ \<Rightarrow> 0))"

definition inv_applied :: "'r system \<Rightarrow> bool" where
  "inv_applied s \<longleftrightarrow> (sy_panic s = None \<longrightarrow> length (gh_taken s 0) = gh_stages_taken s 0 + waiting 0 s
     \<and> length (gh_taken s 1) = gh_stages_taken s 1 + waiting 1 s \<and> length (gh_taken s 3) = gh_completed s)"

lemma inv_applied_transition:
  assumes "transition env s s'" and "inv_applied s" and "inv_wg s" and "sy_panic s = None"
  shows "inv_applied s'"
  using assms(1)
proof (cases rule: transition.cases)
  case tr_main
  note starts = main_step_starts [OF tr_main assms(3), unfolded main_starts_def]
  from starts [THEN conjunct2, THEN conjunct1] have "waiting 0 s' = waiting 0 s"
    by (auto simp: waiting_def)
  moreover from starts [THEN conjunct2, THEN conjunct2, THEN conjunct1] have "waiting 1 s' = waiting 1 s"
    by (auto simp: waiting_def)
  ultimately show ?thesis
    using main_step_frame [OF tr_main] assms(2) by (simp add: inv_applied_def main_frame_def)
qed (use assms(2,4) in \<open>auto simp: inv_applied_def waiting_def crashed_def dest!: sy_panic_wg_done\<close>)

lemma inv_applied_reachable: "reachable env now s \<Longrightarrow> inv_applied s"
proof (induction rule: reachable.induct)
  case (reach_step s a s')
  with sys_transition [OF reach_step(2)] show ?case by (auto intro: inv_applied_transition reachable_inv_wg)
qed (simp add: inv_applied_def wired_def waiting_def)

text \<open>What egress and ingress run once they have applied a configuration.\<close>

definition egress_runs :: "'r sys_env \<Rightarrow> BunnyConfig \<Rightarrow> egress_state \<Rightarrow> bool" where
  "egress_runs env c st \<longleftrightarrow> map Some (probes st) = configured_probes (se_metrics env) (se_regexp env) (Egress c)
     \<and> performProbes st = probes st"

definition ingress_runs :: "'r sys_env \<Rightarrow> BunnyConfig \<Rightarrow> ingress_state \<Rightarrow> bool" where
  "ingress_runs env c st \<longleftrightarrow> (let cfg = in_HTTPServerConfig (Ingress c) in
     healthEndpoints st = configured_endpoints (se_metrics env) (se_fraction env) cfg
     \<and> (\<exists>i. httpServer st = Some (i, server_of cfg)))"

lemma ingress_runs_specs: "ingress_runs env c st \<Longrightarrow>
    map endpoint_spec (healthEndpoints st) = endpoint_specs (se_fraction env) (hs_Health (in_HTTPServerConfig (Ingress c)))"
  by (simp add: ingress_runs_def Let_def configured_endpoint_specs)

lemma ingress_runs_shutdown [simp]: "ingress_runs env c (shutdownHTTPServer st) = ingress_runs env c st"
  by (auto simp: ingress_runs_def shutdownHTTPServer_def Let_def split: option.splits)

lemma GoEgress_update_runs:
  assumes "GoEgress_step (se_metrics env) (se_regexp env) (EgressConfigUpdate c (Some ConfigStageTelemetryCompleted) now) st ms
      = Inr (ctl, st', ms', started)"
  shows "egress_runs env c st'"
  using assms egress_updateConfig_InrD by (fastforce simp: egress_runs_def go_bind_eq_Inr)

lemma GoIngress_update_runs:
  assumes "GoIngress_step (se_metrics env) (se_fraction env) (IngressConfigUpdate c (Some ConfigStageTelemetryCompleted)) st ms
      = Inr (ctl, st', ms')"
  shows "ingress_runs env c st'"
  using GoIngress_update_InrD [OF assms] by (simp add: ingress_runs_def Let_def)

definition inv_current :: "'r sys_env \<Rightarrow> 'r system \<Rightarrow> bool" where
  "inv_current env s \<longleftrightarrow> (sy_panic s = None \<longrightarrow>
     (\<forall>c. pc_egress s = EgressStage c \<longrightarrow> gh_taken s 0 ! gh_stages_taken s 0 = c)
     \<and> (\<forall>c. pc_ingress s = IngressStage c \<longrightarrow> gh_taken s 1 ! gh_stages_taken s 1 = c)
     \<and> (\<forall>k. gh_stages_taken s 0 = Suc k \<longrightarrow> egress_runs env (gh_taken s 0 ! k) (sy_egress s))
     \<and> (\<forall>k. gh_stages_taken s 1 = Suc k \<longrightarrow> ingress_runs env (gh_taken s 1 ! k) (sy_ingress s)))"

lemma inv_current_transition:
  assumes "transition env s s'" and "inv_current env s" and "inv_applied s" and "inv_stage s" and "inv_wg s"
    and "sy_panic s = None"
  shows "inv_current env s'"
proof -
  from assms(4,6) have channels: "stage_channels s" by (simp add: inv_stage_def)
  from assms(3,6) have len: "length (gh_taken s 0) = gh_stages_taken s 0 + waiting 0 s"
    "length (gh_taken s 1) = gh_stages_taken s 1 + waiting 1 s" by (simp_all add: inv_applied_def)
  from assms(1) show ?thesis
  proof (cases rule: transition.cases)
    case tr_main
    note starts = main_step_starts [OF tr_main assms(5), unfolded main_starts_def]
    from starts [THEN conjunct2, THEN conjunct1] have "\<forall>c. pc_egress s' = EgressStage c \<longleftrightarrow> pc_egress s = EgressStage c" by auto
    moreover from starts [THEN conjunct2, THEN conjunct2, THEN conjunct1]
    have "\<forall>c. pc_ingress s' = IngressStage c \<longleftrightarrow> pc_ingress s = IngressStage c" by auto
    ultimately show ?thesis
      using main_step_frame [OF tr_main] assms(2) by (simp add: inv_current_def main_frame_def)
  next
    case (tr_egress_take c ch)
    with assms(2,6) len show ?thesis by (auto simp: inv_current_def waiting_def nth_append)
  next
    case (tr_ingress_take c ch)
    with assms(2,6) len show ?thesis by (auto simp: inv_current_def waiting_def nth_append)
  next
    case (tr_egress_apply c stage ch now ctl st ms started)
    from stage_channels_take(2) [OF channels tr_egress_apply(3), of s'] tr_egress_apply
    have "stage = ConfigStageTelemetryCompleted" by simp
    with tr_egress_apply GoEgress_update_runs have "egress_runs env c st" by blast
    with tr_egress_apply assms(2,6) show ?thesis by (simp add: inv_current_def)
  next
    case (tr_ingress_apply c stage ch st ms)
    from stage_channels_take(2) [OF channels tr_ingress_apply(3), of s'] tr_ingress_apply
    have "stage = ConfigStageTelemetryCompleted" by simp
    with tr_ingress_apply GoIngress_update_runs have "ingress_runs env c st" by blast
    with tr_ingress_apply assms(2,6) show ?thesis by (simp add: inv_current_def)
  next
    case (tr_ingress_return c stage ch st ms)
    from stage_channels_take(2) [OF channels tr_ingress_return(3), of s'] tr_ingress_return
    have "stage = ConfigStageTelemetryCompleted" by simp
    with tr_ingress_return(4) GoIngress_completed show ?thesis by blast
  qed (use assms(2,6) in \<open>auto simp: inv_current_def crashed_def\<close>)
qed

lemma inv_current_reachable: "reachable env now s \<Longrightarrow> inv_current env s"
proof (induction rule: reachable.induct)
  case (reach_step s a s')
  with sys_transition [OF reach_step(2)] show ?case
    by (auto intro: inv_current_transition inv_applied_reachable inv_stage_reachable reachable_inv_wg)
qed (simp add: inv_current_def wired_def)

text \<open>What is in force is the last configuration that was applied, or nothing; and those that were applied are
  the first of those that were taken.\<close>

definition egress_in_force :: "'r sys_env \<Rightarrow> BunnyConfig list \<Rightarrow> egress_state \<Rightarrow> bool" where
  "egress_in_force env cs st \<longleftrightarrow> (if cs = [] then probes st = [] else egress_runs env (last cs) st)"

definition ingress_in_force :: "'r sys_env \<Rightarrow> BunnyConfig list \<Rightarrow> ingress_state \<Rightarrow> bool" where
  "ingress_in_force env cs st \<longleftrightarrow>
     (if cs = [] then healthEndpoints st = [] \<and> httpServer st = None else ingress_runs env (last cs) st)"

lemma in_force_snoc [simp]:
  "egress_in_force env (cs @ [c]) st \<longleftrightarrow> egress_runs env c st"
  "ingress_in_force env (cs @ [c]) st' \<longleftrightarrow> ingress_runs env c st'"
  by (simp_all add: egress_in_force_def ingress_in_force_def)

lemma ingress_in_force_shutdown [simp]: "ingress_in_force env cs (shutdownHTTPServer st) \<longleftrightarrow> ingress_in_force env cs st"
  by (simp add: ingress_in_force_def ingress_runs_def)

definition inv_in_force :: "'r sys_env \<Rightarrow> 'r system \<Rightarrow> bool" where
  "inv_in_force env s \<longleftrightarrow> (sy_panic s = None \<longrightarrow> egress_in_force env (gh_applied s 0) (sy_egress s)
     \<and> ingress_in_force env (gh_applied s 1) (sy_ingress s)
     \<and> gh_applied s 0 = take (gh_stages_taken s 0) (gh_taken s 0)
     \<and> gh_applied s 1 = take (gh_stages_taken s 1) (gh_taken s 1))"

lemma take_snoc_nth: "length xs = Suc n \<Longrightarrow> xs ! n = x \<Longrightarrow> take (Suc n) xs = take n xs @ [x]"
  by (metis lessI take_Suc_conv_app_nth)

lemma inv_in_force_transition:
  assumes "transition env s s'" and "inv_in_force env s" and "inv_current env s" and "inv_applied s" and "inv_stage s"
    and "sy_panic s = None"
  shows "inv_in_force env s'"
proof -
  from assms(5,6) have channels: "stage_channels s" by (simp add: inv_stage_def)
  from assms(4,6) have len: "length (gh_taken s 0) = gh_stages_taken s 0 + waiting 0 s"
    "length (gh_taken s 1) = gh_stages_taken s 1 + waiting 1 s" by (simp_all add: inv_applied_def)
  from assms(1) show ?thesis
  proof (cases rule: transition.cases)
    case tr_main
    with main_step_frame [OF tr_main] assms(2,6) show ?thesis by (auto simp: inv_in_force_def main_frame_def)
  next
    case (tr_egress_take c ch)
    with assms(2,6) len show ?thesis by (auto simp: inv_in_force_def waiting_def)
  next
    case (tr_ingress_take c ch)
    with assms(2,6) len show ?thesis by (auto simp: inv_in_force_def waiting_def)
  next
    case (tr_egress_apply c stage ch now ctl st ms started)
    from stage_channels_take(2) [OF channels tr_egress_apply(3), of s'] tr_egress_apply
    have "stage = ConfigStageTelemetryCompleted" by simp
    with tr_egress_apply GoEgress_update_runs have "egress_runs env c st" by blast
    moreover from assms(3,6) tr_egress_apply(2) len(1) have "take (Suc (gh_stages_taken s 0)) (gh_taken s 0) =
        take (gh_stages_taken s 0) (gh_taken s 0) @ [c]"
      by (intro take_snoc_nth) (simp_all add: inv_current_def waiting_def)
    ultimately show ?thesis using tr_egress_apply assms(2,6) by (auto simp: inv_in_force_def)
  next
    case (tr_ingress_apply c stage ch st ms)
    from stage_channels_take(2) [OF channels tr_ingress_apply(3), of s'] tr_ingress_apply
    have "stage = ConfigStageTelemetryCompleted" by simp
    with tr_ingress_apply GoIngress_update_runs have "ingress_runs env c st" by blast
    moreover from assms(3,6) tr_ingress_apply(2) len(2) have "take (Suc (gh_stages_taken s 1)) (gh_taken s 1) =
        take (gh_stages_taken s 1) (gh_taken s 1) @ [c]"
      by (intro take_snoc_nth) (simp_all add: inv_current_def waiting_def)
    ultimately show ?thesis using tr_ingress_apply assms(2,6) by (auto simp: inv_in_force_def)
  next
    case (tr_ingress_return c stage ch st ms)
    from stage_channels_take(2) [OF channels tr_ingress_return(3), of s'] tr_ingress_return
    have "stage = ConfigStageTelemetryCompleted" by simp
    with tr_ingress_return(4) GoIngress_completed show ?thesis by blast
  qed (use assms(2,6) in \<open>auto simp: inv_in_force_def crashed_def\<close>)
qed

lemma inv_in_force_reachable: "reachable env now s \<Longrightarrow> inv_in_force env s"
proof (induction rule: reachable.induct)
  case (reach_step s a s')
  with sys_transition [OF reach_step(2)] show ?case
    by (auto intro: inv_in_force_transition inv_current_reachable inv_applied_reachable inv_stage_reachable)
qed (simp add: inv_in_force_def egress_in_force_def ingress_in_force_def wired_def initial_egress_state_def initial_ingress_state_def)

lemmas reachable_invs = reachable_inv_wg inv_stage_reachable inv_signal_reachable inv_ready_reachable
  inv_config_reachable inv_applied_reachable inv_delivery_reachable
  inv_current_reachable inv_in_force_reachable

end
