(* ===== verification/System_Properties.thy ===== *)
theory System_Properties
  imports System_Invariants "HOL-Library.Sublist"
begin

text \<open>
  Properties of the whole program of \<open>System\<close>: what order configurations are applied in, what
  ends the program and when it cannot end.
\<close>

section \<open>Runs of an example\<close>

definition example_sys_env :: "unit sys_env" where
  "example_sys_env = \<lparr>se_sha256hex = (\<lambda>d. d), se_unmarshal = (\<lambda>d c. (c, None)), se_regexp = equality_regexp,
     se_fraction = (\<lambda>_ _ _. 0), se_metrics = example_api\<rparr>"

definition start_all :: "unit action list" where
  "start_all = replicate 10 MainStep"

text \<open>Reading the first configuration and giving it to every package, which all apply it.\<close>

definition first_configuration :: "unit action list" where
  "first_configuration = ConfigStart [] (Inr ''a'') # replicate 5 ConfigSend
     @ [ConfigWatch None, TelemetryTake example_telemetry_env, TelemetrySend, TelemetrySend, TelemetrySend,
        EgressTake, EgressApply 0, IngressTake, IngressApply, SignalsTake]"

text \<open>The file changes, and egress takes the new configuration.\<close>

definition second_configuration :: "unit action list" where
  "second_configuration = [ConfigEvent (WatcherEvent [FsWrite] (Inr ''b'') (Inr ''b'')), ConfigSend, EgressTake]"

definition deliver_signal :: "unit action list" where
  "deliver_signal = [OSSignal SIGTERM, SignalsReceive (\<lambda>_. [])] @ replicate 4 SignalsSend"

definition stop_all :: "unit action list" where
  "stop_all = [ConfigStop, EgressStop, IngressStop, TelemetryStop example_telemetry_env, SignalsSend]"

lemma run_append:
  "run_actions env (as @ bs) s = (case run_actions env as s of None \<Rightarrow> None | Some s' \<Rightarrow> run_actions env bs s')"
  by (induction as arbitrary: s) (auto split: option.splits)

lemma run_wired:
  assumes "map_option f (run_actions env as (wired now)) = Some v"
  obtains s where "run_actions env as (wired now) = Some s" "reachable env now s" "f s = v"
  using assms by (auto dest: run_reachable [OF reach_init])

section \<open>The order of configurations\<close>

lemma gh_sent_prefix:
  assumes "inv_config s" and "sy_panic s = None" and "i < 4"
  shows "prefix (gh_sent s i) (gh_sent s 0)" and "length (gh_sent s 0) \<le> Suc (length (gh_sent s i))"
proof -
  from assms(1,2) obtain cs c j where h: "config_history s cs c j" by (rule inv_configE)
  have k: "gh_sent s k @ (if j \<le> k then [c] else []) = cs" if "k < 4" for k
    using h that unfolding config_history_def by blast
  note 0 = k [of 0] and i = k [OF assms(3)]
  show "prefix (gh_sent s i) (gh_sent s 0)"
  proof (cases "j \<le> 0")
    case True
    with 0 i have "gh_sent s i = gh_sent s 0" by auto
    then show ?thesis by simp
  next
    case False
    with 0 have "gh_sent s 0 = cs" by simp
    with i have "gh_sent s 0 = gh_sent s i @ (if j \<le> i then [c] else [])" by simp
    then show ?thesis by (rule prefixI)
  qed
  from 0 have "length (gh_sent s 0) \<le> length cs" by auto
  moreover from i have "length cs \<le> Suc (length (gh_sent s i))" by auto
  ultimately show "length (gh_sent s 0) \<le> Suc (length (gh_sent s i))" by linarith
qed

lemma take_of_prefix: "prefix xs ys \<Longrightarrow> k \<le> length xs \<Longrightarrow> take k xs = take k ys"
  by (auto simp: prefix_def)

lemma gh_taken_prefix:
  assumes "inv_config s" and "sy_panic s = None" and "i < 4"
  shows "prefix (gh_taken s i) (gh_sent s 0) \<and> length (gh_sent s 0) \<le> length (gh_taken s i) + 2"
proof -
  from assms(1,2) have "gh_sent s i = gh_taken s i @ ch_config s i" "length (ch_config s i) \<le> 1"
    by (auto simp: inv_config_def config_channels_def)
  with gh_sent_prefix [OF assms] show ?thesis
    by (auto dest: append_prefixD)
qed

lemma applied_taken:
  assumes "reachable env now s" and "sy_panic s = None" and "i < 2"
  shows "gh_applied s i = take (gh_stages_taken s i) (gh_taken s i) \<and> gh_stages_taken s i \<le> length (gh_taken s i)"
  using reachable_invs(6,9) [OF assms(1)] assms(2,3) by (auto simp: inv_applied_def inv_in_force_def less_2_cases_iff)

text \<open>C13: Every package gets the configurations in the order in which they were read, none is left out
  and none comes twice: what a package has taken from its channel is a prefix of what was sent to
  the first one, and it is at most two configurations behind.\<close>

theorem configurations_in_order:
  assumes "reachable env now s" and "sy_panic s = None" and "i < 4"
  shows "prefix (gh_taken s i) (gh_sent s 0) \<and> length (gh_sent s 0) \<le> length (gh_taken s i) + 2"
  using inv_config_reachable [OF assms(1)] assms(2,3) by (rule gh_taken_prefix)

theorem configurations_in_order_witness:
  "\<exists>s. reachable example_sys_env 0 s \<and> length (gh_sent s 0) = 2 \<and> length (gh_taken s 3) = 1
     \<and> prefix (gh_taken s 3) (gh_sent s 0)"
proof -
  have "map_option (\<lambda>s. (sy_panic s, length (gh_sent s 0), length (gh_taken s 3)))
      (run_actions example_sys_env (start_all @ first_configuration @ second_configuration) (wired 0))
    = Some (None, 2, 1)" by code_simp
  then obtain s where "reachable example_sys_env 0 s" "(sy_panic s, length (gh_sent s 0), length (gh_taken s 3)) = (None, 2, 1)"
    by (rule run_wired)
  with configurations_in_order [of example_sys_env 0 s 3] show ?thesis by auto
qed

text \<open>C3: Egress and ingress apply a configuration only after telemetry has completed the same one: the
  configurations that a package has applied are the first of those telemetry has completed, in the same order. So when
  a package makes its metrics, the registry, the query engine and the providers exist. Telemetry may be
  ahead, but by no more than two configurations.\<close>

theorem applied_after_telemetry:
  assumes "reachable env now s" and "sy_panic s = None" and "i < 2"
  shows "prefix (gh_applied s i) (gh_taken s 3) \<and> length (gh_taken s 3) = gh_completed s
    \<and> gh_completed s \<le> length (gh_applied s i) + 2
    \<and> (gh_applied s i \<noteq> [] \<longrightarrow> telemetry_ready (sy_telemetry s) (sy_metrics s))"
proof -
  note inv = reachable_invs [OF assms(1)]
  have channels: "length (ch_stage s i) \<le> 1" "gh_stages_taken s i + length (ch_stage s i) = gh_stages_sent s i"
    using inv(2) assms(2) by (simp_all add: inv_stage_def stage_channels_def)
  from inv(2) assms(2) obtain j where "stage_balance s j" by (auto simp: inv_stage_def)
  with assms(3) have balance: "gh_stages_sent s i + (if j \<le> i then 1 else 0) = gh_completed s"
    by (simp add: stage_balance_def configStageListeners_eq)
  from inv(6) assms(2) have completed: "length (gh_taken s 3) = gh_completed s" by (simp add: inv_applied_def)
  have bounds: "gh_stages_taken s i \<le> length (gh_taken s 3)" "length (gh_taken s 3) \<le> gh_stages_taken s i + 2"
    using channels balance completed by (auto split: if_splits)
  note applied = applied_taken [OF assms]
  with bounds(1) have "gh_applied s i = take (gh_stages_taken s i) (gh_taken s 3)"
    using gh_taken_prefix [OF inv(5) assms(2), of i] gh_taken_prefix [OF inv(5) assms(2), of 3] assms(3)
    by (simp add: take_of_prefix [of _ "gh_sent s 0"])
  moreover have "gh_applied s i \<noteq> [] \<longrightarrow> telemetry_ready (sy_telemetry s) (sy_metrics s)"
    using inv(4) assms(2) bounds(1) completed applied by (simp add: inv_ready_def)
  ultimately show ?thesis using bounds completed applied by (simp add: take_is_prefix)
qed

theorem applied_after_telemetry_witness:
  "\<exists>s. reachable example_sys_env 0 s \<and> length (gh_applied s 1) = 1 \<and> telemetry_ready (sy_telemetry s) (sy_metrics s)"
proof -
  have "map_option (\<lambda>s. (sy_panic s, length (gh_applied s 1)))
      (run_actions example_sys_env (start_all @ first_configuration) (wired 0)) = Some (None, 1)" by code_simp
  then obtain s where "reachable example_sys_env 0 s" "(sy_panic s, length (gh_applied s 1)) = (None, 1)"
    by (rule run_wired)
  with applied_after_telemetry [of example_sys_env 0 s 1] show ?thesis by auto
qed

text \<open>C9: What runs is the configuration that was read. The configurations that egress and ingress have applied, one for
  every stage message they have taken, are the first of those the config package has sent. The probes of egress are
  exactly those the last configuration it applied describes, and none before the first. The health endpoints of ingress
  are exactly those of the last configuration it applied, and its server has the port and timeouts of that
  configuration and a handler for each of its paths and for no other; before the first there are no endpoints and no
  server. (The signal shuts this server down and changes nothing else.)\<close>

theorem running_configuration:
  assumes "reachable env now s" and "sy_panic s = None"
  shows "prefix (gh_applied s 0) (gh_sent s 0) \<and> length (gh_applied s 0) = gh_stages_taken s 0
    \<and> egress_in_force env (gh_applied s 0) (sy_egress s)
    \<and> prefix (gh_applied s 1) (gh_sent s 0) \<and> length (gh_applied s 1) = gh_stages_taken s 1
    \<and> ingress_in_force env (gh_applied s 1) (sy_ingress s)"
proof -
  note inv = reachable_invs [OF assms(1)]
  have "prefix (gh_applied s i) (gh_sent s 0) \<and> length (gh_applied s i) = gh_stages_taken s i" if "i < 2" for i
    using applied_taken [OF assms that] gh_taken_prefix [OF inv(5) assms(2), of i] that
    by (auto intro: prefix_order.trans [OF take_is_prefix])
  from this [of 0] this [of 1] inv(9) assms(2) show ?thesis unfolding inv_in_force_def by auto
qed

theorem running_configuration_witness:
  "\<exists>s. reachable example_sys_env 0 s \<and> gh_stages_taken s 0 = 1 \<and> length (gh_applied s 0) = 1
     \<and> egress_in_force example_sys_env (gh_applied s 0) (sy_egress s) \<and> ingress_in_force example_sys_env (gh_applied s 1) (sy_ingress s)"
proof -
  have "map_option (\<lambda>s. (sy_panic s, gh_stages_taken s 0))
      (run_actions example_sys_env (start_all @ first_configuration) (wired 0)) = Some (None, 1)" by code_simp
  then obtain s where "reachable example_sys_env 0 s" "(sy_panic s, gh_stages_taken s 0) = (None, 1)"
    by (rule run_wired)
  with running_configuration [of example_sys_env 0 s] show ?thesis by auto
qed

section \<open>The end of the program\<close>

lemma end_all_done:
  assumes "inv_wg s" and "sy_main s = 11"
  shows "pc_config s = ConfigDone \<and> pc_egress s = EgressDone \<and> pc_ingress s = IngressDone
    \<and> pc_telemetry s = TelemetryDone \<and> pc_signals s = SignalsDone"
proof -
  from assms have "dones s = 5" by (simp add: inv_wg_def)
  then show ?thesis by (auto simp: dones_def of_bool_def split: if_splits)
qed

text \<open>C19: The program ends by itself only after the signals package has received a signal of the
  operating system and all five goroutines have ended.\<close>

theorem main_returns_last:
  assumes "reachable env now s" and "sy_main s = 11"
  shows "gh_signals s = 1 \<and> pc_config s = ConfigDone \<and> pc_egress s = EgressDone \<and> pc_ingress s = IngressDone
    \<and> pc_telemetry s = TelemetryDone \<and> pc_signals s = SignalsDone"
proof -
  note ends = end_all_done [OF reachable_inv_wg [OF assms(1)] assms(2)]
  moreover from this inv_signal_reachable [OF assms(1)] have "gh_signals s = 1" by (simp add: inv_signal_def)
  ultimately show ?thesis by simp
qed

theorem main_returns_last_witness:
  "\<exists>s. reachable example_sys_env 0 s \<and> sy_main s = 11 \<and> pc_egress s = EgressDone \<and> gh_signals s = 1"
proof -
  have "map_option sy_main (run_actions example_sys_env
      (start_all @ first_configuration @ deliver_signal @ stop_all @ [MainStep]) (wired 0)) = Some 11" by code_simp
  then obtain s where "reachable example_sys_env 0 s" "sy_main s = 11" by (rule run_wired)
  with main_returns_last [of example_sys_env 0 s] show ?thesis by auto
qed

text \<open>C22: The counter of the wait group becomes negative, which is a panic, only if the goroutines
  have all ended before \<open>main\<close> came to its last \<open>wg.Add(1)\<close>, after \<open>go signals.GoSignals(&wg)\<close>.\<close>

theorem wait_group_negative:
  assumes "reachable env now s" and "sy_wg s < 0"
  shows "sy_main s = 9 \<and> sy_wg s = - 1 \<and> sy_panic s = Some NegativeWaitGroup \<and> dones s = 5"
proof -
  note wg = reachable_inv_wg [OF assms(1)] and sg = inv_signal_reachable [OF assms(1)]
  have five: "dones s \<le> 5" by (simp add: dones_def of_bool_def)
  have wg': "sy_wg s = int (min 5 (sy_main s div 2)) - dones s" "sy_panic s = Some NegativeWaitGroup"
    using wg assms(2) by (simp_all add: inv_wg_def)
  then have "0 < dones s" using assms(2) by linarith
  then have "gh_signals s \<noteq> 0 \<or> pc_signals s = SignalsDone"
    using sg by (auto simp: dones_def inv_signal_def of_bool_def split: if_splits)
  then have "pc_signals s \<noteq> SignalsNew" using sg by (auto simp: inv_signal_def split: if_splits)
  then have "9 \<le> sy_main s" using wg by (simp add: inv_wg_def)
  moreover have "sy_main s < 10"
  proof (rule ccontr)
    assume "\<not> sy_main s < 10"
    then have "min 5 (sy_main s div 2) = 5" by simp
    with wg' five assms(2) show False by simp
  qed
  ultimately have "sy_main s = 9" by simp
  with wg' five assms(2) show ?thesis by simp
qed

theorem wait_group_negative_witness:
  "\<exists>s. reachable example_sys_env 0 s \<and> sy_panic s = Some NegativeWaitGroup \<and> sy_main s = 9"
proof -
  have "map_option sy_wg (run_actions example_sys_env
      (replicate 9 MainStep @ first_configuration @ deliver_signal @ stop_all) (wired 0)) = Some (- 1)" by code_simp
  then obtain s where "reachable example_sys_env 0 s" "sy_wg s = - 1" by (rule run_wired)
  with wait_group_negative [of example_sys_env 0 s] show ?thesis by auto
qed

section \<open>The signal is delivered\<close>

lemma signals_send_enabled:
  assumes "reachable env now s" and "sy_panic s = None" and "pc_signals s = SignalsSending sends"
  shows "\<exists>s'. sys_step env SignalsSend s = Some s'
    \<and> pc_signals s' = (if sends = [] then SignalsDone else SignalsSending (tl sends)) \<and> (sends \<noteq> [] \<longrightarrow> sy_panic s' = None)"
proof -
  from end_all_done [OF reachable_inv_wg [OF assms(1)]] assms(3) have main: "sy_main s \<noteq> 11" by auto
  from inv_signal_reachable [OF assms(1)] assms(2,3) have "signal_pending (SignalsSending sends) (ch_signal s)"
    by (simp add: inv_signal_def)
  from signal_pendingD [OF this] obtain j sg where j: "sends = map (\<lambda>i. (i, sg)) [j ..< 4]" "\<forall>i\<ge>j. ch_signal s i = []"
    by (elim exE conjE) (rule that)
  show ?thesis
  proof (cases sends)
    case Nil
    with assms main show ?thesis by (simp add: sys_step_def signals_send_def)
  next
    case (Cons x xs)
    with j have x: "x = (j, sg)" by (simp add: map_upt_eq_Cons)
    with j(2) Cons assms main show ?thesis by (simp add: sys_step_def signals_send_def)
  qed
qed

text \<open>C20: Passing the signal on never blocks: whatever the packages are doing, every channel has room
  for the signal, so that \<open>GoSignals\<close> comes to its end without waiting for any of them.\<close>

theorem signal_delivery_never_blocks:
  assumes "reachable env now s" and "sy_panic s = None" and "pc_signals s = SignalsSending sends"
  shows "\<exists>s'. run_actions env (replicate (Suc (length sends)) SignalsSend) s = Some s' \<and> pc_signals s' = SignalsDone"
  using assms
proof (induction sends arbitrary: s)
  case Nil
  with signals_send_enabled [OF Nil] show ?case by auto
next
  case (Cons x xs)
  from signals_send_enabled [OF Cons.prems] obtain s' where s': "sys_step env SignalsSend s = Some s'"
      "pc_signals s' = SignalsSending xs" "sy_panic s' = None" by auto
  from Cons.IH [OF reach_step [OF Cons.prems(1) s'(1)] s'(3,2)] s'(1) show ?case by simp
qed

theorem signal_delivery_never_blocks_witness:
  "\<exists>s s'. reachable example_sys_env 0 s \<and> pc_telemetry s = TelemetryIdle
     \<and> run_actions example_sys_env (replicate 5 SignalsSend) s = Some s' \<and> pc_signals s' = SignalsDone"
proof -
  have "map_option (\<lambda>s. (sy_panic s, pc_signals s, pc_telemetry s)) (run_actions example_sys_env
      (start_all @ [OSSignal SIGINT, SignalsReceive (\<lambda>_. [])]) (wired 0))
    = Some (None, SignalsSending [(0, SIGINT), (1, SIGINT), (2, SIGINT), (3, SIGINT)], TelemetryIdle)" by code_simp
  then obtain s where s: "reachable example_sys_env 0 s" "(sy_panic s, pc_signals s, pc_telemetry s) =
      (None, SignalsSending [(0, SIGINT), (1, SIGINT), (2, SIGINT), (3, SIGINT)], TelemetryIdle)"
    by (rule run_wired)
  then have "sy_panic s = None" "pc_signals s = SignalsSending [(0, SIGINT), (1, SIGINT), (2, SIGINT), (3, SIGINT)]"
    and t: "pc_telemetry s = TelemetryIdle" by simp_all
  note run = signal_delivery_never_blocks [OF s(1) this(1,2)]
  have "Suc (length [(0::nat, SIGINT), (1, SIGINT), (2, SIGINT), (3, SIGINT)]) = 5" by simp
  from run [unfolded this] s(1) t show ?thesis by blast
qed

section \<open>Shutting down\<close>

text \<open>The steps that end the goroutines and the program, and how many of them are left.\<close>

fun shutdown_action :: "'r action \<Rightarrow> bool" where
  "shutdown_action MainStep = True"
| "shutdown_action ConfigStop = True"
| "shutdown_action EgressStop = True"
| "shutdown_action IngressStop = True"
| "shutdown_action (TelemetryStop _) = True"
| "shutdown_action SignalsSend = True"
| "shutdown_action _ = False"

definition remaining :: "'r system \<Rightarrow> nat" where
  "remaining s = (case pc_signals s of SignalsSending sends \<Rightarrow> Suc (length sends) | _ \<Rightarrow> 0)
     + of_bool (pc_config s \<noteq> ConfigDone) + of_bool (pc_egress s \<noteq> EgressDone) + of_bool (pc_ingress s \<noteq> IngressDone)
     + of_bool (pc_telemetry s \<noteq> TelemetryDone) + of_bool (sy_main s \<noteq> 11)"

text \<open>A step in which the config package handles an event of the file.\<close>

fun handles_file :: "'r action \<Rightarrow> bool" where
  "handles_file (ConfigEvent _) = True"
| "handles_file _ = False"

text \<open>The signal has been received, \<open>main\<close> waits, telemetry has had a configuration, no package is in the middle of
  handling one, and none is in a channel.\<close>

definition quiescent :: "'r system \<Rightarrow> bool" where
  "quiescent s \<longleftrightarrow> sy_panic s = None \<and> (sy_main s = 10 \<or> sy_main s = 11) \<and> gh_signals s = 1 \<and> 0 < gh_completed s
     \<and> (pc_config s = ConfigLoop \<or> pc_config s = ConfigDone) \<and> (pc_egress s = EgressIdle \<or> pc_egress s = EgressDone)
     \<and> (pc_ingress s = IngressIdle \<or> pc_ingress s = IngressDone)
     \<and> (pc_telemetry s = TelemetryIdle \<or> pc_telemetry s = TelemetryDone) \<and> list_all (\<lambda>i. ch_config s i = []) [0, 1, 2, 3]"

lemma wg_done_running:
  assumes "inv_wg s" and "sy_main s = 10" and "dones s < 5" and "sy_wg s1 = sy_wg s"
  shows "sy_panic (wg_done s1) = sy_panic s1"
  using assms by (simp add: inv_wg_def wg_done_def)

lemma dones_less:
  "pc_config s \<noteq> ConfigDone \<or> pc_egress s \<noteq> EgressDone \<or> pc_ingress s \<noteq> IngressDone \<or> pc_telemetry s \<noteq> TelemetryDone
     \<or> pc_signals s \<noteq> SignalsDone \<Longrightarrow> dones s < 5"
  by (auto simp: dones_def of_bool_def)

lemma telemetry_signal_ok:
  assumes "telemetry_ready st ms"
  shows "\<exists>st' sends. GoTelemetry_step tenv n TelemetrySignal st ms = Inr (Return, st', ms, sends)"
  using assms by (auto simp: telemetry_ready_def shutdown_provider_def)

lemma quiescent_step:
  assumes "reachable env now s" and "quiescent s" and "shutdown_action a" and "sys_step env a s = Some s'"
  shows "quiescent s' \<and> remaining s = Suc (remaining s')"
proof -
  from assms(2,4) have s: "sy_panic s = None" "sy_main s = 10" "act_step env a s = Some s'"
    by (auto simp: quiescent_def sys_step_eq_Some)
  note running = wg_done_running [OF reachable_inv_wg [OF assms(1)] s(2) dones_less]
  show ?thesis
  proof (cases a)
    case MainStep
    with s have "s' = s\<lparr>sy_main := 11\<rparr>" by (simp add: main_step_def split: if_splits)
    with assms(2) s(2) show ?thesis by (simp add: quiescent_def remaining_def)
  next
    case ConfigStop
    with s(3) obtain sg ch where "pc_config s = ConfigLoop"
      "s' = wg_done (s\<lparr>ch_signal := (ch_signal s)(0 := ch), pc_config := ConfigDone\<rparr>)"
      by (auto simp: config_stop_def take_defs or_panic_def split: if_splits)
    with assms(2) s(1,2) show ?thesis by (simp add: quiescent_def remaining_def running)
  next
    case EgressStop
    with s(3) obtain sg ch where "pc_egress s = EgressIdle"
      "s' = wg_done (s\<lparr>ch_signal := (ch_signal s)(1 := ch), pc_egress := EgressDone\<rparr>)"
      by (auto simp: egress_stop_def take_defs or_panic_def split: if_splits)
    with assms(2) s(1,2) show ?thesis by (simp add: quiescent_def remaining_def running)
  next
    case IngressStop
    with s(3) obtain sg ch where "pc_ingress s = IngressIdle"
      "s' = wg_done (s\<lparr>ch_signal := (ch_signal s)(2 := ch), sy_ingress := shutdownHTTPServer (sy_ingress s), pc_ingress := IngressDone\<rparr>)"
      by (auto simp: ingress_stop_def take_defs or_panic_def split: if_splits)
    with assms(2) s(1,2) show ?thesis by (simp add: quiescent_def remaining_def running)
  next
    case (TelemetryStop tenv)
    from inv_ready_reachable [OF assms(1)] assms(2) have "telemetry_ready (sy_telemetry s) (sy_metrics s)"
      by (simp add: inv_ready_def quiescent_def)
    from telemetry_signal_ok [OF this, of tenv configStageListeners] TelemetryStop s(3) obtain sg ch st where
      "pc_telemetry s = TelemetryIdle" "s' = wg_done (s\<lparr>ch_signal := (ch_signal s)(3 := ch), sy_telemetry := st, pc_telemetry := TelemetryDone\<rparr>)"
      by (auto simp: telemetry_stop_def take_defs or_panic_def simp del: GoTelemetry_step.simps split: if_splits)
    with assms(2) s(1,2) show ?thesis by (simp add: quiescent_def remaining_def running)
  next
    case SignalsSend
    with s(3) consider "pc_signals s = SignalsSending []" "s' = wg_done (s\<lparr>pc_signals := SignalsDone\<rparr>)"
      | i sg sends where "pc_signals s = SignalsSending ((i, sg) # sends)"
          "s' = s\<lparr>ch_signal := (ch_signal s)(i := [sg]), pc_signals := SignalsSending sends\<rparr>"
      by (auto simp: signals_send_def chan_send_eq_Some split: signals_pc.splits list.splits)
    then show ?thesis using assms(2) s(1,2) by cases (simp_all add: quiescent_def remaining_def running)
  qed (use assms(3) in simp_all)
qed

lemma quiescent_disabled:
  assumes "quiescent s" and "pc_signals s \<noteq> SignalsIdle"
  shows "config_start env envVar content s = None" "config_send s = None" "config_watcher err s = None"
    "egress_take s = None" "egress_apply env now s = None" "ingress_take s = None" "ingress_apply env s = None"
    "telemetry_take tenv s = None" "telemetry_send s = None" "signals_take env s = None" "signals_receive env table s = None"
proof -
  from assms(1) have pcs: "pc_config s = ConfigLoop \<or> pc_config s = ConfigDone" "pc_egress s = EgressIdle \<or> pc_egress s = EgressDone"
    "pc_ingress s = IngressIdle \<or> pc_ingress s = IngressDone" "pc_telemetry s = TelemetryIdle \<or> pc_telemetry s = TelemetryDone"
    and "ch_config s 0 = [] \<and> ch_config s 1 = [] \<and> ch_config s 2 = [] \<and> ch_config s 3 = []"
    by (simp_all add: quiescent_def)
  then have none: "take_config 0 s = None" "take_config 1 s = None" "take_config 2 s = None" "take_config 3 s = None"
    by (simp_all add: take_config_def)
  show "config_start env envVar content s = None" "config_send s = None" "config_watcher err s = None"
    using pcs(1) by (auto simp: config_start_def config_send_def config_watcher_def)
  show "egress_take s = None" "egress_apply env now s = None"
    using pcs(2) none(1) by (auto simp: egress_take_def egress_apply_def)
  show "ingress_take s = None" "ingress_apply env s = None"
    using pcs(3) none(2) by (auto simp: ingress_take_def ingress_apply_def)
  show "telemetry_take tenv s = None" "telemetry_send s = None"
    using pcs(4) none(4) by (auto simp: telemetry_take_def telemetry_send_def)
  show "signals_take env s = None" "signals_receive env table s = None"
    using assms(2) by (simp_all add: signals_take_def signals_receive_def)
qed

lemma quiescent_other_step:
  assumes "reachable env now s" and "quiescent s" and "\<not> shutdown_action a" and "\<not> handles_file a"
    and "sys_step env a s = Some s'"
  shows "quiescent s' \<and> remaining s' = remaining s"
proof -
  from assms(2,5) have s: "gh_signals s = 1" "act_step env a s = Some s'"
    by (auto simp: quiescent_def sys_step_eq_Some)
  from inv_signal_reachable [OF assms(1)] s(1) have "pc_signals s \<noteq> SignalsIdle" by (auto simp: inv_signal_def)
  note disabled = quiescent_disabled [OF assms(2) this]
  show ?thesis
  proof (cases a)
    case (EgressTicked t)
    with s(2) obtain ps where "s' = s\<lparr>gh_started := gh_started s @ [ps]\<rparr>"
      by (auto simp: egress_tick_def or_panic_def split: if_splits)
    with assms(2) show ?thesis by (simp add: quiescent_def remaining_def)
  next
    case (OSSignal sg)
    with s(2) consider "s' = s" | ch where "s' = s\<lparr>ch_os := ch\<rparr>"
      by (auto simp: os_notify_def split: if_splits option.splits)
    then show ?thesis using assms(2) by cases (simp_all add: quiescent_def remaining_def)
  qed (use assms(3,4) s(2) disabled in simp_all)
qed

lemma stop_enabled:
  assumes "sy_panic s = None" and "sy_main s \<noteq> 11"
  shows "pc_config s = ConfigLoop \<Longrightarrow> ch_signal s 0 \<noteq> [] \<Longrightarrow> sys_step env ConfigStop s \<noteq> None"
    and "pc_egress s = EgressIdle \<Longrightarrow> ch_signal s 1 \<noteq> [] \<Longrightarrow> sys_step env EgressStop s \<noteq> None"
    and "pc_ingress s = IngressIdle \<Longrightarrow> ch_signal s 2 \<noteq> [] \<Longrightarrow> sys_step env IngressStop s \<noteq> None"
    and "pc_telemetry s = TelemetryIdle \<Longrightarrow> ch_signal s 3 \<noteq> [] \<Longrightarrow> sys_step env (TelemetryStop tenv) s \<noteq> None"
  using assms by (auto simp: sys_step_def config_stop_def egress_stop_def ingress_stop_def telemetry_stop_def
    take_signal_def neq_Nil_conv)

lemma quiescent_progress:
  assumes "reachable env now s" and "quiescent s" and "sy_main s \<noteq> 11"
  shows "\<exists>a. shutdown_action a \<and> sys_step env a s \<noteq> None"
proof -
  from assms(2,3) have s: "sy_panic s = None" "sy_main s = 10" "gh_signals s = 1" by (auto simp: quiescent_def)
  note stop = stop_enabled [OF s(1) assms(3), of env]
  from inv_signal_reachable [OF assms(1)] s(3)
  consider sends where "pc_signals s = SignalsSending sends" | "pc_signals s = SignalsDone"
    by (cases "pc_signals s") (auto simp: inv_signal_def)
  then show ?thesis
  proof cases
    case 1
    with signals_send_enabled [OF assms(1) s(1)] show ?thesis
      by (intro exI [of _ SignalsSend]) auto
  next
    case 2
    with inv_delivery_reachable [OF assms(1)] s(1)
    have delivered: "\<not> package_done i s \<Longrightarrow> i < 4 \<Longrightarrow> ch_signal s i \<noteq> []" for i
      by (simp add: inv_delivery_def)
    consider "pc_config s = ConfigLoop" | "pc_egress s = EgressIdle" | "pc_ingress s = IngressIdle"
      | "pc_telemetry s = TelemetryIdle" | "dones s = 5"
      using assms(2) 2 by (auto simp: quiescent_def dones_def)
    then show ?thesis
    proof cases
      case 1
      with stop(1) delivered [of 0] show ?thesis by (intro exI [of _ ConfigStop]) (simp add: package_done_def)
    next
      case 2
      with stop(2) delivered [of 1] show ?thesis by (intro exI [of _ EgressStop]) (simp add: package_done_def)
    next
      case 3
      with stop(3) delivered [of 2] show ?thesis by (intro exI [of _ IngressStop]) (simp add: package_done_def)
    next
      case 4
      with stop(4) delivered [of 3] show ?thesis by (intro exI [of _ "TelemetryStop undefined"]) (simp add: package_done_def)
    next
      case 5
      with reachable_inv_wg [OF assms(1)] s show ?thesis
        by (intro exI [of _ MainStep]) (simp add: sys_step_def main_step_def inv_wg_def)
    qed
  qed
qed

lemma quiescent_run:
  assumes "reachable env now s" and "quiescent s" and "list_all (\<lambda>a. \<not> handles_file a) as"
    and "run_actions env as s = Some s'"
  shows "reachable env now s' \<and> quiescent s' \<and> length (filter shutdown_action as) + remaining s' = remaining s"
  using assms
proof (induction as arbitrary: s)
  case (Cons a as)
  then obtain s1 where "sys_step env a s = Some s1" "run_actions env as s1 = Some s'"
    by (auto split: option.splits)
  with Cons.IH [of s1] quiescent_step [of env now s a s1] quiescent_other_step [of env now s a s1] Cons.prems show ?case
    by (cases "shutdown_action a") (auto intro: reach_step)
qed simp



section \<open>A shutdown that does not end\<close>

text \<open>Egress has taken a configuration and telemetry, which ended, will not tell it to go on.\<close>

definition abandoned :: "BunnyConfig \<Rightarrow> 'r system \<Rightarrow> bool" where
  "abandoned c s \<longleftrightarrow> pc_egress s = EgressStage c \<and> pc_telemetry s = TelemetryDone \<and> (sy_panic s = None \<longrightarrow> ch_stage s 0 = [])"

lemma abandoned_transition:
  assumes "transition env s s'" and "abandoned c s" and "inv_wg s" and "sy_panic s = None"
  shows "abandoned c s'"
  using assms(1)
proof (cases rule: transition.cases)
  case tr_main
  note starts = main_step_starts [OF tr_main assms(3), unfolded main_starts_def]
  from starts [THEN conjunct2, THEN conjunct1] assms(2) have "pc_egress s' = EgressStage c"
    by (auto simp: abandoned_def)
  moreover from starts [THEN conjunct2, THEN conjunct2, THEN conjunct2, THEN conjunct1] assms(2)
  have "pc_telemetry s' = TelemetryDone" by (auto simp: abandoned_def)
  ultimately show ?thesis
    using main_step_frame [OF tr_main] assms(2) by (simp add: abandoned_def main_frame_def)
qed (use assms(2,4) in \<open>auto simp: abandoned_def crashed_def\<close>)

lemma abandoned_run:
  "reachable env now s \<Longrightarrow> abandoned c s \<Longrightarrow> run_actions env as s = Some s' \<Longrightarrow> reachable env now s' \<and> abandoned c s'"
proof (induction as arbitrary: s)
  case (Cons a as)
  then obtain s1 where s1: "sys_step env a s = Some s1" "run_actions env as s1 = Some s'"
    by (auto split: option.splits)
  with sys_transition [OF s1(1)] Cons.prems have "abandoned c s1"
    by (auto intro: abandoned_transition reachable_inv_wg)
  with Cons.IH [of s1] s1 Cons.prems show ?case by (auto intro: reach_step)
qed simp

text \<open>C21: If telemetry ends while egress has taken a configuration and waits for the stage message, the
  program never ends by itself: egress waits for ever, whatever steps follow, and \<open>main\<close> does not return.
  Such a state can be reached, since telemetry may take the signal before the configuration.\<close>

theorem shutdown_can_hang:
  assumes "reachable env now s" and "pc_egress s = EgressStage c" and "pc_telemetry s = TelemetryDone"
    and "ch_stage s 0 = []" and "run_actions env as s = Some s'"
  shows "pc_egress s' = EgressStage c \<and> sy_main s' \<noteq> 11"
proof -
  from assms(2-4) have "abandoned c s" by (simp add: abandoned_def)
  from abandoned_run [OF assms(1) this assms(5)] have s': "reachable env now s'" "pc_egress s' = EgressStage c"
    by (simp_all add: abandoned_def)
  with end_all_done [OF reachable_inv_wg [OF s'(1)]] show ?thesis by auto
qed

theorem shutdown_can_hang_witness:
  "\<exists>s s' c. reachable example_sys_env 0 s \<and> sy_panic s = None \<and> pc_signals s = SignalsDone
     \<and> run_actions example_sys_env [ConfigSend, ConfigSend, OSSignal SIGTERM] s = Some s'
     \<and> pc_egress s' = EgressStage c \<and> sy_main s' \<noteq> 11"
proof -
  have "map_option (\<lambda>s. (sy_panic s, case pc_egress s of EgressStage c \<Rightarrow> True | _ \<Rightarrow> False, pc_telemetry s, pc_signals s,
        ch_stage s 0, map_option sy_main (run_actions example_sys_env [ConfigSend, ConfigSend, OSSignal SIGTERM] s)))
      (run_actions example_sys_env (start_all @ first_configuration @ second_configuration @ deliver_signal
         @ [SignalsSend, TelemetryStop example_telemetry_env]) (wired 0))
    = Some (None, True, TelemetryDone, SignalsDone, [], Some 10)" by code_simp
  then obtain s where s: "reachable example_sys_env 0 s" "(sy_panic s, case pc_egress s of EgressStage c \<Rightarrow> True | _ \<Rightarrow> False,
      pc_telemetry s, pc_signals s, ch_stage s 0,
      map_option sy_main (run_actions example_sys_env [ConfigSend, ConfigSend, OSSignal SIGTERM] s))
      = (None, True, TelemetryDone, SignalsDone, [], Some 10)"
    by (rule run_wired)
  then obtain c s' where c: "pc_egress s = EgressStage c"
    and s': "run_actions example_sys_env [ConfigSend, ConfigSend, OSSignal SIGTERM] s = Some s'"
    by (auto split: egress_pc.splits simp del: run_actions.simps)
  from s(2) have "pc_telemetry s = TelemetryDone" "ch_stage s 0 = []" "sy_panic s = None" "pc_signals s = SignalsDone"
    by simp_all
  with shutdown_can_hang [OF s(1) c this(1,2) s'] s(1) s' show ?thesis by blast
qed

end
