(* ===== verification/Specification.thy ===== *)
theory Specification
  imports Config
begin

text \<open>
  What the program promises, without channels, listeners and stage messages.

  There is a log of the configurations that were read. Every package takes them from the log, in
  order; telemetry completes a configuration when it takes it; egress and ingress put one they have
  taken into force, but only after telemetry has taken it. A tick runs the probes in force, or none. A
  signal is received once, then the goroutines end, and when all have ended the program returns. The
  guards also say how far a package may fall behind: this is the flow control that the bounded
  channels give.

  What egress and ingress make of a configuration are parameters: \<open>eg\<close>, the probes, and \<open>ing\<close>, what is
  served.
\<close>

section \<open>Refinement mappings\<close>

text \<open>A mapping from the states of one transition system to those of another, with an invariant of
  the first: every step is a step of the second or leaves the mapped state as it is.\<close>

locale refinement_mapping =
  fixes cinit :: 'c and cstep :: "'c \<Rightarrow> 'c \<Rightarrow> bool" and ainit :: 'a and astep :: "'a \<Rightarrow> 'a \<Rightarrow> bool"
    and inv :: "'c \<Rightarrow> bool" and abs :: "'c \<Rightarrow> 'a"
  assumes inv_init: "inv cinit" and inv_step: "inv s \<Longrightarrow> cstep s s' \<Longrightarrow> inv s'"
    and abs_init: "abs cinit = ainit"
    and simulation: "inv s \<Longrightarrow> cstep s s' \<Longrightarrow> astep (abs s) (abs s') \<or> abs s' = abs s"
begin

lemma refines: "cstep\<^sup>*\<^sup>* cinit s \<Longrightarrow> astep\<^sup>*\<^sup>* ainit (abs s) \<and> inv s"
proof (induction rule: rtranclp_induct)
  case base
  then show ?case by (simp add: abs_init inv_init)
next
  case (step s s')
  with simulation [of s s'] inv_step [of s s'] show ?case by (auto intro: rtranclp.rtrancl_into_rtrancl)
qed

lemma transfer:
  assumes "cstep\<^sup>*\<^sup>* cinit s" and "P ainit" and "\<And>t t'. astep t t' \<Longrightarrow> P t \<Longrightarrow> P t'"
  shows "P (abs s)"
proof -
  from refines [OF assms(1)] have "astep\<^sup>*\<^sup>* ainit (abs s)" by simp
  then show ?thesis by (induction rule: rtranclp_induct) (auto intro: assms(2,3))
qed

end

section \<open>The specification\<close>

datatype goroutine = GConfig | GEgress | GIngress | GTelemetry | GSignals

record ('p, 'e) spec_state =
  sp_log :: "BunnyConfig list"
  sp_taken :: "goroutine \<Rightarrow> nat"
  sp_applied :: "goroutine \<Rightarrow> nat"
  sp_probes :: "'p list"
  sp_served :: "'e list"
  sp_runs :: "'p list list"
  sp_signalled :: bool
  sp_ended :: "goroutine set"
  sp_returned :: bool

definition spec_init :: "('p, 'e) spec_state" where
  "spec_init = \<lparr>sp_log = [], sp_taken = (\<lambda>_. 0), sp_applied = (\<lambda>_. 0), sp_probes = [], sp_served = [],
     sp_runs = [], sp_signalled = False, sp_ended = {}, sp_returned = False\<rparr>"

text \<open>A goroutine that has not ended and is not waiting for telemetry.\<close>

definition spec_idle :: "('p, 'e) spec_state \<Rightarrow> goroutine \<Rightarrow> bool" where
  "spec_idle t g \<longleftrightarrow> g \<notin> sp_ended t \<and> (g = GEgress \<or> g = GIngress \<longrightarrow> sp_applied t g = sp_taken t g)"

inductive spec_step :: "(BunnyConfig \<Rightarrow> 'p list) \<Rightarrow> (BunnyConfig \<Rightarrow> 'e list) \<Rightarrow> ('p, 'e) spec_state
    \<Rightarrow> ('p, 'e) spec_state \<Rightarrow> bool" for eg ing t where
  spec_publish: "\<not> sp_returned t \<Longrightarrow> spec_idle t GConfig \<Longrightarrow> sp_taken t GEgress = length (sp_log t) \<Longrightarrow>
    \<forall>g. g \<noteq> GConfig \<longrightarrow> length (sp_log t) \<le> Suc (sp_taken t g) \<Longrightarrow>
    spec_step eg ing t (t\<lparr>sp_log := sp_log t @ [c]\<rparr>)"
| spec_take: "\<not> sp_returned t \<Longrightarrow> spec_idle t g \<Longrightarrow> g \<noteq> GConfig \<Longrightarrow> sp_taken t g < length (sp_log t) \<Longrightarrow>
    g = GTelemetry \<longrightarrow> sp_taken t g \<le> Suc (sp_applied t GEgress) \<and> sp_taken t g \<le> Suc (sp_applied t GIngress) \<Longrightarrow>
    spec_step eg ing t (t\<lparr>sp_taken := (sp_taken t)(g := Suc (sp_taken t g))\<rparr>)"
| spec_apply_egress: "\<not> sp_returned t \<Longrightarrow> GEgress \<notin> sp_ended t \<Longrightarrow> sp_applied t GEgress < sp_taken t GEgress \<Longrightarrow>
    sp_applied t GEgress < sp_taken t GTelemetry \<Longrightarrow>
    spec_step eg ing t (t\<lparr>sp_applied := (sp_applied t)(GEgress := Suc (sp_applied t GEgress)),
      sp_probes := eg (sp_log t ! sp_applied t GEgress)\<rparr>)"
| spec_apply_ingress: "\<not> sp_returned t \<Longrightarrow> GIngress \<notin> sp_ended t \<Longrightarrow> sp_applied t GIngress < sp_taken t GIngress \<Longrightarrow>
    sp_applied t GIngress < sp_taken t GTelemetry \<Longrightarrow>
    spec_step eg ing t (t\<lparr>sp_applied := (sp_applied t)(GIngress := Suc (sp_applied t GIngress)),
      sp_served := ing (sp_log t ! sp_applied t GIngress)\<rparr>)"
| spec_tick: "\<not> sp_returned t \<Longrightarrow> spec_idle t GEgress \<Longrightarrow> ps = [] \<or> ps = sp_probes t \<Longrightarrow>
    spec_step eg ing t (t\<lparr>sp_runs := sp_runs t @ [ps]\<rparr>)"
| spec_signal: "\<not> sp_returned t \<Longrightarrow> spec_idle t GSignals \<Longrightarrow> \<not> sp_signalled t \<Longrightarrow>
    spec_step eg ing t (t\<lparr>sp_signalled := True\<rparr>)"
| spec_end: "\<not> sp_returned t \<Longrightarrow> spec_idle t g \<Longrightarrow> sp_signalled t \<Longrightarrow>
    spec_step eg ing t (t\<lparr>sp_ended := insert g (sp_ended t)\<rparr>)"
| spec_return: "\<not> sp_returned t \<Longrightarrow> sp_ended t = UNIV \<Longrightarrow> spec_step eg ing t (t\<lparr>sp_returned := True\<rparr>)"

section \<open>What the specification guarantees\<close>

text \<open>How far the packages are apart.\<close>

definition spec_lag :: "('p, 'e) spec_state \<Rightarrow> bool" where
  "spec_lag t \<longleftrightarrow> (\<forall>g. g \<noteq> GConfig \<longrightarrow> sp_taken t g \<le> length (sp_log t) \<and> length (sp_log t) \<le> sp_taken t g + 2)
     \<and> length (sp_log t) \<le> Suc (sp_taken t GEgress)
     \<and> (\<forall>g \<in> {GEgress, GIngress}. sp_applied t g \<le> sp_taken t g \<and> sp_taken t g \<le> Suc (sp_applied t g)
          \<and> sp_applied t g \<le> sp_taken t GTelemetry \<and> sp_taken t GTelemetry \<le> sp_applied t g + 2)"

lemma all_goroutines: "(\<forall>g. P g) \<longleftrightarrow> P GConfig \<and> P GEgress \<and> P GIngress \<and> P GTelemetry \<and> P GSignals"
  by (metis goroutine.exhaust)

lemma spec_lag_step:
  assumes "spec_step eg ing t t'" and "spec_lag t"
  shows "spec_lag t'"
  using assms(1)
proof (cases rule: spec_step.cases)
  case (spec_take g)
  with assms(2) show ?thesis
    by (cases g) (simp_all add: spec_lag_def spec_idle_def all_goroutines)
qed (use assms(2) in \<open>simp_all add: spec_lag_def all_goroutines\<close>)

text \<open>What is in force, and what has been run.\<close>

definition spec_in_force :: "(BunnyConfig \<Rightarrow> 'p list) \<Rightarrow> (BunnyConfig \<Rightarrow> 'e list) \<Rightarrow> ('p, 'e) spec_state \<Rightarrow> bool" where
  "spec_in_force eg ing t \<longleftrightarrow> spec_lag t
     \<and> sp_probes t = (case sp_applied t GEgress of 0 \<Rightarrow> [] | Suc k \<Rightarrow> eg (sp_log t ! k))
     \<and> sp_served t = (case sp_applied t GIngress of 0 \<Rightarrow> [] | Suc k \<Rightarrow> ing (sp_log t ! k))
     \<and> (\<forall>ps \<in> set (sp_runs t). ps = [] \<or> (\<exists>k < sp_applied t GEgress. ps = eg (sp_log t ! k)))"

lemma spec_in_force_step:
  assumes "spec_step eg ing t t'" and "spec_in_force eg ing t"
  shows "spec_in_force eg ing t'"
proof -
  from assms(2) have "spec_lag t" by (simp add: spec_in_force_def)
  then have lag: "spec_lag t'" "sp_applied t GEgress \<le> length (sp_log t)" "sp_applied t GIngress \<le> length (sp_log t)"
    using spec_lag_step [OF assms(1)] by (auto simp: spec_lag_def intro: le_trans)
  from assms(1) show ?thesis
  proof (cases rule: spec_step.cases)
    case (spec_publish c)
    have "(sp_log t @ [c]) ! k = sp_log t ! k" if "k < sp_applied t GEgress \<or> k < sp_applied t GIngress" for k
      using that lag(2,3) by (auto simp: nth_append)
    with spec_publish lag(1) assms(2) show ?thesis
      by (auto simp: spec_in_force_def split: nat.split)
  next
    case spec_apply_egress
    with lag(1) assms(2) show ?thesis by (auto simp: spec_in_force_def less_Suc_eq cong: nat.case_cong)
  next
    case (spec_tick ps)
    with lag(1) assms(2) show ?thesis by (auto simp: spec_in_force_def split: nat.splits)
  qed (use lag(1) assms(2) in \<open>simp_all add: spec_in_force_def cong: nat.case_cong\<close>)
qed

lemma spec_init_in_force: "spec_in_force eg ing spec_init"
  by (simp add: spec_in_force_def spec_lag_def spec_init_def)

end
