(* ===== verification/Refinement.thy ===== *)
theory Refinement
  imports System_Properties Specification
begin

text \<open>
  The program implements the specification: a refinement mapping from the states of the model of
  \<open>main.go\<close> to those of the specification, on the runs without a panic. What the specification
  guarantees is carried over to the program.
\<close>

section \<open>The mapping\<close>

fun config_channel :: "goroutine \<Rightarrow> nat" where
  "config_channel GConfig = 4"
| "config_channel GEgress = 0"
| "config_channel GIngress = 1"
| "config_channel GTelemetry = 3"
| "config_channel GSignals = 2"

definition stage_channel :: "goroutine \<Rightarrow> nat" where
  "stage_channel g = (if g = GEgress then 0 else if g = GIngress then 1 else 2)"

fun ended :: "'r system \<Rightarrow> goroutine \<Rightarrow> bool" where
  "ended s GConfig \<longleftrightarrow> pc_config s = ConfigDone"
| "ended s GEgress \<longleftrightarrow> pc_egress s = EgressDone"
| "ended s GIngress \<longleftrightarrow> pc_ingress s = IngressDone"
| "ended s GTelemetry \<longleftrightarrow> pc_telemetry s = TelemetryDone"
| "ended s GSignals \<longleftrightarrow> pc_signals s = SignalsDone"

definition abstraction :: "'r system \<Rightarrow> (Probe option, string \<times> Query) spec_state" where
  "abstraction s = \<lparr>sp_log = gh_sent s 0, sp_taken = (\<lambda>g. length (gh_taken s (config_channel g))),
     sp_applied = (\<lambda>g. gh_stages_taken s (stage_channel g)),
     sp_probes = map Some (probes (sy_egress s)), sp_served = map endpoint_spec (healthEndpoints (sy_ingress s)),
     sp_runs = map (map Some) (gh_started s), sp_signalled = (0 < gh_signals s), sp_ended = {g. ended s g},
     sp_returned = (sy_main s = 11)\<rparr>"

definition egress_of :: "'r sys_env \<Rightarrow> BunnyConfig \<Rightarrow> Probe option list" where
  "egress_of env c = configured_probes (se_metrics env) (se_regexp env) (Egress c)"

definition ingress_of :: "'r sys_env \<Rightarrow> BunnyConfig \<Rightarrow> (string \<times> Query) list" where
  "ingress_of env c = endpoint_specs (se_fraction env) (hs_Health (in_HTTPServerConfig (Ingress c)))"

text \<open>The steps of the program that do not panic.\<close>

definition good_step :: "'r sys_env \<Rightarrow> 'r system \<Rightarrow> 'r system \<Rightarrow> bool" where
  "good_step env s s' \<longleftrightarrow> (\<exists>a. sys_step env a s = Some s') \<and> sy_panic s' = None"

definition good :: "'r sys_env \<Rightarrow> go_time \<Rightarrow> 'r system \<Rightarrow> bool" where
  "good env now s \<longleftrightarrow> reachable env now s \<and> sy_panic s = None"

lemma good_reachable: "reachable env now s \<Longrightarrow> sy_panic s = None \<Longrightarrow> (good_step env)\<^sup>*\<^sup>* (wired now) s"
proof (induction rule: reachable.induct)
  case (reach_step s a s')
  from reach_step(2) have "sy_panic s = None" by (simp add: sys_step_eq_Some)
  with reach_step show ?case
    by (auto simp: good_step_def intro: rtranclp.rtrancl_into_rtrancl)
qed simp

section \<open>The simulation\<close>

text \<open>Every probe of egress has an action.\<close>

definition inv_probes :: "'r system \<Rightarrow> bool" where
  "inv_probes s \<longleftrightarrow> (sy_panic s = None \<longrightarrow> performProbes (sy_egress s) = probes (sy_egress s))"

lemma inv_probes_transition:
  assumes "transition env s s'" and "inv_probes s" and "inv_stage s" and "sy_panic s = None"
  shows "inv_probes s'"
  using assms(1)
proof (cases rule: transition.cases)
  case tr_main
  from main_step_frame [OF tr_main] assms(2) show ?thesis by (simp add: inv_probes_def main_frame_def)
next
  case (tr_egress_apply c stage ch now ctl st ms started)
  from assms(3,4) have "stage_channels s" by (simp add: inv_stage_def)
  from stage_channels_take(2) [OF this tr_egress_apply(3), of s'] tr_egress_apply
  have "stage = ConfigStageTelemetryCompleted" by simp
  with tr_egress_apply GoEgress_update_runs have "egress_runs env c st" by blast
  with tr_egress_apply show ?thesis by (simp add: inv_probes_def egress_runs_def)
qed (use assms(2,4) in \<open>auto simp: inv_probes_def crashed_def\<close>)

lemma inv_probes_reachable: "reachable env now s \<Longrightarrow> inv_probes s"
proof (induction rule: reachable.induct)
  case (reach_step s a s')
  with sys_transition [OF reach_step(2)] show ?case
    by (auto intro: inv_probes_transition inv_stage_reachable)
qed (simp add: inv_probes_def wired_def performProbes_def initial_egress_state_def)

lemma config_channel_inj: "config_channel g = config_channel h \<longleftrightarrow> g = h"
  by (cases g; cases h) simp_all

lemma applied_updates:
  "(\<lambda>g. (f(0 := n)) (stage_channel g)) = (\<lambda>g. f (stage_channel g))(GEgress := n)"
  "(\<lambda>g. (f(Suc 0 := n)) (stage_channel g)) = (\<lambda>g. f (stage_channel g))(GIngress := n)"
  by (auto simp: fun_eq_iff stage_channel_def)

lemma ended_set: "{g. ended s g} = {g. g = GConfig \<and> pc_config s = ConfigDone \<or> g = GEgress \<and> pc_egress s = EgressDone
    \<or> g = GIngress \<and> pc_ingress s = IngressDone \<or> g = GTelemetry \<and> pc_telemetry s = TelemetryDone
    \<or> g = GSignals \<and> pc_signals s = SignalsDone}"
proof (rule Collect_cong)
  show "ended s g \<longleftrightarrow> g = GConfig \<and> pc_config s = ConfigDone \<or> g = GEgress \<and> pc_egress s = EgressDone
    \<or> g = GIngress \<and> pc_ingress s = IngressDone \<or> g = GTelemetry \<and> pc_telemetry s = TelemetryDone
    \<or> g = GSignals \<and> pc_signals s = SignalsDone" for g
    by (cases g) simp_all
qed

text \<open>What the invariants say about the mapped state.\<close>

lemma good_counts:
  assumes "good env now s"
  shows "i < 2 \<Longrightarrow> length (gh_taken s i) = gh_stages_taken s i + waiting i s"
    and "length (gh_taken s 3) = gh_completed s"
    and "gh_sent s i = gh_taken s i @ ch_config s i" and "length (ch_config s i) \<le> 1"
    and "gh_stages_taken s i + length (ch_stage s i) = gh_stages_sent s i" and "length (ch_stage s i) \<le> 1"
    and "i < 2 \<Longrightarrow> gh_stages_sent s i \<le> gh_completed s"
    and "i < 2 \<Longrightarrow> pc_telemetry s = TelemetryIdle \<Longrightarrow> gh_stages_sent s i = gh_completed s"
    and "i < 4 \<Longrightarrow> length (gh_sent s i) \<le> length (gh_sent s 0)"
    and "i < 4 \<Longrightarrow> length (gh_sent s 0) \<le> Suc (length (gh_sent s i))"
proof -
  from assms have s: "reachable env now s" "sy_panic s = None" by (simp_all add: good_def)
  note inv = reachable_invs [OF s(1)]
  show "i < 2 \<Longrightarrow> length (gh_taken s i) = gh_stages_taken s i + waiting i s" "length (gh_taken s 3) = gh_completed s"
    using inv(6) s(2) by (auto simp: inv_applied_def less_2_cases_iff)
  show "gh_sent s i = gh_taken s i @ ch_config s i" "length (ch_config s i) \<le> 1"
    using inv(5) s(2) by (simp_all add: inv_config_def config_channels_def)
  show "gh_stages_taken s i + length (ch_stage s i) = gh_stages_sent s i" "length (ch_stage s i) \<le> 1"
    using inv(2) s(2) by (simp_all add: inv_stage_def stage_channels_def)
  from inv(2) s(2) obtain j where j: "stage_balance s j" "stages_pending (pc_telemetry s) j" by (auto simp: inv_stage_def)
  from j show "i < 2 \<Longrightarrow> gh_stages_sent s i \<le> gh_completed s"
    by (auto simp: stage_balance_def configStageListeners_eq dest!: spec [of _ i])
  from j show "i < 2 \<Longrightarrow> pc_telemetry s = TelemetryIdle \<Longrightarrow> gh_stages_sent s i = gh_completed s"
    by (auto simp: stage_balance_def configStageListeners_eq)
  show "i < 4 \<Longrightarrow> length (gh_sent s i) \<le> length (gh_sent s 0)"
    using gh_sent_prefix(1) [OF inv(5) s(2)] by (auto dest: prefix_length_le)
  show "i < 4 \<Longrightarrow> length (gh_sent s 0) \<le> Suc (length (gh_sent s i))"
    by (rule gh_sent_prefix(2) [OF inv(5) s(2)])
qed

lemma good_taken_nth:
  assumes "good env now s" and "i < 4" and "k < length (gh_taken s i)"
  shows "gh_sent s 0 ! k = gh_taken s i ! k"
proof -
  from assms(1) have "inv_config s" "sy_panic s = None" by (auto simp: good_def inv_config_reachable)
  from gh_taken_prefix [OF this assms(2)] obtain zs where "gh_sent s 0 = gh_taken s i @ zs" by (auto simp: prefix_def)
  with assms(3) show ?thesis by (simp add: nth_append)
qed

lemma simulate_publish:
  assumes "good env now s" and "pc_config s = ConfigSending ((i, c) # sends)" and "ch_config s i = []" and "sy_main s \<noteq> 11"
    and "s' = s\<lparr>ch_config := (ch_config s)(i := [c]), gh_sent := (gh_sent s)(i := gh_sent s i @ [c]),
      pc_config := ConfigSending sends\<rparr>"
  shows "spec_step eg ing (abstraction s) (abstraction s') \<or> abstraction s' = abstraction s"
proof (cases "i = 0")
  case False
  with assms show ?thesis by (simp add: abstraction_def ended_set)
next
  case True
  note n = good_counts [OF assms(1)]
  from assms(1) have "inv_config s" "sy_panic s = None" by (auto simp: good_def inv_config_reachable)
  then obtain cs d j where "configs_pending (pc_config s) d j" "config_history s cs d j" by (rule inv_configE)
  moreover from this(1) assms(2) True have "j = 0" by (simp add: map_upt_eq_Cons)
  ultimately have sent: "gh_sent s k @ [d] = cs" if "k < 4" for k using that by (simp add: config_history_def)
  have "length (gh_sent s k) = length (gh_sent s 0)" if "k < 4" for k
    using arg_cong [OF sent [OF that], of length] arg_cong [OF sent [of 0], of length] by simp
  then have "length (gh_sent s 0) \<le> Suc (length (gh_taken s k))" if "k < 4" for k
    using n(3,4) [of k] that by (metis One_nat_def add.right_neutral add_Suc_right add_le_cancel_left length_append)
  moreover have "length (gh_taken s 0) = length (gh_sent s 0)" using n(3) [of 0] assms(3) True by simp
  ultimately have "spec_step eg ing (abstraction s) ((abstraction s)\<lparr>sp_log := sp_log (abstraction s) @ [c]\<rparr>)"
    using assms(2,4) by (intro spec_publish) (auto simp: abstraction_def spec_idle_def all_goroutines)
  moreover have "abstraction s' = (abstraction s)\<lparr>sp_log := sp_log (abstraction s) @ [c]\<rparr>"
    using assms(2,5) True by (simp add: abstraction_def ended_set)
  ultimately show ?thesis by simp
qed

text \<open>A package takes the next configuration.\<close>

definition takes :: "goroutine \<Rightarrow> 'r system \<Rightarrow> 'r system \<Rightarrow> bool" where
  "takes g s s' \<longleftrightarrow> (\<exists>c. gh_taken s' = (gh_taken s)(config_channel g := gh_taken s (config_channel g) @ [c]))
     \<and> gh_sent s' = gh_sent s \<and> gh_stages_taken s' = gh_stages_taken s \<and> sy_egress s' = sy_egress s
     \<and> sy_ingress s' = sy_ingress s \<and> gh_started s' = gh_started s \<and> gh_signals s' = gh_signals s
     \<and> sy_main s' = sy_main s \<and> {g. ended s' g} = {g. ended s g}"

lemma simulate_take:
  assumes "good env now s" and "g \<noteq> GConfig" and "ch_config s (config_channel g) \<noteq> []" and "sy_main s \<noteq> 11"
    and "spec_idle (abstraction s) g" and "g = GTelemetry \<Longrightarrow> pc_telemetry s = TelemetryIdle" and "takes g s s'"
  shows "spec_step eg ing (abstraction s) (abstraction s')"
proof -
  note n = good_counts [OF assms(1)]
  let ?i = "config_channel g"
  have "?i < 4" using assms(2) by (cases g) simp_all
  from n(9) [OF this] n(3) [of ?i] assms(3) have behind: "length (gh_taken s ?i) < length (gh_sent s 0)"
    by (cases "ch_config s ?i") auto
  have "length (gh_taken s ?i) \<le> Suc (gh_stages_taken s k)" if "g = GTelemetry" "k < 2" for k
    using that n(2) n(5,6) [of k] n(8) [OF that(2) assms(6)] by simp
  with behind assms(2,4,5) have "spec_step eg ing (abstraction s)
      ((abstraction s)\<lparr>sp_taken := (sp_taken (abstraction s))(g := Suc (sp_taken (abstraction s) g))\<rparr>)"
    by (intro spec_take) (auto simp: abstraction_def stage_channel_def)
  moreover have "abstraction s' = (abstraction s)\<lparr>sp_taken := (sp_taken (abstraction s))(g := Suc (sp_taken (abstraction s) g))\<rparr>"
    using assms(7) by (auto simp: takes_def abstraction_def fun_eq_iff config_channel_inj)
  ultimately show ?thesis by simp
qed

text \<open>Egress and ingress put a configuration in force.\<close>

lemma can_apply:
  assumes "good env now s" and "i < 2" and "waiting i s = 1" and "ch_stage s i = stage # ch"
  shows "gh_stages_taken s i < length (gh_taken s i)" and "gh_stages_taken s i < length (gh_taken s 3)"
    and "stage = ConfigStageTelemetryCompleted"
proof -
  note n = good_counts [OF assms(1)]
  from n(1) assms(2,3) show "gh_stages_taken s i < length (gh_taken s i)" by simp
  from n(5) [of i] n(2,7) assms(2,4) show "gh_stages_taken s i < length (gh_taken s 3)" by fastforce
  from assms(1) have "inv_stage s" "sy_panic s = None" by (auto simp: good_def inv_stage_reachable)
  with assms(4) show "stage = ConfigStageTelemetryCompleted"
    by (auto simp: inv_stage_def stage_channels_def dest!: spec [of _ i])
qed

lemma simulate_apply_egress:
  assumes "good env now s" and "sy_main s \<noteq> 11" and "pc_egress s = EgressStage c" and "ch_stage s 0 = stage # ch"
    and "GoEgress_step (se_metrics env) (se_regexp env) (EgressConfigUpdate c (Some stage) t) (sy_egress s) (sy_metrics s)
      = Inr (ctl, st, ms, started)"
    and "s' = s\<lparr>ch_stage := (ch_stage s)(0 := ch), gh_stages_taken := (gh_stages_taken s)(0 := Suc (gh_stages_taken s 0)),
      sy_egress := st, sy_metrics := ms, gh_applied := (gh_applied s)(0 := gh_applied s 0 @ [c]), pc_egress := EgressIdle\<rparr>"
  shows "spec_step (egress_of env) ing (abstraction s) (abstraction s')"
proof -
  have "waiting 0 s = 1" using assms(3) by (simp add: waiting_def)
  note can = can_apply [OF assms(1) _ this assms(4), simplified]
  from assms(5) can(3) GoEgress_update_runs have "egress_runs env c st" by blast
  moreover from assms(1,3) have "gh_taken s 0 ! gh_stages_taken s 0 = c"
    using inv_current_reachable [of env now s] by (auto simp: good_def inv_current_def)
  ultimately have probes: "map Some (probes st) = egress_of env (gh_sent s 0 ! gh_stages_taken s 0)"
    using good_taken_nth [OF assms(1) _ can(1)] by (simp add: egress_runs_def egress_of_def)
  let ?t = "abstraction s"
  have "spec_step (egress_of env) ing ?t (?t\<lparr>sp_applied := (sp_applied ?t)(GEgress := Suc (sp_applied ?t GEgress)),
      sp_probes := egress_of env (sp_log ?t ! sp_applied ?t GEgress)\<rparr>)"
    using can assms(2,3) by (intro spec_apply_egress) (simp_all add: abstraction_def stage_channel_def)
  moreover have "abstraction s' = ?t\<lparr>sp_applied := (sp_applied ?t)(GEgress := Suc (sp_applied ?t GEgress)),
      sp_probes := egress_of env (sp_log ?t ! sp_applied ?t GEgress)\<rparr>"
    using assms(3,6) probes
    by (simp add: abstraction_def ended_set) (auto simp: fun_eq_iff stage_channel_def)
  ultimately show ?thesis by simp
qed

lemma simulate_apply_ingress:
  assumes "good env now s" and "sy_main s \<noteq> 11" and "pc_ingress s = IngressStage c" and "ch_stage s 1 = stage # ch"
    and "GoIngress_step (se_metrics env) (se_fraction env) (IngressConfigUpdate c (Some stage)) (sy_ingress s) (sy_metrics s)
      = Inr (Continue, st, ms)"
    and "s' = s\<lparr>ch_stage := (ch_stage s)(1 := ch), gh_stages_taken := (gh_stages_taken s)(1 := Suc (gh_stages_taken s 1)),
      sy_ingress := st, sy_metrics := ms, gh_applied := (gh_applied s)(1 := gh_applied s 1 @ [c]), pc_ingress := IngressIdle\<rparr>"
  shows "spec_step eg (ingress_of env) (abstraction s) (abstraction s')"
proof -
  have "waiting 1 s = 1" using assms(3) by (simp add: waiting_def)
  note can = can_apply [OF assms(1) _ this assms(4), simplified]
  from assms(5) can(3) GoIngress_update_runs have "ingress_runs env c st" by blast
  note runs = ingress_runs_specs [OF this]
  moreover from assms(1,3) have "gh_taken s 1 ! gh_stages_taken s 1 = c"
    using inv_current_reachable [of env now s] by (auto simp: good_def inv_current_def)
  ultimately have served: "map endpoint_spec (healthEndpoints st) = ingress_of env (gh_sent s 0 ! gh_stages_taken s 1)"
    using good_taken_nth [OF assms(1) _ can(1)] by (simp add: ingress_of_def)
  let ?t = "abstraction s"
  have "spec_step eg (ingress_of env) ?t (?t\<lparr>sp_applied := (sp_applied ?t)(GIngress := Suc (sp_applied ?t GIngress)),
      sp_served := ingress_of env (sp_log ?t ! sp_applied ?t GIngress)\<rparr>)"
    using can assms(2,3) by (intro spec_apply_ingress) (simp_all add: abstraction_def stage_channel_def)
  moreover have "abstraction s' = ?t\<lparr>sp_applied := (sp_applied ?t)(GIngress := Suc (sp_applied ?t GIngress)),
      sp_served := ingress_of env (sp_log ?t ! sp_applied ?t GIngress)\<rparr>"
    using assms(3,6) served
    by (simp add: abstraction_def ended_set) (auto simp: fun_eq_iff stage_channel_def)
  ultimately show ?thesis by simp
qed

text \<open>A goroutine ends.\<close>

definition ends :: "goroutine \<Rightarrow> 'r system \<Rightarrow> 'r system \<Rightarrow> bool" where
  "ends g s s' \<longleftrightarrow> gh_sent s' = gh_sent s \<and> gh_taken s' = gh_taken s \<and> gh_stages_taken s' = gh_stages_taken s
     \<and> sy_egress s' = sy_egress s \<and> healthEndpoints (sy_ingress s') = healthEndpoints (sy_ingress s)
     \<and> gh_started s' = gh_started s \<and> gh_signals s' = gh_signals s \<and> sy_main s' = sy_main s
     \<and> {h. ended s' h} = insert g {h. ended s h}"

lemma simulate_end:
  assumes "spec_idle (abstraction s) g" and "0 < gh_signals s" and "sy_main s \<noteq> 11" and "ends g s s'"
  shows "spec_step eg ing (abstraction s) (abstraction s')"
proof -
  have "spec_step eg ing (abstraction s) ((abstraction s)\<lparr>sp_ended := insert g (sp_ended (abstraction s))\<rparr>)"
    using assms(1-3) by (intro spec_end) (simp_all add: abstraction_def)
  moreover have "abstraction s' = (abstraction s)\<lparr>sp_ended := insert g (sp_ended (abstraction s))\<rparr>"
    using assms(4) by (simp add: abstraction_def ends_def)
  ultimately show ?thesis by simp
qed

text \<open>\<open>main\<close> starts the goroutines and returns.\<close>

lemma simulate_main:
  assumes "good env now s" and "main_step s = Some s'" and "sy_main s \<noteq> 11"
  shows "spec_step eg ing (abstraction s) (abstraction s') \<or> abstraction s' = abstraction s"
proof -
  from assms(1) have inv: "inv_wg s" by (auto simp: good_def intro: reachable_inv_wg)
  have "{g. ended s' g} = {g. ended s g}"
    by (simp add: ended_set main_starts_Done [OF main_step_starts [OF assms(2) inv]])
  with main_step_frame [OF assms(2)] have frame: "abstraction s' = (abstraction s)\<lparr>sp_returned := (sy_main s' = 11)\<rparr>"
    by (simp add: abstraction_def main_frame_def)
  show ?thesis
  proof (cases "sy_main s' = 11")
    case True
    with assms(2,3) have "sy_wg s = 0" "sy_main s = 10"
      using inv by (auto simp: main_step_def inv_wg_def split: if_splits)
    with inv have "dones s = 5" by (simp add: inv_wg_def)
    then have "sp_ended (abstraction s) = UNIV"
      by (auto simp: dones_def of_bool_def abstraction_def all_goroutines set_eq_iff split: if_splits)
    then have "spec_step eg ing (abstraction s) ((abstraction s)\<lparr>sp_returned := True\<rparr>)"
      using assms(3) by (intro spec_return) (simp_all add: abstraction_def)
    with frame True show ?thesis by simp
  next
    case False
    with frame assms(3) show ?thesis by (simp add: abstraction_def)
  qed
qed

lemma healthEndpoints_shutdown [simp]: "healthEndpoints (shutdownHTTPServer st) = healthEndpoints st"
  by (simp add: shutdownHTTPServer_def split: option.split)

text \<open>Who is idle, and that a signal that can be taken has been received.\<close>

lemma good_idle:
  assumes "good env now s"
  shows "pc_config s \<noteq> ConfigDone \<Longrightarrow> spec_idle (abstraction s) GConfig"
    and "pc_egress s = EgressIdle \<Longrightarrow> spec_idle (abstraction s) GEgress"
    and "pc_ingress s = IngressIdle \<Longrightarrow> spec_idle (abstraction s) GIngress"
    and "pc_telemetry s = TelemetryIdle \<Longrightarrow> spec_idle (abstraction s) GTelemetry"
    and "pc_signals s \<noteq> SignalsDone \<Longrightarrow> spec_idle (abstraction s) GSignals"
  using good_counts(1) [OF assms, of 0] good_counts(1) [OF assms, of 1]
  by (auto simp: spec_idle_def abstraction_def stage_channel_def waiting_def)

lemma good_signalled:
  assumes "good env now s"
  shows "ch_signal s i = sg # ch \<Longrightarrow> 0 < gh_signals s"
    and "pc_signals s = SignalsSending sends \<Longrightarrow> 0 < gh_signals s"
    and "pc_signals s = SignalsIdle \<Longrightarrow> gh_signals s = 0"
  using assms inv_signal_reachable [of env now s] by (auto simp: good_def inv_signal_def split: if_splits)

lemma simulation_step:
  assumes "good env now s" and "good_step env s s'"
  shows "spec_step (egress_of env) (ingress_of env) (abstraction s) (abstraction s') \<or> abstraction s' = abstraction s"
proof -
  from assms(2) sys_transition have tr: "transition env s s'" and s: "sy_main s \<noteq> 11" and ok: "sy_panic s' = None"
    unfolding good_step_def by blast+
  note idle = good_idle [OF assms(1)] and sig = good_signalled [OF assms(1)]
  note ending = simulate_end [OF _ _ s, of _ s']
  from tr show ?thesis
  proof (cases rule: transition.cases)
    case tr_main
    from simulate_main [OF assms(1) this s] show ?thesis .
  next
    case (tr_config_send i c sends)
    from simulate_publish [OF assms(1) tr_config_send(2,3) s tr_config_send(1)] show ?thesis .
  next
    case (tr_egress_take c ch)
    then have "takes GEgress s s'" by (auto simp: takes_def ended_set)
    with simulate_take [OF assms(1) _ _ s, of GEgress s'] tr_egress_take idle(2) show ?thesis by simp
  next
    case (tr_ingress_take c ch)
    then have "takes GIngress s s'" by (auto simp: takes_def ended_set)
    with simulate_take [OF assms(1) _ _ s, of GIngress s'] tr_ingress_take idle(3) show ?thesis by simp
  next
    case (tr_signals_take c ch)
    then have "takes GSignals s s'" by (auto simp: takes_def ended_set)
    with simulate_take [OF assms(1) _ _ s, of GSignals s'] tr_signals_take idle(5) show ?thesis by simp
  next
    case (tr_telemetry_take c ch tenv ctl st ms sends)
    then have "takes GTelemetry s s'" by (auto simp: takes_def ended_set)
    with simulate_take [OF assms(1) _ _ s, of GTelemetry s'] tr_telemetry_take idle(4) show ?thesis by simp
  next
    case (tr_egress_apply c stage ch now ctl st ms started)
    from simulate_apply_egress [OF assms(1) s tr_egress_apply(2-4,1)] show ?thesis by blast
  next
    case (tr_ingress_apply c stage ch st ms)
    from simulate_apply_ingress [OF assms(1) s tr_ingress_apply(2-4,1)] show ?thesis by blast
  next
    case (tr_ingress_return c stage ch st ms)
    then have "waiting 1 s = 1" by (simp add: waiting_def)
    from can_apply(3) [OF assms(1) _ this tr_ingress_return(3)] tr_ingress_return(4) GoIngress_completed show ?thesis by fastforce
  next
    case (tr_egress_tick ps)
    from assms(1) have "performProbes (sy_egress s) = probes (sy_egress s)"
      using inv_probes_reachable by (auto simp: good_def inv_probes_def)
    with tr_egress_tick idle(2) s have "spec_step (egress_of env) (ingress_of env) (abstraction s)
        ((abstraction s)\<lparr>sp_runs := sp_runs (abstraction s) @ [map Some ps]\<rparr>)"
      by (intro spec_tick) (auto simp: abstraction_def)
    with tr_egress_tick show ?thesis by (simp add: abstraction_def ended_set)
  next
    case (tr_signals_receive sg ch table ctl st sends)
    with idle(5) sig(3) s have "spec_step (egress_of env) (ingress_of env) (abstraction s)
        ((abstraction s)\<lparr>sp_signalled := True\<rparr>)"
      by (intro spec_signal) (simp_all add: abstraction_def)
    with tr_signals_receive show ?thesis by (simp add: abstraction_def ended_set)
  next
    case (tr_config_stop sg ch)
    then have "ends GConfig s s'" by (auto simp: ends_def ended_set)
    with ending idle(1) sig(1) tr_config_stop show ?thesis by simp
  next
    case (tr_egress_stop sg ch)
    then have "ends GEgress s s'" by (auto simp: ends_def ended_set)
    with ending idle(2) sig(1) tr_egress_stop show ?thesis by simp
  next
    case (tr_ingress_stop sg ch)
    then have "ends GIngress s s'" by (auto simp: ends_def ended_set)
    with ending idle(3) sig(1) tr_ingress_stop show ?thesis by simp
  next
    case (tr_telemetry_stop sg ch)
    then have "ends GTelemetry s s'" by (auto simp: ends_def ended_set)
    with ending idle(4) sig(1) tr_telemetry_stop show ?thesis by simp
  next
    case tr_signals_sent
    then have "ends GSignals s s'" by (auto simp: ends_def ended_set)
    with ending idle(5) sig(2) tr_signals_sent show ?thesis by simp
  qed (use ok in \<open>simp_all add: abstraction_def ended_set crashed_def\<close>)
qed

interpretation program: refinement_mapping "wired now" "good_step env" spec_init
    "spec_step (egress_of env) (ingress_of env)" "good env now" abstraction
  for env :: "'r sys_env" and now
proof
  show "good env now (wired now)" using reach_init by (auto simp: good_def wired_def)
  show "good env now s'" if "good env now s" "good_step env s s'" for s s'
    using that by (auto simp: good_def good_step_def intro: reach_step)
  show "abstraction (wired now) = spec_init"
    by (simp add: abstraction_def spec_init_def wired_def ended_set initial_egress_state_def initial_ingress_state_def)
qed (rule simulation_step)

text \<open>What the specification guarantees, for the program.\<close>

lemma reachable_in_force:
  assumes "reachable env now s" and "sy_panic s = None"
  shows "spec_in_force (egress_of env) (ingress_of env) (abstraction s)"
  by (rule program.transfer [where P = "spec_in_force (egress_of env) (ingress_of env)",
        OF good_reachable [OF assms] spec_init_in_force])
    (rule spec_in_force_step)

section \<open>Properties\<close>

text \<open>A configuration with a probe, whatever the file holds, and a tick after it has been applied.\<close>

definition probing_env :: "unit sys_env" where
  "probing_env = example_sys_env\<lparr>se_unmarshal := (\<lambda>d c. (Some egress_example, None))\<rparr>"

definition probing_run :: "unit action list" where
  "probing_run = start_all @ first_configuration @ [EgressTicked 5000000000]"

text \<open>C1: The program implements its specification: whatever the goroutines do and in whatever order,
  as long as none panics, the configurations read, those every package has taken and put in force, the
  probes and the health endpoints that are in force, the probes started at every tick, the
  goroutines that have ended and the return of \<open>main\<close> are those of a run of the specification, in
  which there are no channels and no stage messages.\<close>

theorem program_refines_specification:
  assumes "reachable env now s" and "sy_panic s = None"
  shows "(spec_step (egress_of env) (ingress_of env))\<^sup>*\<^sup>* spec_init (abstraction s)"
  using program.refines [OF good_reachable [OF assms]] by simp

theorem program_refines_specification_witness:
  "\<exists>s. reachable probing_env 0 s
     \<and> (spec_step (egress_of probing_env) (ingress_of probing_env))\<^sup>*\<^sup>* spec_init (abstraction s)
     \<and> sp_applied (abstraction s) GEgress = 1 \<and> sp_applied (abstraction s) GIngress = 1
     \<and> map (map (map_option pb_Name)) (sp_runs (abstraction s)) = [[Some ''p'']]"
proof -
  have "map_option (\<lambda>s. (sy_panic s, gh_stages_taken s 0, gh_stages_taken s 1, map (map pb_Name) (gh_started s)))
      (run_actions probing_env probing_run (wired 0)) = Some (None, 1, 1, [[''p'']])" by code_simp
  then obtain s where s: "reachable probing_env 0 s" "(sy_panic s, gh_stages_taken s 0, gh_stages_taken s 1, map (map pb_Name) (gh_started s))
      = (None, 1, 1, [[''p'']])" by (rule run_wired)
  from s(2) have "sp_applied (abstraction s) GEgress = 1" "sp_applied (abstraction s) GIngress = 1"
    "map (map (map_option pb_Name)) (sp_runs (abstraction s)) = [[Some ''p'']]"
    by (auto simp: abstraction_def stage_channel_def)
  from program_refines_specification [OF s(1)] s(2)
  have "(spec_step (egress_of probing_env) (ingress_of probing_env))\<^sup>*\<^sup>* spec_init (abstraction s)" by simp
  show ?thesis by (intro exI [of _ s] conjI) fact+
qed

text \<open>C16: The probes that are ever started are configured ones: the probes started at a tick are none, or
  all those that a configuration which egress has applied describes, in order.\<close>

theorem probes_started_configured:
  assumes "reachable env now s" and "sy_panic s = None" and "ps \<in> set (gh_started s)"
  shows "ps = [] \<or> (\<exists>k < gh_stages_taken s 0. k < length (gh_sent s 0)
    \<and> map Some ps = configured_probes (se_metrics env) (se_regexp env) (Egress (gh_sent s 0 ! k)))"
proof -
  from reachable_in_force [OF assms(1,2)] have "spec_lag (abstraction s)" and "\<forall>qs \<in> set (sp_runs (abstraction s)). qs = []
      \<or> (\<exists>k < sp_applied (abstraction s) GEgress. qs = egress_of env (sp_log (abstraction s) ! k))"
    by (simp_all add: spec_in_force_def)
  moreover have "map Some ps \<in> set (sp_runs (abstraction s))" using assms(3) by (simp add: abstraction_def)
  ultimately show ?thesis
    by (fastforce simp: abstraction_def egress_of_def stage_channel_def spec_lag_def all_goroutines)
qed

theorem probes_started_configured_witness:
  "\<exists>s ps. reachable probing_env 0 s \<and> gh_started s = [ps] \<and> map pb_Name ps = [''p'']
     \<and> map Some ps = configured_probes example_api equality_regexp (Egress (gh_sent s 0 ! 0))"
proof -
  have "map_option (\<lambda>s. (sy_panic s, gh_stages_taken s 0, map (map pb_Name) (gh_started s)))
      (run_actions probing_env probing_run (wired 0)) = Some (None, 1, [[''p'']])" by code_simp
  then obtain s where s: "reachable probing_env 0 s" "(sy_panic s, gh_stages_taken s 0, map (map pb_Name) (gh_started s))
      = (None, 1, [[''p'']])" by (rule run_wired)
  then obtain ps where ps: "gh_started s = [ps]" "map pb_Name ps = [''p'']" by auto
  with s probes_started_configured [of probing_env 0 s ps] show ?thesis
    by (auto simp: probing_env_def example_sys_env_def)
qed

text \<open>C18: What is in force is never far behind what was read: egress has applied all but at most two of
  the configurations that have been given out, ingress all but at most three.\<close>

theorem configuration_lag:
  assumes "reachable env now s" and "sy_panic s = None"
  shows "gh_stages_taken s 0 \<le> length (gh_sent s 0) \<and> length (gh_sent s 0) \<le> gh_stages_taken s 0 + 2
    \<and> gh_stages_taken s 1 \<le> length (gh_sent s 0) \<and> length (gh_sent s 0) \<le> gh_stages_taken s 1 + 3"
proof -
  from reachable_in_force [OF assms] have "spec_lag (abstraction s)" by (simp add: spec_in_force_def)
  then show ?thesis by (simp add: spec_lag_def all_goroutines abstraction_def stage_channel_def)
qed

theorem configuration_lag_witness:
  "\<exists>s. reachable example_sys_env 0 s \<and> length (gh_sent s 0) = 2 \<and> gh_stages_taken s 1 = 1
     \<and> length (gh_sent s 0) \<le> gh_stages_taken s 1 + 3"
proof -
  have "map_option (\<lambda>s. (sy_panic s, length (gh_sent s 0), gh_stages_taken s 1))
      (run_actions example_sys_env (start_all @ first_configuration @ second_configuration) (wired 0))
    = Some (None, 2, 1)" by code_simp
  then obtain s where "reachable example_sys_env 0 s" "(sy_panic s, length (gh_sent s 0), gh_stages_taken s 1) = (None, 2, 1)"
    by (rule run_wired)
  with configuration_lag [of example_sys_env 0 s] show ?thesis by auto
qed

end
