(* ===== verification/System_Progress.thy ===== *)
theory System_Progress
  imports Refinement
begin

text \<open>
  What the program does with a configuration until it is in force everywhere, in whatever order the
  goroutines take their steps: it never stops halfway.
\<close>

section \<open>The steps that pass configurations on\<close>

fun flow_action :: "'r action \<Rightarrow> bool" where
  "flow_action ConfigSend = True"
| "flow_action (ConfigWatch _) = True"
| "flow_action EgressTake = True"
| "flow_action (EgressApply _) = True"
| "flow_action IngressTake = True"
| "flow_action IngressApply = True"
| "flow_action (TelemetryTake _) = True"
| "flow_action TelemetrySend = True"
| "flow_action SignalsTake = True"
| "flow_action _ = False"

text \<open>The steps in which the config package reads the file and the signals package receives a signal.\<close>

fun interrupts :: "'r action \<Rightarrow> bool" where
  "interrupts (ConfigStart _ _) = True"
| "interrupts (ConfigEvent _) = True"
| "interrupts (SignalsReceive _) = True"
| "interrupts _ = False"

text \<open>How many steps are left for a configuration in a channel: egress and ingress take and apply it,
  signals takes it, telemetry takes it and has two stage messages to send. After the first configuration config also
  makes the watcher.\<close>

definition steps_left :: "nat \<Rightarrow> nat" where
  "steps_left i = (if i < 2 then 2 else if i = 2 then 1 else 4)"

definition work :: "'r system \<Rightarrow> nat" where
  "work s = (case pc_config s of
       ConfigSending sends \<Rightarrow> Suc (sum_list (map (\<lambda>(i, c). Suc (steps_left i)) sends)) + (if sy_watching s then 0 else 1)
     | ConfigWatcher \<Rightarrow> 1
     | _ \<Rightarrow> 0)
     + (case pc_telemetry s of TelemetrySending sends \<Rightarrow> Suc (length sends) | _ \<Rightarrow> 0)
     + waiting 0 s + waiting 1 s + (\<Sum>i<4. length (ch_config s i) * steps_left i)"

text \<open>All goroutines run and no signal has been received.\<close>

definition flowing :: "'r system \<Rightarrow> bool" where
  "flowing s \<longleftrightarrow> sy_panic s = None \<and> sy_main s = 10 \<and> gh_signals s = 0"

lemma sum_4: "(\<Sum>i<(4::nat). f i) = f 0 + f 1 + f 2 + (f 3 :: nat)"
  by (simp add: numeral_eq_Suc)

lemma flowing_running:
  assumes "reachable env now s" and "flowing s"
  shows "pc_config s = ConfigStarting \<or> (\<exists>sends. pc_config s = ConfigSending sends) \<or> pc_config s = ConfigWatcher
      \<or> pc_config s = ConfigLoop"
    and "pc_egress s = EgressIdle \<or> (\<exists>c. pc_egress s = EgressStage c)"
    and "pc_ingress s = IngressIdle \<or> (\<exists>c. pc_ingress s = IngressStage c)"
    and "pc_telemetry s = TelemetryIdle \<or> (\<exists>sends. pc_telemetry s = TelemetrySending sends)"
    and "pc_signals s = SignalsIdle"
proof -
  from reachable_inv_wg [OF assms(1)] assms(2)
  have new: "pc_config s \<noteq> ConfigNew" "pc_egress s \<noteq> EgressNew" "pc_ingress s \<noteq> IngressNew"
    "pc_telemetry s \<noteq> TelemetryNew" "pc_signals s \<noteq> SignalsNew"
    by (simp_all add: inv_wg_def flowing_def)
  from inv_signal_reachable [OF assms(1)] assms(2) new(5)
  have old: "pc_config s \<noteq> ConfigDone" "pc_egress s \<noteq> EgressDone" "pc_ingress s \<noteq> IngressDone"
    "pc_telemetry s \<noteq> TelemetryDone" and "pc_signals s = SignalsIdle"
    by (simp_all add: inv_signal_def flowing_def split: if_splits)
  then show "pc_signals s = SignalsIdle" by simp
  from new old show "pc_config s = ConfigStarting \<or> (\<exists>sends. pc_config s = ConfigSending sends) \<or> pc_config s = ConfigWatcher
      \<or> pc_config s = ConfigLoop"
    "pc_egress s = EgressIdle \<or> (\<exists>c. pc_egress s = EgressStage c)"
    "pc_ingress s = IngressIdle \<or> (\<exists>c. pc_ingress s = IngressStage c)"
    "pc_telemetry s = TelemetryIdle \<or> (\<exists>sends. pc_telemetry s = TelemetrySending sends)"
    by (cases "pc_config s"; cases "pc_egress s"; cases "pc_ingress s"; cases "pc_telemetry s"; simp)+
qed

lemma config_sending_index:
  assumes "reachable env now s" and "sy_panic s = None" and "pc_config s = ConfigSending ((i, c) # sends)"
  shows "i < 4"
proof -
  from inv_config_reachable [OF assms(1)] assms(2) obtain cs d j where "configs_pending (pc_config s) d j"
    by (rule inv_configE)
  with assms(3) show ?thesis by (simp add: map_upt_eq_Cons)
qed

lemmas work_defs = work_def waiting_def flowing_def steps_left_def sum_4

lemma or_panic_Inr: "or_panic (Inr x) f s = f x"
  by (simp add: or_panic_def)

lemma or_panic_ok: "sy_panic (or_panic r f s) = None \<Longrightarrow> \<exists>x. r = Inr x"
  by (cases r) (simp_all add: or_panic_def)

text \<open>Each of these steps takes one off the work.\<close>

lemma work_send:
  assumes "reachable env now s" and "flowing s" and "config_send s = Some s'"
  shows "flowing s' \<and> work s = Suc (work s')"
proof -
  from assms(2) have "sy_panic s = None" by (simp add: flowing_def)
  from assms(3) consider "pc_config s = ConfigSending []" "s' = s\<lparr>pc_config := (if sy_watching s then ConfigLoop else ConfigWatcher)\<rparr>"
    | i c sends where "pc_config s = ConfigSending ((i, c) # sends)" "ch_config s i = []"
        "s' = s\<lparr>ch_config := (ch_config s)(i := [c]), gh_sent := (gh_sent s)(i := gh_sent s i @ [c]),
          pc_config := ConfigSending sends\<rparr>"
    by (auto simp: config_send_def chan_send_eq_Some split: config_pc.splits list.splits)
  then show ?thesis
  proof cases
    case 1
    with assms(2) show ?thesis by (simp add: work_defs)
  next
    case (2 i c sends)
    then have "i = 0 \<or> i = 1 \<or> i = 2 \<or> i = 3" using config_sending_index [OF assms(1) \<open>sy_panic s = None\<close>] by force
    with 2 assms(2) show ?thesis by (elim disjE) (simp_all add: work_defs)
  qed
qed

lemma work_watcher:
  assumes "flowing s" and "sy_panic s' = None" and "config_watcher err s = Some s'"
  shows "flowing s' \<and> work s = Suc (work s')"
proof -
  from assms(2,3) obtain st where "pc_config s = ConfigWatcher" "s' = s\<lparr>sy_config := st, sy_watching := True, pc_config := ConfigLoop\<rparr>"
    by (auto simp: config_watcher_def or_panic_Inr split: if_splits dest!: or_panic_ok)
  with assms(1) show ?thesis by (simp add: work_defs)
qed

lemma work_take:
  assumes "flowing s"
  shows "egress_take s = Some s' \<Longrightarrow> flowing s' \<and> work s = Suc (work s')"
    and "ingress_take s = Some s' \<Longrightarrow> flowing s' \<and> work s = Suc (work s')"
    and "signals_take env s = Some s' \<Longrightarrow> flowing s' \<and> work s = Suc (work s')"
  using assms
  by (auto simp: egress_take_def ingress_take_def signals_take_def take_defs work_defs split: if_splits)

lemma work_telemetry:
  assumes "flowing s" and "sy_panic s' = None"
  shows "telemetry_take tenv s = Some s' \<Longrightarrow> flowing s' \<and> work s = Suc (work s')"
    and "telemetry_send s = Some s' \<Longrightarrow> flowing s' \<and> work s = Suc (work s')"
proof -
  assume "telemetry_take tenv s = Some s'"
  with assms(2) obtain c ch ctl st ms sends where "pc_telemetry s = TelemetryIdle" "ch_config s 3 = c # ch"
    and step: "GoTelemetry_step tenv configStageListeners (TelemetryConfigUpdate c) (sy_telemetry s) (sy_metrics s)
      = Inr (ctl, st, ms, sends)"
    and "s' = s\<lparr>ch_config := (ch_config s)(3 := ch), gh_taken := (gh_taken s)(3 := gh_taken s 3 @ [c]), sy_telemetry := st,
      sy_metrics := ms, gh_completed := Suc (gh_completed s), pc_telemetry := TelemetrySending sends\<rparr>"
    by (auto simp: telemetry_take_def take_defs or_panic_Inr simp del: GoTelemetry_step.simps
        split: if_splits dest!: or_panic_ok)
  moreover from GoTelemetry_update_sends [OF step] have "length sends = 2" by (simp add: configStageListeners_eq)
  ultimately show "flowing s' \<and> work s = Suc (work s')" using assms(1) by (simp add: work_defs)
next
  assume "telemetry_send s = Some s'"
  with assms(1) show "flowing s' \<and> work s = Suc (work s')"
    by (auto simp: telemetry_send_def chan_send_eq_Some work_defs split: telemetry_pc.splits list.splits)
qed

lemma work_apply_egress:
  assumes "flowing s" and "sy_panic s' = None" and "egress_apply env t s = Some s'"
  shows "flowing s' \<and> work s = Suc (work s')"
proof -
  from assms(2,3) obtain c ch st ms where "pc_egress s = EgressStage c" "s' = s\<lparr>ch_stage := (ch_stage s)(0 := ch),
      gh_stages_taken := (gh_stages_taken s)(0 := Suc (gh_stages_taken s 0)), sy_egress := st, sy_metrics := ms,
      gh_applied := (gh_applied s)(0 := gh_applied s 0 @ [c]), pc_egress := EgressIdle\<rparr>"
    by (auto simp: egress_apply_def take_defs or_panic_Inr simp del: GoEgress_step.simps
        split: egress_pc.splits dest!: or_panic_ok)
  with assms(1) show ?thesis by (simp add: work_defs)
qed

lemma work_apply_ingress:
  assumes "reachable env now s" and "flowing s" and "sy_panic s' = None" and "ingress_apply env s = Some s'"
  shows "flowing s' \<and> work s = Suc (work s')"
proof -
  from assms(3,4) obtain c stage ch ctl st ms where i: "pc_ingress s = IngressStage c" "ch_stage s 1 = stage # ch"
    "GoIngress_step (se_metrics env) (se_fraction env) (IngressConfigUpdate c (Some stage)) (sy_ingress s) (sy_metrics s)
      = Inr (ctl, st, ms)" "ctl = Continue \<longrightarrow> s' = s\<lparr>ch_stage := (ch_stage s)(1 := ch),
      gh_stages_taken := (gh_stages_taken s)(1 := Suc (gh_stages_taken s 1)), sy_ingress := st, sy_metrics := ms,
      gh_applied := (gh_applied s)(1 := gh_applied s 1 @ [c]), pc_ingress := IngressIdle\<rparr>"
    by (auto simp: ingress_apply_def take_defs or_panic_Inr simp del: GoIngress_step.simps
        split: ingress_pc.splits dest!: or_panic_ok)
  then have "waiting 1 s = 1" by (simp add: waiting_def)
  moreover from assms(1,2) have "good env now s" by (simp add: good_def flowing_def)
  ultimately have "stage = ConfigStageTelemetryCompleted" using can_apply(3) [of env now s 1 stage ch] i(2) by simp
  with i(3) GoIngress_completed have "ctl = Continue" by (cases ctl) blast+
  with i assms(2) show ?thesis by (simp add: work_defs)
qed

lemma work_step:
  assumes "reachable env now s" and "flowing s" and "flow_action a" and "sys_step env a s = Some s'" and "sy_panic s' = None"
  shows "flowing s' \<and> work s = Suc (work s')"
proof -
  from assms(4) have "act_step env a s = Some s'" by (simp add: sys_step_eq_Some)
  then show ?thesis
    using assms(3) work_send [OF assms(1,2)] work_watcher [OF assms(2,5)] work_take [OF assms(2)] work_telemetry [OF assms(2,5)]
      work_apply_egress [OF assms(2,5)] work_apply_ingress [OF assms(1,2,5)]
    by (cases a) simp_all
qed

text \<open>Ticks and signals of the operating system change nothing of it, and no goroutine can end.\<close>

lemma flow_other_step:
  assumes "reachable env now s" and "flowing s" and "\<not> flow_action a" and "\<not> interrupts a" and "sys_step env a s = Some s'"
  shows "flowing s' \<and> work s' = work s"
proof -
  note run = flowing_running [OF assms(1,2)]
  from assms(2,5) have s: "sy_main s = 10" "act_step env a s = Some s'" by (simp_all add: flowing_def sys_step_eq_Some)
  from inv_signal_reachable [OF assms(1)] assms(2) have "ch_signal s i = []" for i by (simp add: inv_signal_def flowing_def)
  then have none: "take_signal i s = None" for i by (simp add: take_signal_def)
  show ?thesis
  proof (cases a)
    case MainStep
    from run(5) have "dones s < 5" by (simp add: dones_less)
    with reachable_inv_wg [OF assms(1)] s(1) have "sy_wg s \<noteq> 0" by (simp add: inv_wg_def)
    with MainStep s show ?thesis by (simp add: main_step_def)
  next
    case (EgressTicked t)
    with s(2) obtain ps where "s' = s\<lparr>gh_started := gh_started s @ [ps]\<rparr>"
      by (auto simp: egress_tick_def or_panic_def split: if_splits)
    with assms(2) show ?thesis by (simp add: work_defs)
  next
    case (OSSignal sg)
    with s(2) consider "s' = s" | ch where "s' = s\<lparr>ch_os := ch\<rparr>"
      by (auto simp: os_notify_def split: if_splits option.splits)
    then show ?thesis using assms(2) by cases (simp_all add: work_defs)
  qed (use assms(3,4) s(2) none run(5) in \<open>simp_all add: config_stop_def egress_stop_def ingress_stop_def
      telemetry_stop_def signals_send_def split: if_splits\<close>)
qed

section \<open>There is always a next step\<close>

lemma flow_enabled:
  assumes "flowing s"
  shows "pc_egress s = EgressIdle \<Longrightarrow> ch_config s 0 \<noteq> [] \<Longrightarrow> sys_step env EgressTake s \<noteq> None"
    and "pc_egress s = EgressStage c \<Longrightarrow> ch_stage s 0 \<noteq> [] \<Longrightarrow> sys_step env (EgressApply t) s \<noteq> None"
    and "pc_ingress s = IngressIdle \<Longrightarrow> ch_config s 1 \<noteq> [] \<Longrightarrow> sys_step env IngressTake s \<noteq> None"
    and "pc_ingress s = IngressStage c \<Longrightarrow> ch_stage s 1 \<noteq> [] \<Longrightarrow> sys_step env IngressApply s \<noteq> None"
    and "pc_telemetry s = TelemetryIdle \<Longrightarrow> ch_config s 3 \<noteq> [] \<Longrightarrow> sys_step env (TelemetryTake tenv) s \<noteq> None"
    and "pc_signals s = SignalsIdle \<Longrightarrow> ch_config s 2 \<noteq> [] \<Longrightarrow> sys_step env SignalsTake s \<noteq> None"
    and "pc_telemetry s = TelemetrySending [] \<Longrightarrow> sys_step env TelemetrySend s \<noteq> None"
    and "pc_telemetry s = TelemetrySending ((i, st) # sends) \<Longrightarrow> ch_stage s i = [] \<Longrightarrow> sys_step env TelemetrySend s \<noteq> None"
    and "pc_config s = ConfigSending [] \<Longrightarrow> sys_step env ConfigSend s \<noteq> None"
    and "pc_config s = ConfigSending ((j, d) # ds) \<Longrightarrow> ch_config s j = [] \<Longrightarrow> sys_step env ConfigSend s \<noteq> None"
    and "pc_config s = ConfigWatcher \<Longrightarrow> sys_step env (ConfigWatch err) s \<noteq> None"
  using assms
  by (auto simp: flowing_def sys_step_def egress_take_def egress_apply_def ingress_take_def ingress_apply_def telemetry_take_def
      signals_take_def telemetry_send_def config_send_def config_watcher_def take_config_def take_stage_def neq_Nil_conv)

text \<open>When no package can go on, telemetry is not sending, \<open>config\<close> is not sending, and nothing is left.\<close>

definition stuck :: "'r system \<Rightarrow> bool" where
  "stuck s \<longleftrightarrow> (\<forall>i<2. waiting i s = 1 \<and> ch_stage s i = [] \<or> waiting i s = 0 \<and> ch_config s i = [])
     \<and> (pc_telemetry s = TelemetryIdle \<longrightarrow> ch_config s 3 = []) \<and> ch_config s 2 = [] \<and> pc_config s \<noteq> ConfigWatcher
     \<and> (\<forall>sends. pc_telemetry s = TelemetrySending sends \<longrightarrow> (\<exists>i st rest. sends = (i, st) # rest \<and> ch_stage s i \<noteq> []))
     \<and> (\<forall>sends. pc_config s = ConfigSending sends \<longrightarrow> (\<exists>i c rest. sends = (i, c) # rest \<and> ch_config s i \<noteq> []))"

lemma not_enabled_stuck:
  assumes "reachable env now s" and "flowing s" and "\<forall>a. flow_action a \<longrightarrow> sys_step env a s = None"
  shows "stuck s"
proof -
  note run = flowing_running [OF assms(1,2)] and on = flow_enabled [OF assms(2), where env = env]
  have "waiting 0 s = 1 \<and> ch_stage s 0 = [] \<or> waiting 0 s = 0 \<and> ch_config s 0 = []"
    using on(1,2) assms(3) run(2) by (auto simp: waiting_def)
  moreover have "waiting 1 s = 1 \<and> ch_stage s 1 = [] \<or> waiting 1 s = 0 \<and> ch_config s 1 = []"
    using on(3,4) assms(3) run(3) by (auto simp: waiting_def)
  moreover have "pc_telemetry s = TelemetryIdle \<longrightarrow> ch_config s 3 = []" "ch_config s 2 = []" "pc_config s \<noteq> ConfigWatcher"
    using on(5,6,11) assms(3) run(5) by auto
  moreover have "\<exists>i st rest. sends = (i, st) # rest \<and> ch_stage s i \<noteq> []" if "pc_telemetry s = TelemetrySending sends" for sends
    using on(7,8) assms(3) that by (cases sends) auto
  moreover have "\<exists>i c rest. sends = (i, c) # rest \<and> ch_config s i \<noteq> []" if "pc_config s = ConfigSending sends" for sends
    using on(9,10) assms(3) that by (cases sends) auto
  ultimately show ?thesis by (auto simp: stuck_def less_2_cases_iff)
qed

lemma telemetry_sending_counts:
  assumes "good env now s" and "pc_telemetry s = TelemetrySending ((i, st) # sends)"
  shows "i < 2 \<and> Suc (gh_stages_sent s i) = gh_completed s"
proof -
  from assms(1) have "inv_stage s" "sy_panic s = None" by (auto simp: good_def intro: inv_stage_reachable)
  then obtain j where "stage_balance s j" "stages_pending (pc_telemetry s) j" by (auto simp: inv_stage_def)
  with assms(2) show ?thesis by (auto simp: stage_balance_def map_upt_eq_Cons configStageListeners_eq)
qed

lemma config_idle_counts:
  assumes "good env now s" and "\<And>sends. pc_config s \<noteq> ConfigSending sends" and "i < 4"
  shows "gh_sent s i = gh_sent s 0"
proof -
  from assms(1) have "inv_config s" "sy_panic s = None" by (auto simp: good_def intro: inv_config_reachable)
  then obtain cs c j where "configs_pending (pc_config s) c j" "config_history s cs c j" by (rule inv_configE)
  moreover from this(1) assms(2) have "j = 4" by (auto simp: configs_pending_def split: config_pc.splits)
  ultimately show ?thesis using assms(3) by (simp add: config_history_def)
qed

lemma stuck_telemetry:
  assumes "good env now s" and "stuck s" and "pc_telemetry s = TelemetrySending sends"
  shows False
proof -
  from assms(2,3) obtain i st rest where i: "sends = (i, st) # rest" "ch_stage s i \<noteq> []" by (auto simp: stuck_def)
  note n = good_counts(1,3-10) [OF assms(1), of i] and completed = good_counts(2) [OF assms(1)]
  from telemetry_sending_counts [OF assms(1)] assms(3) i(1)
  have c: "i < 2" "Suc (gh_stages_sent s i) = gh_completed s" by auto
  from assms(2) c(1) i(2) have "waiting i s = 0" "ch_config s i = []" by (auto simp: stuck_def)
  with n(1) [OF c(1)] n(2) have "length (gh_sent s i) = gh_stages_taken s i" by simp
  moreover from n(4) i(2) have "gh_stages_taken s i < gh_stages_sent s i" by (cases "ch_stage s i") auto
  moreover have "gh_completed s \<le> length (gh_sent s 0)"
    using completed good_counts(3,9) [OF assms(1), of 3] by simp
  ultimately show False using n(9) c by simp
qed

lemma stuck_config:
  assumes "good env now s" and "stuck s" and "pc_telemetry s = TelemetryIdle" and "pc_config s = ConfigSending sends"
  shows False
proof -
  from assms(2,4) obtain i c rest where i: "sends = (i, c) # rest" "ch_config s i \<noteq> []" by (auto simp: stuck_def)
  note n = good_counts(1,3-10) [OF assms(1), of i] and completed = good_counts(2) [OF assms(1)]
  have empty: "ch_config s 2 = []" "ch_config s 3 = []" using assms(2,3) by (simp_all add: stuck_def)
  from config_sending_index assms(1,4) i(1) have "i < 4" by (auto simp: good_def)
  moreover have "i \<noteq> 2" "i \<noteq> 3" using i(2) empty by auto
  ultimately have "i < 2" by simp
  with assms(2) i(2) have "waiting i s = 1" "ch_stage s i = []" by (auto simp: stuck_def)
  with n(1,7) n(4) \<open>i < 2\<close> assms(3) have "length (gh_taken s i) = Suc (gh_completed s)" by simp
  moreover have "length (gh_sent s i) \<ge> Suc (length (gh_taken s i))" using n(2) i(2) by (cases "ch_config s i") auto
  moreover have "length (gh_sent s 3) = gh_completed s" using completed good_counts(3) [OF assms(1), of 3] empty by simp
  ultimately show False using good_counts(10) [OF assms(1), of 3] n(8) \<open>i < 4\<close> by simp
qed

lemma stuck_settled:
  assumes "reachable env now s" and "flowing s" and "stuck s"
  shows "work s = 0"
proof -
  from assms(1,2) have good: "good env now s" by (simp add: good_def flowing_def)
  have tel: "pc_telemetry s = TelemetryIdle" using flowing_running(4) [OF assms(1,2)] stuck_telemetry [OF good assms(3)] by auto
  have cfg: "pc_config s \<noteq> ConfigSending sends" for sends using stuck_config [OF good assms(3) tel] by auto
  have empty: "ch_config s 2 = []" "ch_config s 3 = []" using assms(3) tel by (simp_all add: stuck_def)
  have "waiting i s = 0 \<and> ch_config s i = []" if "i < 2" for i
  proof (rule ccontr)
    note n = good_counts(1,3-10) [OF good, of i] and completed = good_counts(2) [OF good]
    assume "\<not> (waiting i s = 0 \<and> ch_config s i = [])"
    with assms(3) that have "waiting i s = 1" "ch_stage s i = []" by (auto simp: stuck_def)
    with n(1,7) n(4) that tel have "length (gh_taken s i) = Suc (gh_completed s)" by simp
    moreover have "length (gh_taken s i) \<le> length (gh_sent s 3)"
      using n(2) config_idle_counts [OF good cfg, of i] config_idle_counts [OF good cfg, of 3] that by simp
    ultimately show False using completed good_counts(3) [OF good, of 3] empty by simp
  qed
  from this [of 0] this [of 1] empty tel cfg assms(3) [unfolded stuck_def] show ?thesis
    by (simp add: work_def sum_4 split: config_pc.split)
qed

lemma run_panic: "run_actions env as s = Some s' \<Longrightarrow> sy_panic s' = None \<Longrightarrow> sy_panic s = None"
  by (cases as) (auto simp: sys_step_eq_Some split: option.splits)

lemma flow_run:
  assumes "reachable env now s" and "flowing s" and "list_all (\<lambda>a. \<not> interrupts a) as" and "run_actions env as s = Some s'"
    and "sy_panic s' = None"
  shows "reachable env now s' \<and> flowing s' \<and> length (filter flow_action as) + work s' = work s"
  using assms
proof (induction as arbitrary: s)
  case (Cons a as)
  then obtain s1 where s1: "sys_step env a s = Some s1" "run_actions env as s1 = Some s'"
    by (auto split: option.splits)
  have "flowing s1 \<and> work s = (if flow_action a then Suc (work s1) else work s1)"
  proof (cases "flow_action a")
    case True
    with work_step [OF Cons.prems(1,2) True s1(1) run_panic [OF s1(2) Cons.prems(5)]] show ?thesis by simp
  next
    case False
    with flow_other_step [OF Cons.prems(1,2) False _ s1(1)] Cons.prems(3) show ?thesis by simp
  qed
  with Cons.IH [of s1] Cons.prems s1 show ?case by (auto intro: reach_step)
qed simp

lemma settled:
  assumes "good env now s" and "work s = 0"
  shows "(\<forall>i<4. gh_taken s i = gh_sent s 0) \<and> gh_stages_taken s 0 = length (gh_sent s 0)
    \<and> gh_stages_taken s 1 = length (gh_sent s 0)"
proof -
  from assms(2) have zero: "waiting 0 s = 0" "waiting 1 s = 0" "(\<Sum>i<4. length (ch_config s i) * steps_left i) = 0"
    and config: "\<And>sends. pc_config s \<noteq> ConfigSending sends"
    by (auto simp: work_def split: config_pc.splits)
  have taken: "gh_taken s i = gh_sent s 0" if "i < 4" for i
  proof -
    have "ch_config s i = []" using zero(3) that by (auto simp: steps_left_def split: if_splits)
    then show ?thesis using good_counts(3) [OF assms(1), of i] config_idle_counts [OF assms(1) config that] by simp
  qed
  with good_counts(1) [OF assms(1), of 0] good_counts(1) [OF assms(1), of 1] zero(1,2) show ?thesis by simp
qed

section \<open>The shape of the state\<close>

text \<open>The channels that \<open>main\<close> has made are the only ones in use, and they hold one value at most.\<close>

definition inv_channels :: "'r system \<Rightarrow> bool" where
  "inv_channels s \<longleftrightarrow> (sy_panic s = None \<longrightarrow> length (ch_os s) \<le> 1 \<and> (\<forall>i. length (ch_signal s i) \<le> 1)
     \<and> (\<forall>i\<ge>4. ch_config s i = [] \<and> ch_signal s i = []) \<and> (\<forall>i\<ge>2. ch_stage s i = []))"

lemma signals_sending_index:
  assumes "good env now s" and "pc_signals s = SignalsSending ((i, sg) # sends)"
  shows "i < 4"
proof -
  from assms have "signal_pending (SignalsSending ((i, sg) # sends)) (ch_signal s)"
    using inv_signal_reachable [of env now s] by (simp add: good_def inv_signal_def)
  from signal_pendingD [OF this] show ?thesis by (auto simp: map_upt_eq_Cons)
qed

lemma inv_channels_transition:
  assumes "transition env s s'" and "inv_channels s" and "good env now s"
  shows "inv_channels s'"
proof -
  from assms(2,3) have len: "length (ch_signal s i) \<le> 1" for i by (simp add: inv_channels_def good_def)
  have tail: "ch_signal s i = sg # ch \<Longrightarrow> ch = []" for i sg ch using len [of i] by simp
  from assms(1) show ?thesis
  proof (cases rule: transition.cases)
    case tr_main
    from main_step_frame [OF tr_main] assms(2) show ?thesis by (simp add: inv_channels_def main_frame_def)
  next
    case (tr_config_send i c sends)
    from assms(3) config_sending_index [of env now s] tr_config_send(2) have "i < 4" by (simp add: good_def)
    with tr_config_send assms(2) show ?thesis by (auto simp: inv_channels_def)
  next
    case (tr_telemetry_send i stage sends)
    from telemetry_sending_counts [OF assms(3) tr_telemetry_send(2)] tr_telemetry_send assms(2) show ?thesis
      by (auto simp: inv_channels_def)
  next
    case (tr_signals_send i sg sends)
    from signals_sending_index [OF assms(3) tr_signals_send(2)] tr_signals_send assms(2) show ?thesis
      by (auto simp: inv_channels_def)
  qed (use assms(2,3) in \<open>auto simp: inv_channels_def crashed_def good_def dest!: sy_panic_wg_done tail\<close>)
qed

lemma inv_channels_reachable: "reachable env now s \<Longrightarrow> inv_channels s"
proof (induction rule: reachable.induct)
  case (reach_step s a s')
  from sys_transition [OF reach_step(2)] have "transition env s s'" "good env now s" using reach_step(1) by (simp_all add: good_def)
  from inv_channels_transition [OF this(1) reach_step.IH this(2)] show ?case .
qed (simp add: inv_channels_def wired_def)

text \<open>A well-formed state: \<open>main\<close> is at one of its points, the counter of the wait group is what the
  goroutines that were counted and have not ended amount to, the channels hold no more than their
  capacity and are those that are listened to, every probe can be run, and the path of every health
  endpoint starts with a slash.\<close>

definition well_formed :: "'r system \<Rightarrow> bool" where
  "well_formed s \<longleftrightarrow> sy_main s \<le> 11 \<and> 0 \<le> sy_wg s \<and> sy_wg s = int (min 5 (sy_main s div 2)) - dones s
     \<and> (\<forall>i. length (ch_config s i) \<le> chan_capacity \<and> length (ch_stage s i) \<le> chan_capacity \<and> length (ch_signal s i) \<le> chan_capacity)
     \<and> length (ch_os s) \<le> chan_capacity
     \<and> (\<forall>i\<ge>configUpdateChannels (sy_config s). ch_config s i = []) \<and> (\<forall>i\<ge>osSignalListenerChannels (sy_signals s). ch_signal s i = [])
     \<and> (\<forall>i\<ge>configStageListeners. ch_stage s i = [])
     \<and> (\<forall>p \<in> set (probes (sy_egress s)). pb_ProbeAction p \<noteq> None)
     \<and> (\<forall>e \<in> set (healthEndpoints (sy_ingress s)). starts_with ''/'' (he_Path e))"

lemma reachable_paths:
  assumes "reachable env now s" and "sy_panic s = None" and "e \<in> set (healthEndpoints (sy_ingress s))"
  shows "starts_with ''/'' (he_Path e)"
proof -
  from reachable_in_force [OF assms(1,2)] have "sp_served (abstraction s) = []
      \<or> (\<exists>c. sp_served (abstraction s) = ingress_of env c)"
    by (auto simp: spec_in_force_def split: nat.splits)
  moreover from assms(3) have "endpoint_spec e \<in> set (sp_served (abstraction s))" by (simp add: abstraction_def)
  ultimately obtain hcs where "endpoint_spec e \<in> set (endpoint_specs (se_fraction env) hcs)" by (auto simp: ingress_of_def)
  then show ?thesis
    by (auto simp: endpoint_spec_def endpoint_specs_iff ensureLeadingSlash_def starts_with_def)
qed

section \<open>Properties\<close>

text \<open>C2: A configuration that has been read reaches every package. Take a state in which \<open>main\<close> waits and no signal
  has been received, and any steps of the goroutines and the operating system in any order (ticks and incoming signals
  included) among which the config package does not read the file again, the signals package does not
  receive a signal, and none panics. Each step that passes a configuration on takes one off the work that is left, the
  others leave it as it is, and as long as some is left one of these steps can be taken. When none is left, every
  package has taken all configurations, egress and ingress have applied all of them, and they run the last one.\<close>

theorem configurations_settle:
  assumes "reachable env now s" and "flowing s" and "list_all (\<lambda>a. \<not> interrupts a) as" and "run_actions env as s = Some s'"
    and "sy_panic s' = None"
  shows "length (filter flow_action as) + work s' = work s
    \<and> (work s' \<noteq> 0 \<longrightarrow> (\<exists>a. flow_action a \<and> sys_step env a s' \<noteq> None))
    \<and> (work s' = 0 \<longrightarrow> (\<forall>i<4. gh_taken s' i = gh_sent s' 0) \<and> gh_applied s' 0 = gh_sent s' 0 \<and> gh_applied s' 1 = gh_sent s' 0
         \<and> egress_in_force env (gh_sent s' 0) (sy_egress s') \<and> ingress_in_force env (gh_sent s' 0) (sy_ingress s'))"
proof -
  from flow_run [OF assms] have s': "reachable env now s'" "flowing s'" "length (filter flow_action as) + work s' = work s"
    by simp_all
  then have good: "good env now s'" by (simp add: good_def flowing_def)
  have "work s' \<noteq> 0 \<longrightarrow> (\<exists>a. flow_action a \<and> sys_step env a s' \<noteq> None)"
    using not_enabled_stuck [OF s'(1,2)] stuck_settled [OF s'(1,2)] by metis
  moreover have "gh_applied s' 0 = gh_sent s' 0" "gh_applied s' 1 = gh_sent s' 0"
      "egress_in_force env (gh_sent s' 0) (sy_egress s')" "ingress_in_force env (gh_sent s' 0) (sy_ingress s')" if "work s' = 0"
  proof -
    from settled [OF good that] applied_taken [OF s'(1) assms(5), of 0] applied_taken [OF s'(1) assms(5), of 1]
    show "gh_applied s' 0 = gh_sent s' 0" "gh_applied s' 1 = gh_sent s' 0" by simp_all
    with inv_in_force_reachable [OF s'(1)] assms(5)
    show "egress_in_force env (gh_sent s' 0) (sy_egress s')" "ingress_in_force env (gh_sent s' 0) (sy_ingress s')"
      unfolding inv_in_force_def by auto
  qed
  ultimately show ?thesis using s'(3) settled [OF good] by blast
qed

theorem configurations_settle_witness:
  "\<exists>s s'. reachable probing_env 0 s \<and> work s = 15
     \<and> run_actions probing_env (OSSignal SIGINT # EgressTicked 1 # drop 1 first_configuration) s = Some s' \<and> work s' = 0
     \<and> length (gh_applied s' 0) = 1 \<and> egress_in_force probing_env (gh_sent s' 0) (sy_egress s')
     \<and> map pb_Name (probes (sy_egress s')) = [''p'']"
proof -
  let ?flow = "OSSignal SIGINT # EgressTicked 1 # drop 1 first_configuration"
  have "map_option (\<lambda>s. (flowing s, work s,
        map_option (\<lambda>s'. (sy_panic s', length (gh_applied s' 0), map pb_Name (probes (sy_egress s')))) (run_actions probing_env ?flow s)))
      (run_actions probing_env (start_all @ take 1 first_configuration) (wired 0))
    = Some (True, 15, Some (None, 1, [''p'']))" by code_simp
  then obtain s where s: "reachable probing_env 0 s" "(flowing s, work s,
        map_option (\<lambda>s'. (sy_panic s', length (gh_applied s' 0), map pb_Name (probes (sy_egress s')))) (run_actions probing_env ?flow s))
      = (True, 15, Some (None, 1, [''p'']))" by (rule run_wired)
  then obtain s' where s': "run_actions probing_env ?flow s = Some s'" "sy_panic s' = None" "length (gh_applied s' 0) = 1"
    "map pb_Name (probes (sy_egress s')) = [''p'']" by (auto simp del: run_actions.simps)
  have "list_all (\<lambda>a. \<not> interrupts a) ?flow" "length (filter flow_action ?flow) = 15"
    by (simp_all add: first_configuration_def list_all_iff)
  with configurations_settle [OF s(1) _ this(1) s'(1,2)] s s' show ?thesis by auto
qed

text \<open>C17: Every state the program can reach without a panic is well formed: \<open>main\<close> is at one of its points,
  the counter of the wait group is the number of goroutines that were counted and have not ended,
  no channel holds more than its capacity and only channels with a listener are used, every probe has
  an action and the path of every health endpoint starts with a slash.\<close>

theorem reachable_well_formed:
  assumes "reachable env now s" and "sy_panic s = None"
  shows "well_formed s"
proof -
  note inv = reachable_invs [OF assms(1)]
  have "sy_main s \<le> 11" "0 \<le> sy_wg s" "sy_wg s = int (min 5 (sy_main s div 2)) - dones s"
    using inv(1) assms(2) by (auto simp: inv_wg_def)
  moreover have "configUpdateChannels (sy_config s) = 4" "osSignalListenerChannels (sy_signals s) = 4"
    using inv(3,5) assms(2) by (simp_all add: inv_signal_def inv_config_def config_channels_def)
  moreover have "length (ch_config s i) \<le> 1" "length (ch_stage s i) \<le> 1" for i
    using good_counts(4,6) [of env now s i] assms by (simp_all add: good_def)
  moreover have "\<forall>p \<in> set (probes (sy_egress s)). pb_ProbeAction p \<noteq> None"
    using inv_probes_reachable [OF assms(1)] assms(2)
    by (auto simp: inv_probes_def performProbes_def filter_id_conv)
  ultimately show ?thesis
    using inv_channels_reachable [OF assms(1)] assms(2) reachable_paths [OF assms]
    by (simp add: well_formed_def inv_channels_def chan_capacity_def configStageListeners_eq)
qed

theorem reachable_well_formed_witness:
  "\<exists>s. reachable probing_env 0 s \<and> probes (sy_egress s) \<noteq> [] \<and> sy_wg s = 5 \<and> well_formed s"
proof -
  have "map_option (\<lambda>s. (sy_panic s, sy_wg s, map pb_Name (probes (sy_egress s))))
      (run_actions probing_env probing_run (wired 0)) = Some (None, 5, [''p''])" by code_simp
  then obtain s where "reachable probing_env 0 s" "(sy_panic s, sy_wg s, map pb_Name (probes (sy_egress s))) = (None, 5, [''p''])"
    by (rule run_wired)
  with reachable_well_formed [of probing_env 0 s] show ?thesis by auto
qed

end
