(* ===== verification/System_Panics.thy ===== *)
theory System_Panics
  imports System_Progress
begin

text \<open>
  When a goroutine of the program panics, which ends it: exactly the causes there are, for every step.
\<close>

section \<open>Configurations that can be applied\<close>

definition egress_usable :: "BunnyConfig \<Rightarrow> bool" where
  "egress_usable c \<longleftrightarrow> probes_ok (Egress c) \<and> period_ok (Egress c)"

definition ingress_usable :: "BunnyConfig \<Rightarrow> bool" where
  "ingress_usable c \<longleftrightarrow> (\<forall>hc \<in> set (hs_Health (in_HTTPServerConfig (Ingress c))). health_ok hc)
     \<and> routes_ok (in_HTTPServerConfig (Ingress c))"

text \<open>The registry refuses one of the collectors, registered in this order.\<close>

definition refused :: "'r metric_api \<Rightarrow> prom_desc list \<Rightarrow> 'r metrics_state \<Rightarrow> bool" where
  "refused api ds ms \<longleftrightarrow> (case PromRegistry ms of None \<Rightarrow> False
     | Some r \<Rightarrow> (case register_all api ds r of Inl p \<Rightarrow> True | Inr r' \<Rightarrow> False))"

definition telemetry_works :: "'r telemetry_env \<Rightarrow> BunnyConfig \<Rightarrow> bool" where
  "telemetry_works tenv c \<longleftrightarrow> (case tsdb_path tenv (Telemetry c) of Inl p \<Rightarrow> False
     | Inr path \<Rightarrow> env_NewActiveQueryTracker tenv path (pq_MaxConcurrentQueries (pr_PromQL (te_Prometheus (Telemetry c)))) = None)"

lemma egress_update_panics:
  assumes "PromRegistry ms \<noteq> None"
  shows "(\<exists>p. GoEgress_step api re (EgressConfigUpdate c (Some ConfigStageTelemetryCompleted) now) st ms = Inl p)
    \<longleftrightarrow> \<not> egress_usable c \<or> refused api (egress_descs api (Egress c)) ms"
proof -
  from assms obtain r where r: "PromRegistry ms = Some r" by auto
  show ?thesis
    by (cases "register_all api (egress_descs api (Egress c)) r")
      (auto simp: egress_updateConfig_eq [OF r] r refused_def egress_usable_def)
qed

lemma ingress_update_panics:
  assumes "PromRegistry ms \<noteq> None"
  shows "(\<exists>p. GoIngress_step api fr (IngressConfigUpdate c (Some ConfigStageTelemetryCompleted)) st ms = Inl p)
    \<longleftrightarrow> \<not> ingress_usable c \<or> refused api (ingress_descs api (in_HTTPServerConfig (Ingress c))) ms"
proof -
  from assms obtain r where r: "PromRegistry ms = Some r" by auto
  with GoIngress_update_total [OF r, of c api fr st, unfolded Let_def] show ?thesis
    by (auto simp: ingress_usable_def refused_def simp del: GoIngress_step.simps split: if_splits sum.splits)
qed

lemma telemetry_update_panics:
  "(\<exists>p. GoTelemetry_step tenv n (TelemetryConfigUpdate c) st ms = Inl p) \<longleftrightarrow> \<not> telemetry_works tenv c"
  by (auto simp: telemetry_works_def configureTelemetry_def Let_def go_bind_eq_Inl split: sum.splits option.splits)

lemma telemetry_signal_panics:
  "(\<exists>p. GoTelemetry_step tenv n TelemetrySignal st ms = Inl p)
    \<longleftrightarrow> meterProvider (ts_providers st) = None \<or> traceProvider (ts_providers st) = None"
  by (auto simp: shutdown_provider_def go_bind_eq_Inl deref_def split: option.splits)

lemma notify_panics: "0 < configUpdateChannels st \<Longrightarrow> (\<exists>p. notify_channels st = Inl p) \<longleftrightarrow> bunnyConfig st = None"
  by (cases "bunnyConfig st") (auto simp: notify_channels_None)

section \<open>The causes\<close>

text \<open>What must hold for a step to panic, for each step.\<close>

fun panic_cause :: "'r sys_env \<Rightarrow> 'r system \<Rightarrow> 'r action \<Rightarrow> bool" where
  "panic_cause env s (ConfigStart envVar content) \<longleftrightarrow> read_config (se_unmarshal env) content = None"
| "panic_cause env s (ConfigEvent e) \<longleftrightarrow> (case e of
     WatcherEvent ops file1 file2 \<Rightarrow>
       se_sha256hex env (read_content file1) \<noteq> configFileHash (sy_config s) \<and> read_config (se_unmarshal env) file2 = None
   | _ \<Rightarrow> False)"
| "panic_cause env s (ConfigWatch err) \<longleftrightarrow> err \<noteq> None"
| "panic_cause env s (EgressApply now) \<longleftrightarrow> (\<exists>c. pc_egress s = EgressStage c
     \<and> (\<not> egress_usable c \<or> refused (se_metrics env) (egress_descs (se_metrics env) (Egress c)) (sy_metrics s)))"
| "panic_cause env s IngressApply \<longleftrightarrow> (\<exists>c. pc_ingress s = IngressStage c
     \<and> (\<not> ingress_usable c \<or> refused (se_metrics env) (ingress_descs (se_metrics env) (in_HTTPServerConfig (Ingress c))) (sy_metrics s)))"
| "panic_cause env s (TelemetryTake tenv) \<longleftrightarrow> (\<exists>c ch. ch_config s 3 = c # ch \<and> \<not> telemetry_works tenv c)"
| "panic_cause env s (TelemetryStop tenv) \<longleftrightarrow> gh_completed s = 0 \<or> sy_wg s < 1"
| "panic_cause env s ConfigStop \<longleftrightarrow> sy_wg s < 1"
| "panic_cause env s EgressStop \<longleftrightarrow> sy_wg s < 1"
| "panic_cause env s IngressStop \<longleftrightarrow> sy_wg s < 1"
| "panic_cause env s SignalsSend \<longleftrightarrow> pc_signals s = SignalsSending [] \<and> sy_wg s < 1"
| "panic_cause env s _ \<longleftrightarrow> False"

text \<open>Before telemetry has completed a configuration there are no providers.\<close>

definition inv_providers :: "'r system \<Rightarrow> bool" where
  "inv_providers s \<longleftrightarrow> (sy_panic s = None \<and> gh_completed s = 0 \<longrightarrow> meterProvider (ts_providers (sy_telemetry s)) = None)"

lemma inv_providers_transition:
  assumes "transition env s s'" and "inv_providers s" and "sy_panic s = None"
  shows "inv_providers s'"
  using assms(1)
proof (cases rule: transition.cases)
  case tr_main
  from main_step_frame [OF tr_main] assms(2) show ?thesis by (simp add: inv_providers_def main_frame_def)
next
  case (tr_telemetry_stop sg ch tenv ctl st ms sends)
  with assms(2,3) show ?thesis
    by (auto simp: inv_providers_def shutdown_provider_def go_bind_eq_Inr deref_def split: option.splits)
qed (use assms(2,3) in \<open>auto simp: inv_providers_def crashed_def dest!: sy_panic_wg_done\<close>)

lemma inv_providers_reachable: "reachable env now s \<Longrightarrow> inv_providers s"
proof (induction rule: reachable.induct)
  case (reach_step s a s')
  with sys_transition [OF reach_step(2)] show ?case by (auto intro: inv_providers_transition)
qed (simp add: inv_providers_def wired_def initial_telemetry_state_def)

definition panicked :: "'r system \<Rightarrow> bool" where
  "panicked s \<longleftrightarrow> sy_panic s \<noteq> None"

lemma wg_done_panicked: "sy_panic s = None \<Longrightarrow> panicked (wg_done s) \<longleftrightarrow> sy_wg s < 1"
  by (simp add: wg_done_def panicked_def)

lemma or_panic_panics:
  assumes "\<And>x. r = Inr x \<Longrightarrow> sy_panic (f x) = None"
  shows "panicked (or_panic r f s) \<longleftrightarrow> (\<exists>p. r = Inl p)"
  using assms by (cases r) (simp_all add: or_panic_def panicked_def)

lemma config_panics:
  assumes "good env now s"
  shows "config_start env envVar content s = Some s' \<Longrightarrow> panicked s' \<longleftrightarrow> panic_cause env s (ConfigStart envVar content)"
    and "config_watch env e s = Some s' \<Longrightarrow> panicked s' \<longleftrightarrow> panic_cause env s (ConfigEvent e)"
    and "config_watcher err s = Some s' \<Longrightarrow> panicked s' \<longleftrightarrow> panic_cause env s (ConfigWatch err)"
proof -
  from assms have chans: "configUpdateChannels (sy_config s) = 4" "sy_panic s = None"
    using inv_config_reachable [of env now s] by (auto simp: good_def inv_config_def config_channels_def)
  show "panicked s' \<longleftrightarrow> panic_cause env s (ConfigWatch err)" if "config_watcher err s = Some s'"
    using that chans(2)
    by (cases err) (auto simp: config_watcher_def GoConfig_watcher_def or_panic_def panicked_def split: if_splits)
  {
    assume "config_start env envVar content s = Some s'"
    then have "s' = or_panic (GoConfig_start (se_unmarshal env) envVar content (sy_config s))
        (\<lambda>(st, sends). s\<lparr>sy_config := st, pc_config := ConfigSending sends\<rparr>) s"
      by (simp add: config_start_def split: if_splits)
    moreover have "(\<exists>p. GoConfig_start (se_unmarshal env) envVar content (sy_config s) = Inl p)
        \<longleftrightarrow> read_config (se_unmarshal env) content = None"
      using chans notify_panics by (simp add: GoConfig_start_def Let_def go_bind_eq_Inl bunnyConfig_read_config)
    ultimately show "panicked s' \<longleftrightarrow> panic_cause env s (ConfigStart envVar content)"
      using chans(2) by (simp add: or_panic_panics split: prod.split)
  }
  {
    assume "config_watch env e s = Some s'"
    then have "s' = or_panic (GoConfig_step (se_sha256hex env) (se_unmarshal env) e (sy_config s))
        (\<lambda>(ctl, st, sends). s\<lparr>sy_config := st, pc_config := ConfigSending sends\<rparr>) s"
      by (simp add: config_watch_def split: if_splits)
    moreover have "(\<exists>p. GoConfig_step (se_sha256hex env) (se_unmarshal env) e (sy_config s) = Inl p) \<longleftrightarrow> panic_cause env s (ConfigEvent e)"
      using chans notify_panics
      by (cases e) (auto simp: Let_def go_bind_eq_Inl bunnyConfig_read_config read_content_def)
    ultimately show "panicked s' \<longleftrightarrow> panic_cause env s (ConfigEvent e)"
      using chans(2) by (simp add: or_panic_panics del: GoConfig_step.simps panic_cause.simps split: prod.split)
  }
qed

text \<open>A configuration is applied when telemetry has completed one, so there is a registry.\<close>

lemma apply_registry:
  assumes "good env now s" and "i < 2" and "waiting i s = 1" and "ch_stage s i = stage # ch"
  shows "PromRegistry (sy_metrics s) \<noteq> None"
proof -
  from can_apply(2) [OF assms] good_counts(2) [OF assms(1)] have "0 < gh_completed s" by simp
  with assms(1) inv_ready_reachable [of env now s] show ?thesis
    by (simp add: good_def inv_ready_def telemetry_ready_def has_registry_def)
qed

lemma apply_panics:
  assumes "good env now s"
  shows "egress_apply env t s = Some s' \<Longrightarrow> panicked s' \<longleftrightarrow> panic_cause env s (EgressApply t)"
    and "ingress_apply env s = Some s' \<Longrightarrow> panicked s' \<longleftrightarrow> panic_cause env s IngressApply"
proof -
  from assms(1) have ok: "sy_panic s = None" by (simp add: good_def)
  {
    assume "egress_apply env t s = Some s'"
    then obtain c stage ch where c: "pc_egress s = EgressStage c" "ch_stage s 0 = stage # ch"
      "s' = or_panic (GoEgress_step (se_metrics env) (se_regexp env) (EgressConfigUpdate c (Some stage) t) (sy_egress s) (sy_metrics s))
        (\<lambda>(ctl, st, ms, started). s\<lparr>ch_stage := (ch_stage s)(0 := ch),
          gh_stages_taken := (gh_stages_taken s)(0 := Suc (gh_stages_taken s 0)), sy_egress := st, sy_metrics := ms,
          gh_applied := (gh_applied s)(0 := gh_applied s 0 @ [c]), pc_egress := EgressIdle\<rparr>)
        (s\<lparr>ch_stage := (ch_stage s)(0 := ch), gh_stages_taken := (gh_stages_taken s)(0 := Suc (gh_stages_taken s 0))\<rparr>)"
      by (auto simp: egress_apply_def take_defs simp del: GoEgress_step.simps split: egress_pc.splits)
    have w: "waiting 0 s = 1" using c(1) by (simp add: waiting_def)
    note stage = can_apply(3) [OF assms(1) _ w c(2)] and reg = apply_registry [OF assms(1) _ w c(2)]
    from egress_update_panics [OF reg] c ok stage show "panicked s' \<longleftrightarrow> panic_cause env s (EgressApply t)"
      by (simp add: or_panic_panics del: GoEgress_step.simps split: prod.split)
  }
  {
    assume "ingress_apply env s = Some s'"
    then obtain c stage s1 where c: "pc_ingress s = IngressStage c" "take_stage 1 s = Some (stage, s1)"
      by (auto simp: ingress_apply_def split: ingress_pc.splits)
    then obtain ch where ch: "ch_stage s 1 = stage # ch"
      and s1: "sy_ingress s1 = sy_ingress s" "sy_metrics s1 = sy_metrics s" "sy_panic s1 = None"
      using ok by (auto simp: take_defs)
    let ?r = "GoIngress_step (se_metrics env) (se_fraction env) (IngressConfigUpdate c (Some stage)) (sy_ingress s) (sy_metrics s)"
    from \<open>ingress_apply env s = Some s'\<close> c s1 have "\<exists>f. s' = or_panic ?r f s1 \<and> (\<forall>st ms. sy_panic (f (Continue, st, ms)) = None)"
      by (simp add: ingress_apply_def del: GoIngress_step.simps) (intro exI conjI, erule sym, simp)
    then obtain f where f: "s' = or_panic ?r f s1" "\<And>st ms. sy_panic (f (Continue, st, ms)) = None" by blast
    have w: "waiting 1 s = 1" using c(1) by (simp add: waiting_def)
    note stage = can_apply(3) [OF assms _ w ch] and reg = apply_registry [OF assms _ w ch]
    have "ctl = Continue" if "?r = Inr (ctl, st, ms)" for ctl st ms
      using that GoIngress_completed stage by (cases ctl) fastforce+
    then have "panicked s' \<longleftrightarrow> (\<exists>p. ?r = Inl p)"
      unfolding f(1) by (intro or_panic_panics) (auto simp: f(2) simp del: GoIngress_step.simps)
    with ingress_update_panics [OF reg] c(1) stage show "panicked s' \<longleftrightarrow> panic_cause env s IngressApply"
      by (simp del: GoIngress_step.simps)
  }
qed

lemma telemetry_panics:
  assumes "good env now s"
  shows "telemetry_take tenv s = Some s' \<Longrightarrow> panicked s' \<longleftrightarrow> panic_cause env s (TelemetryTake tenv)"
    and "telemetry_stop tenv s = Some s' \<Longrightarrow> panicked s' \<longleftrightarrow> panic_cause env s (TelemetryStop tenv)"
proof -
  from assms have ok: "sy_panic s = None" by (simp add: good_def)
  show "panicked s' \<longleftrightarrow> panic_cause env s (TelemetryTake tenv)" if "telemetry_take tenv s = Some s'"
  proof -
    from that obtain c ch where "ch_config s 3 = c # ch"
      "s' = or_panic (GoTelemetry_step tenv configStageListeners (TelemetryConfigUpdate c) (sy_telemetry s) (sy_metrics s))
        (\<lambda>(ctl, st, ms, sends). s\<lparr>ch_config := (ch_config s)(3 := ch), gh_taken := (gh_taken s)(3 := gh_taken s 3 @ [c]),
          sy_telemetry := st, sy_metrics := ms, gh_completed := Suc (gh_completed s), pc_telemetry := TelemetrySending sends\<rparr>)
        (s\<lparr>ch_config := (ch_config s)(3 := ch), gh_taken := (gh_taken s)(3 := gh_taken s 3 @ [c])\<rparr>)"
      by (auto simp: telemetry_take_def take_defs simp del: GoTelemetry_step.simps split: if_splits)
    with ok show ?thesis
      by (simp add: or_panic_panics telemetry_update_panics del: GoTelemetry_step.simps split: prod.split)
  qed
  show "panicked s' \<longleftrightarrow> panic_cause env s (TelemetryStop tenv)" if "telemetry_stop tenv s = Some s'"
  proof (cases "gh_completed s = 0")
    case True
    with ok assms inv_providers_reachable have "meterProvider (ts_providers (sy_telemetry s)) = None"
      by (auto simp: good_def inv_providers_def)
    with that True show ?thesis
      by (auto simp: telemetry_stop_def take_defs or_panic_def panicked_def shutdown_provider_def split: if_splits)
  next
    case False
    with ok assms inv_ready_reachable [of env now s] have "telemetry_ready (sy_telemetry s) (sy_metrics s)"
      by (simp add: good_def inv_ready_def)
    from telemetry_signal_ok [OF this, of tenv configStageListeners] that ok False show ?thesis
      by (auto simp: telemetry_stop_def take_defs or_panic_def panicked_def wg_done_def simp del: GoTelemetry_step.simps split: if_splits)
  qed
qed

lemma stop_panics:
  assumes "good env now s"
  shows "config_stop env s = Some s' \<Longrightarrow> panicked s' \<longleftrightarrow> sy_wg s < 1"
    and "egress_stop env s = Some s' \<Longrightarrow> panicked s' \<longleftrightarrow> sy_wg s < 1"
    and "ingress_stop env s = Some s' \<Longrightarrow> panicked s' \<longleftrightarrow> sy_wg s < 1"
    and "signals_send s = Some s' \<Longrightarrow> panicked s' \<longleftrightarrow> pc_signals s = SignalsSending [] \<and> sy_wg s < 1"
proof -
  from assms have ok: "sy_panic s = None" by (simp add: good_def)
  show "config_stop env s = Some s' \<Longrightarrow> panicked s' \<longleftrightarrow> sy_wg s < 1" "egress_stop env s = Some s' \<Longrightarrow> panicked s' \<longleftrightarrow> sy_wg s < 1"
    "ingress_stop env s = Some s' \<Longrightarrow> panicked s' \<longleftrightarrow> sy_wg s < 1"
    using ok by (auto simp: config_stop_def egress_stop_def ingress_stop_def take_defs or_panic_def wg_done_panicked split: if_splits)
  assume "signals_send s = Some s'"
  then consider "pc_signals s = SignalsSending []" "s' = wg_done (s\<lparr>pc_signals := SignalsDone\<rparr>)"
    | i sg sends where "pc_signals s = SignalsSending ((i, sg) # sends)"
        "s' = s\<lparr>ch_signal := (ch_signal s)(i := [sg]), pc_signals := SignalsSending sends\<rparr>"
    by (auto simp: signals_send_def chan_send_eq_Some split: signals_pc.splits list.splits)
  then show "panicked s' \<longleftrightarrow> pc_signals s = SignalsSending [] \<and> sy_wg s < 1"
    using ok by cases (simp_all add: wg_done_panicked, simp add: panicked_def)
qed

text \<open>The other steps cannot panic.\<close>

lemma calm_steps:
  assumes "good env now s"
  shows "main_step s = Some s' \<Longrightarrow> \<not> panicked s'" and "config_send s = Some s' \<Longrightarrow> \<not> panicked s'"
    and "egress_tick env t s = Some s' \<Longrightarrow> \<not> panicked s'" and "egress_take s = Some s' \<Longrightarrow> \<not> panicked s'"
    and "ingress_take s = Some s' \<Longrightarrow> \<not> panicked s'" and "telemetry_send s = Some s' \<Longrightarrow> \<not> panicked s'"
    and "signals_take env s = Some s' \<Longrightarrow> \<not> panicked s'" and "signals_receive env table s = Some s' \<Longrightarrow> \<not> panicked s'"
    and "os_notify sg s = Some s' \<Longrightarrow> \<not> panicked s'"
proof -
  from assms have ok: "\<not> panicked s" by (simp add: good_def panicked_def)
  show "main_step s = Some s' \<Longrightarrow> \<not> panicked s'"
    using ok main_step_frame [of s s'] by (simp add: main_frame_def panicked_def)
  show "config_send s = Some s' \<Longrightarrow> \<not> panicked s'" "egress_tick env t s = Some s' \<Longrightarrow> \<not> panicked s'"
    "egress_take s = Some s' \<Longrightarrow> \<not> panicked s'" "ingress_take s = Some s' \<Longrightarrow> \<not> panicked s'"
    "telemetry_send s = Some s' \<Longrightarrow> \<not> panicked s'" "signals_take env s = Some s' \<Longrightarrow> \<not> panicked s'"
    using ok by (auto simp: panicked_def config_send_def egress_tick_def or_panic_def egress_take_def ingress_take_def telemetry_send_def
        signals_take_def take_defs split: config_pc.splits list.splits if_splits telemetry_pc.splits)
  show "signals_receive env table s = Some s' \<Longrightarrow> \<not> panicked s'" "os_notify sg s = Some s' \<Longrightarrow> \<not> panicked s'"
    using ok by (auto simp: panicked_def signals_receive_def os_notify_def simp del: GoSignals_step.simps split: if_splits option.splits)
qed

lemma step_panics:
  assumes "reachable env now s" and "sys_step env a s = Some s'"
  shows "panicked s' \<longleftrightarrow> panic_cause env s a"
proof -
  from assms(2) have "act_step env a s = Some s'" "sy_panic s = None" by (simp_all add: sys_step_eq_Some)
  with assms(1) have good: "good env now s" by (simp add: good_def)
  note config = config_panics [OF good] and applying = apply_panics [OF good]
    and telemetry = telemetry_panics [OF good] and stop = stop_panics [OF good] and calm = calm_steps [OF good]
  show ?thesis
  proof (cases a)
    case (ConfigStart envVar content)
    with config(1) \<open>act_step env a s = Some s'\<close> show ?thesis by simp
  next
    case (ConfigEvent e)
    with config(2) \<open>act_step env a s = Some s'\<close> show ?thesis by (simp del: panic_cause.simps)
  next
    case (ConfigWatch err)
    with config(3) \<open>act_step env a s = Some s'\<close> show ?thesis by (simp del: panic_cause.simps)
  next
    case (EgressApply t)
    with applying(1) \<open>act_step env a s = Some s'\<close> show ?thesis by (simp del: panic_cause.simps)
  next
    case IngressApply
    with applying(2) \<open>act_step env a s = Some s'\<close> show ?thesis by (simp del: panic_cause.simps)
  next
    case (TelemetryTake tenv)
    with telemetry(1) \<open>act_step env a s = Some s'\<close> show ?thesis by (simp del: panic_cause.simps)
  next
    case (TelemetryStop tenv)
    with telemetry(2) \<open>act_step env a s = Some s'\<close> show ?thesis by (simp del: panic_cause.simps)
  qed (use \<open>act_step env a s = Some s'\<close> stop calm in simp_all)
qed

section \<open>Properties\<close>


definition null_env :: "unit sys_env" where
  "null_env = example_sys_env\<lparr>se_unmarshal := (\<lambda>d c. (None, None))\<rparr>"


end
