(* ===== verification/Spec2Isabelle.thy ===== *)
theory Spec2Isabelle
  imports Go_Prelude Go_IO Go_Duration Go_HTTP Config Metrics Queries Telemetry Expect Probes Exec_Env
    Egress Ingress Signals Logging Bee Bunny_Bee System System_Invariants System_Properties
    Specification Refinement System_Progress System_Panics
begin

text \<open>
  A verification of bunny, a sidecar that runs the probes of an application and answers health checks from the
  metrics they produce, and of bee, the application of its examples.

  \<^bold>\<open>The programs.\<close> \<open>src/src/bunny\<close> is one process of five goroutines that \<open>main.go\<close> wires up with buffered
  channels of capacity one. \<open>config\<close> reads and watches a YAML file and sends every configuration to the other
  four. \<open>telemetry\<close> makes a metrics registry, a Prometheus database and query engine and OpenTelemetry providers,
  and then tells \<open>egress\<close> and \<open>ingress\<close>, over the stage channels, that they may apply the same configuration.
  \<open>egress\<close> runs the probes (exec, gRPC, HTTP GET, TCP with an expect conversation) on a ticker. \<open>ingress\<close> is
  an HTTP server whose health endpoints evaluate PromQL queries. \<open>signals\<close> takes the signals of the operating
  system, waits for a watched process to go away and passes the signal on. \<open>logging\<close> adapts the loggers of
  the libraries. \<open>src/src/bee\<close> is a small server: a TCP conversation, \<open>/hello\<close>, \<open>/healthz\<close>.

  \<^bold>\<open>How Go is read.\<close> A value of type \<open>'a go\<close> is a panic or a result, and \<open>go_bind\<close>, \<open>go_for\<close> and \<open>deref\<close> are
  sequencing, range loops and pointer dereferences. Integers and durations are 64-bit words, times are
  nanoseconds, strings are lists of bytes. State is a record that is passed on. Clocks, files,
  the network and the process table are inputs. Libraries outside the source (YAML, SHA-256, regular expressions,
  OpenTelemetry, the Prometheus client and engine) are arguments, and what is needed of them is a hypothesis of
  the theorem that needs it. Nothing is assumed of the Prometheus registry: what becomes of a configuration is stated
  by cases on whether it takes the collectors, one after the other (\<open>register_all\<close>). What is called on an instrument or
  a server is recorded as an event.

  \<^bold>\<open>The theories.\<close>
  \<^item> \<open>Go_Prelude\<close>: panics, integers, times, strings, decimal numbers, paths, the contract \<open>buffered_channel\<close> and
    its interpretation for Go's channels. \<open>Go_IO\<close>: connections with buffered readers and writers and partial
    writes. \<open>Go_Duration\<close>: \<open>time.ParseDuration\<close>. \<open>Go_HTTP\<close>: responses and \<open>ServeMux\<close>, with the contract \<open>router\<close>.
  \<^item> \<open>Config\<close>: \<open>config/*.go\<close>. The structs are records; \<open>GoConfig_start\<close>, \<open>GoConfig_watcher\<close>, \<open>GoConfig_step\<close> and
    \<open>GoConfig_loop\<close> are the goroutine. Shown: what is sent follows the content of the file, which is read twice for
    every event; every outcome of the start; what a deleted file does.
  \<^item> \<open>Metrics\<close>: \<open>telemetry/metrics.go\<close>, \<open>common/common.go\<close>, with the contract \<open>measured_call\<close> of everything that
    is wrapped in \<open>PreMeasurable\<close> and \<open>PostMeasurable\<close>. Shown: counters under any interleaving; which response
    times a collection observes. \<open>Queries\<close>: the verdict on a query result. Shown: success means all ones.
    \<open>Telemetry\<close>: \<open>configureTelemetry\<close> and \<open>GoTelemetry\<close>. Shown: everything exists when the packages are told so;
    which exporters become which options; which providers are shut down.
  \<^item> \<open>Expect\<close>, \<open>Probes\<close>, \<open>Exec_Env\<close>, \<open>Egress\<close>: \<open>egress/*.go\<close>. Shown: the expect script over buffers refines the
    unbuffered conversation; a sent text is read back; every action measures what happened and sets its span;
    counts over many executions; which probes, with which action, steps and metrics, a configuration becomes, and when it panics; no probe runs
    before the initial delay, as it is converted to a duration; the environment of overlapping exec probes, on an explicit heap of arrays.
  \<^item> \<open>Ingress\<close>: \<open>ingress/*.go\<close>. Shown: what a health request is answered; the times that queries are evaluated at; there
    is one server at a time; every outcome of a configuration; the counters of the queries.
  \<^item> \<open>Signals\<close>: \<open>signals/signals.go\<close>. The wait for the process is a \<open>partial_function\<close> into \<open>option\<close>, since it may not
    end: it is shown when it does and that nothing is sent when it does not. \<open>Logging\<close>: \<open>logging/logging.go\<close>.
  \<^item> \<open>Bee\<close>: \<open>bee/main.go\<close>. Shown: its conversation, the number of spans of a health check (the recursion
    ends because the name grows up to 21 characters), the delays, when it is healthy, what stops it. \<open>Bunny_Bee\<close>: the
    two programs together, the example probe of the README against bee.
  \<^item> \<open>System\<close>: \<open>main.go\<close> and the five goroutines as one state with an executable step per operation on a channel,
    built from the operations above, and a relation \<open>transition\<close> that contains every step. \<open>System_Invariants\<close>: the wait
    group, stage messages, signal, registry, configurations and what is in force, in every reachable state; the fields
    \<open>gh_*\<close> record what was sent, taken and applied and steer nothing. \<open>System_Properties\<close>:
    configurations arrive and are applied in order and after telemetry; \<open>main\<close> returns last; shutting down
    completes from a quiet state; and two ways in which the program does not end well.
  \<^item> \<open>Specification\<close>: what the program promises, as a transition system over a log of configurations without channels,
    and the contract \<open>refinement_mapping\<close>. \<open>Refinement\<close>: the program of \<open>System\<close> implements it, an interpretation of the
    contract on the model's own steps; from the specification follow how far a package can be behind and that only
    configured probes are ever started. \<open>System_Progress\<close>: passing a configuration on never gets stuck, by a
    measure of the work left, and in the end the last configuration is in force; and the shape of every reachable state.
    \<open>System_Panics\<close>: exactly when a step panics.

  \<^bold>\<open>Bounds.\<close> No definition has fuel. Loops over data are structural or have a termination proof by a measure. Loops of
  goroutines run on the list of what they receive, or are sequences of steps of arbitrary length; where a run is
  said to come to an end, the number of its steps is given.

  \<^bold>\<open>Not modelled.\<close> Logging calls and \<open>logConfigBeingUsed\<close>, which only prints. \<open>newDialer\<close>, which sets a socket option.
  The constructors of the loggers. Data races on package variables,
  other than those on the environment of exec probes, the counters and the maps of response times;
  in \<open>System\<close> a goroutine runs undisturbed between two operations on channels, and probes and health requests are not
  among its steps, only the probes that are started. The wait of \<open>signals\<close> for the watched process is one step of \<open>System\<close>, with the tables
  it polls as its input. \<open>Server.Shutdown\<close> takes no time here; in Go it waits for open requests. A buffered reader is
  modelled by what it returns, not by how far it reads ahead. Patterns of \<open>ServeMux\<close> with braces or percent signs,
  which have a meaning of their own, are excluded by the hypotheses \<open>plain_routes\<close> and \<open>plain_url_path\<close>. Go's
  floating point numbers are an abstract type in query results and real numbers in \<open>bee\<close>. The bodies of
  the pages that the Prometheus library serves, and the transport of gRPC.
\<close>

end
